(* ===== verification/Aitt_Prelude.thy ===== *)
theory Aitt_Prelude
  imports Main "HOL-Library.Word" "HOL-Library.Char_ord" "HOL-Library.List_Lexorder"
begin

text \<open>
  Shared ground of the development: the exceptions the C++ code throws and the
  state-and-exception actions every operation is written in, the generic state machine with
  its invariant rule, \<open>std::map\<close> with its ordered iteration, and the collections of rules
  the component proofs use.

  A C++ function that mutates an object and may throw keeps the mutations it made before
  the throw.  An action therefore returns the new state on both outcomes.
\<close>

named_theorems act_simps "how an action runs"
named_theorems preserves_intros "actions that keep an invariant"

section \<open>Exceptions and actions\<close>

datatype ErrCode =
    INVALID_ARG
  | NO_MEMORY_ERR
  | OPERATION_FAILED
  | SYSTEM_ERR
  | MQTT_ERR
  | NO_DATA_ERR
  | RESOURCE_BUSY_ERR
  | ALREADY
  | NOT_SUPPORTED
  | INVALID_STATE

datatype exn =
    AittException ErrCode
  | RuntimeError string
  | InvalidArgument
  | OutOfRange
  | UndefinedBehaviour string

text \<open>
  \<open>UndefinedBehaviour\<close> is no exception of the code: it marks an access the C++ standard
  leaves undefined, and no handler catches it.
\<close>

type_synonym ('s, 'a) act = "'s \<Rightarrow> (exn + 'a) \<times> 's"

definition ret :: "'a \<Rightarrow> ('s, 'a) act" where
  "ret x = (\<lambda>s. (Inr x, s))"

definition raise :: "exn \<Rightarrow> ('s, 'a) act" where
  "raise e = (\<lambda>s. (Inl e, s))"

definition bnd :: "('s, 'a) act \<Rightarrow> ('a \<Rightarrow> ('s, 'b) act) \<Rightarrow> ('s, 'b) act" where
  "bnd m f = (\<lambda>s. case m s of (Inl e, t) \<Rightarrow> (Inl e, t) | (Inr x, t) \<Rightarrow> f x t)"

definition sq :: "('s, 'a) act \<Rightarrow> ('s, 'b) act \<Rightarrow> ('s, 'b) act" where
  "sq m n = bnd m (\<lambda>_. n)"

definition rd :: "('s \<Rightarrow> 'a) \<Rightarrow> ('s, 'a) act" where
  "rd f = (\<lambda>s. (Inr (f s), s))"

definition upd :: "('s \<Rightarrow> 's) \<Rightarrow> ('s, unit) act" where
  "upd f = (\<lambda>s. (Inr (), f s))"

definition whenA :: "bool \<Rightarrow> ('s, unit) act \<Rightarrow> ('s, unit) act" where
  "whenA b m = (if b then m else ret ())"

definition tryA :: "('s, 'a) act \<Rightarrow> (exn \<Rightarrow> ('s, 'a) act) \<Rightarrow> ('s, 'a) act" where
  "tryA m h = (\<lambda>s. case m s of
       (Inl e, t) \<Rightarrow> (case e of UndefinedBehaviour w \<Rightarrow> (Inl e, t) | _ \<Rightarrow> h e t)
     | (Inr x, t) \<Rightarrow> (Inr x, t))"

definition zoom :: "('s \<Rightarrow> 't) \<Rightarrow> ('t \<Rightarrow> 's \<Rightarrow> 's) \<Rightarrow> ('t, 'a) act \<Rightarrow> ('s, 'a) act" where
  "zoom g p m = (\<lambda>s. case m (g s) of (r, t) \<Rightarrow> (r, p t s))"

fun forA :: "'a list \<Rightarrow> ('a \<Rightarrow> ('s, unit) act) \<Rightarrow> ('s, unit) act" where
  "forA [] f = ret ()"
| "forA (x # xs) f = sq (f x) (forA xs f)"

lemma ret_run [act_simps]: "ret x s = (Inr x, s)"
  by (simp add: ret_def)

lemma raise_run [act_simps]: "raise e s = (Inl e, s)"
  by (simp add: raise_def)

lemma bnd_run [act_simps]:
  "bnd m f s = (case m s of (Inl e, t) \<Rightarrow> (Inl e, t) | (Inr x, t) \<Rightarrow> f x t)"
  by (simp add: bnd_def)

lemma sq_run [act_simps]:
  "sq m n s = (case m s of (Inl e, t) \<Rightarrow> (Inl e, t) | (Inr x, t) \<Rightarrow> n t)"
  by (simp add: sq_def bnd_def)

lemma rd_run [act_simps]: "rd f s = (Inr (f s), s)"
  by (simp add: rd_def)

lemma upd_run [act_simps]: "upd f s = (Inr (), f s)"
  by (simp add: upd_def)

lemma whenA_run [act_simps]: "whenA b m s = (if b then m s else (Inr (), s))"
  by (simp add: whenA_def ret_def)

lemma tryA_run [act_simps]:
  "tryA m h s = (case m s of
       (Inl e, t) \<Rightarrow> (case e of UndefinedBehaviour w \<Rightarrow> (Inl e, t) | _ \<Rightarrow> h e t)
     | (Inr x, t) \<Rightarrow> (Inr x, t))"
  by (simp add: tryA_def)

lemma zoom_run [act_simps]: "zoom g p m s = (case m (g s) of (r, t) \<Rightarrow> (r, p t s))"
  by (simp add: zoom_def)

lemma forA_Nil_run [act_simps]: "forA [] f s = (Inr (), s)"
  by (simp add: ret_def)

lemma forA_Cons_run [act_simps]:
  "forA (x # xs) f s = (case f x s of (Inl e, t) \<Rightarrow> (Inl e, t) | (Inr u, t) \<Rightarrow> forA xs f t)"
  by (simp add: sq_run)

declare forA.simps [simp del]

text \<open>The monad laws, so that a sequence of calls can be regrouped.\<close>

lemma bnd_ret: "bnd (ret x) f = f x"
  by (simp add: bnd_def ret_def)

lemma ret_bnd: "bnd m ret = m"
  by (rule ext) (simp add: bnd_def ret_def split: prod.splits sum.splits)

lemma bnd_assoc: "bnd (bnd m f) g = bnd m (\<lambda>x. bnd (f x) g)"
  by (rule ext) (simp add: bnd_def split: prod.splits sum.splits)

lemma raise_bnd: "bnd (raise e) f = raise e"
  by (simp add: bnd_def raise_def)

lemma bnd_Inr: "m s = (Inr x, t) \<Longrightarrow> bnd m f s = f x t"
  by (simp add: bnd_def)

lemma bnd_Inl: "m s = (Inl e, t) \<Longrightarrow> bnd m f s = (Inl e, t)"
  by (simp add: bnd_def)

subsection \<open>Actions that keep an invariant, whether they return or throw\<close>

definition preserves :: "('s \<Rightarrow> bool) \<Rightarrow> ('s, 'a) act \<Rightarrow> bool" where
  "preserves I m \<longleftrightarrow> (\<forall>s. I s \<longrightarrow> I (snd (m s)))"

lemma preservesI: "(\<And>s. I s \<Longrightarrow> I (snd (m s))) \<Longrightarrow> preserves I m"
  by (simp add: preserves_def)

lemma preservesD: "preserves I m \<Longrightarrow> I s \<Longrightarrow> I (snd (m s))"
  by (simp add: preserves_def)

lemma preserves_ret [preserves_intros]: "preserves I (ret x)"
  by (simp add: preserves_def act_simps)

lemma preserves_raise [preserves_intros]: "preserves I (raise e)"
  by (simp add: preserves_def act_simps)

lemma preserves_rd [preserves_intros]: "preserves I (rd f)"
  by (simp add: preserves_def act_simps)

lemma preserves_bnd [preserves_intros]:
  assumes "preserves I m" and "\<And>x. preserves I (f x)"
  shows "preserves I (bnd m f)"
proof (rule preservesI)
  fix s assume "I s"
  with assms(1) have "I (snd (m s))" by (rule preservesD)
  with assms(2) show "I (snd (bnd m f s))"
    by (cases "m s"; cases "fst (m s)") (auto simp: act_simps preserves_def)
qed

lemma preserves_sq [preserves_intros]:
  "preserves I m \<Longrightarrow> preserves I n \<Longrightarrow> preserves I (sq m n)"
  by (simp add: sq_def preserves_bnd)

lemma preserves_upd [preserves_intros]: "(\<And>s. I s \<Longrightarrow> I (f s)) \<Longrightarrow> preserves I (upd f)"
  by (simp add: preserves_def act_simps)

lemma preserves_whenA [preserves_intros]: "(b \<Longrightarrow> preserves I m) \<Longrightarrow> preserves I (whenA b m)"
  by (simp add: preserves_def act_simps)

lemma preserves_if [preserves_intros]:
  "(b \<Longrightarrow> preserves I m) \<Longrightarrow> (\<not> b \<Longrightarrow> preserves I n) \<Longrightarrow> preserves I (if b then m else n)"
  by simp

lemma preserves_tryA [preserves_intros]:
  assumes "preserves I m" and "\<And>e. preserves I (h e)"
  shows "preserves I (tryA m h)"
proof (rule preservesI)
  fix s assume "I s"
  with assms(1) have "I (snd (m s))" by (rule preservesD)
  with assms(2) show "I (snd (tryA m h s))"
    by (cases "m s"; cases "fst (m s)") (auto simp: act_simps preserves_def split: exn.splits)
qed

lemma preserves_forA [preserves_intros]:
  "(\<And>x. x \<in> set xs \<Longrightarrow> preserves I (f x)) \<Longrightarrow> preserves I (forA xs f)"
  by (induction xs) (auto simp: forA.simps intro: preserves_intros)

lemma preserves_zoom:
  assumes "\<And>s. I s \<Longrightarrow> J (g s)" and "preserves J m" and "\<And>s t. I s \<Longrightarrow> J t \<Longrightarrow> I (p t s)"
  shows "preserves I (zoom g p m)"
proof (rule preservesI)
  fix s assume "I s"
  then have "J (snd (m (g s)))" using assms(1,2) by (blast dest: preservesD)
  with \<open>I s\<close> assms(3) show "I (snd (zoom g p m s))"
    by (cases "m (g s)") (simp add: act_simps)
qed

section \<open>State machines\<close>

inductive reachable :: "('s \<Rightarrow> bool) \<Rightarrow> ('s \<Rightarrow> 's \<Rightarrow> bool) \<Rightarrow> 's \<Rightarrow> bool"
  for init :: "'s \<Rightarrow> bool" and step :: "'s \<Rightarrow> 's \<Rightarrow> bool" where
  reachable_init: "init s \<Longrightarrow> reachable init step s"
| reachable_step: "reachable init step s \<Longrightarrow> step s t \<Longrightarrow> reachable init step t"

text \<open>
  The interface between a component and the clients that only rely on its invariant: the
  component supplies its start states and its steps, and promises that the invariant holds
  at the start and survives each step.
\<close>

locale invariant_system =
  fixes init :: "'s \<Rightarrow> bool" and step :: "'s \<Rightarrow> 's \<Rightarrow> bool" and inv :: "'s \<Rightarrow> bool"
  assumes inv_init: "init s \<Longrightarrow> inv s"
    and inv_step: "inv s \<Longrightarrow> step s t \<Longrightarrow> inv t"
begin

lemma reachable_inv: "reachable init step s \<Longrightarrow> inv s"
  by (induction rule: reachable.induct) (auto intro: inv_init inv_step)

end

section \<open>Tables of handles\<close>

text \<open>
  The interface of every component that hands out a handle for a subscription and takes it
  back: \<open>MQ\<close>, the transports and the \<open>AITT\<close> class itself.  A handle is new when it is
  given, it stands for what was registered until it is removed, and removing an unknown one
  changes no entry.
\<close>

locale handle_table =
  fixes ok :: "'s \<Rightarrow> bool"
    and table :: "'s \<Rightarrow> nat \<Rightarrow> 'd option"
    and add :: "'d \<Rightarrow> ('s, nat) act"
    and del :: "nat \<Rightarrow> ('s, 'r) act"
    and payload :: "'d \<Rightarrow> 'r"
  assumes add_law: "ok s \<Longrightarrow> add d s = (Inr h, t) \<Longrightarrow>
             ok t \<and> h \<noteq> 0 \<and> table s h = None \<and> table t = (table s)(h \<mapsto> d)"
    and add_error: "ok s \<Longrightarrow> add d s = (Inl e, t) \<Longrightarrow> ok t \<and> table t = table s"
    and del_law: "ok s \<Longrightarrow> table s h = Some d \<Longrightarrow> del h s = (r, t) \<Longrightarrow>
             ok t \<and> table t = (table s)(h := None) \<and> (\<forall>x. r = Inr x \<longrightarrow> x = payload d)"
    and del_unknown: "ok s \<Longrightarrow> h \<noteq> 0 \<Longrightarrow> table s h = None \<Longrightarrow> del h s = (r, t) \<Longrightarrow> ok t \<and> table t = table s"
begin

lemma add_del:
  assumes "ok s" and "add d s = (Inr h, t)" and "del h t = (r, u)"
  shows "ok u \<and> table u = table s \<and> (\<forall>x. r = Inr x \<longrightarrow> x = payload d)"
proof -
  from add_law [OF assms(1,2)] have t: "ok t" "table s h = None" "table t = (table s)(h \<mapsto> d)" by auto
  with del_law [OF t(1) _ assms(3), of d] show ?thesis by (simp add: fun_upd_idem)
qed

lemma del_twice:
  assumes "ok s" and "table s h = Some d" and "h \<noteq> 0" and "del h s = (r, t)" and "del h t = (r', u)"
  shows "ok u \<and> table u = table t"
  using del_law [OF assms(1,2,4)] del_unknown [of t h r' u] assms(3,5) by simp

lemma del_other:
  assumes "ok s" and "table s h = Some d" and "del h s = (r, t)" and "h' \<noteq> h"
  shows "table t h' = table s h'"
  using del_law [OF assms(1-3)] assms(4) by simp

lemma add_twice:
  assumes "ok s" and "add d s = (Inr h, t)" and "add d' t = (Inr h', u)"
  shows "h \<noteq> h' \<and> table u h = Some d \<and> table u h' = Some d'"
proof -
  from add_law [OF assms(1,2)] have t: "ok t" "table t h = Some d" by auto
  from add_law [OF t(1) assms(3)] t(2) show ?thesis by auto
qed

end

section \<open>Vectors\<close>

text \<open>\<open>std::find\<close> on a vector, and \<open>erase\<close> at an index.\<close>

fun index_of :: "'a \<Rightarrow> 'a list \<Rightarrow> nat option" where
  "index_of x [] = None"
| "index_of x (y # ys) = (if x = y then Some 0 else map_option Suc (index_of x ys))"

definition erase_at :: "nat \<Rightarrow> 'a list \<Rightarrow> 'a list" where
  "erase_at i xs = take i xs @ drop (Suc i) xs"

lemma index_of_None: "index_of x xs = None \<longleftrightarrow> x \<notin> set xs"
  by (induction xs) auto

lemma index_of_Some: "index_of x xs = Some i \<Longrightarrow> i < length xs \<and> xs ! i = x \<and> x \<notin> set (take i xs)"
  by (induction xs arbitrary: i) (auto split: if_splits)

lemma index_of_middle [simp]: "x \<notin> set xs \<Longrightarrow> index_of x (xs @ x # ys) = Some (length xs)"
  by (induction xs) auto

lemma length_erase_at: "i < length xs \<Longrightarrow> length (erase_at i xs) = length xs - 1"
  by (simp add: erase_at_def)

lemma erase_at_append [simp]: "erase_at (length xs) (xs @ y # ys) = xs @ ys"
  by (simp add: erase_at_def)

lemma set_erase_at: "set (erase_at i xs) \<subseteq> set xs"
  by (auto simp: erase_at_def dest: in_set_takeD in_set_dropD)

lemma map_erase_at: "map f (erase_at i xs) = erase_at i (map f xs)"
  by (simp add: erase_at_def take_map drop_map)

lemma distinct_erase_at: "distinct xs \<Longrightarrow> distinct (erase_at i xs)"
  by (auto simp: erase_at_def set_take_disj_set_drop_if_distinct)

lemma erase_at_distinct:
  assumes "distinct xs" and "i < length xs"
  shows "set (erase_at i xs) = set xs - {xs ! i}" 
proof -
  have xs: "xs = take i xs @ xs ! i # drop (Suc i) xs" using assms(2) by (rule id_take_nth_drop)
  have "distinct (take i xs @ xs ! i # drop (Suc i) xs)" using assms(1) xs by simp
  then have "set (take i xs @ drop (Suc i) xs) = set (take i xs @ xs ! i # drop (Suc i) xs) - {xs ! i}"
    by auto
  then show ?thesis using xs by (simp add: erase_at_def)
qed

lemma erase_at_Cons [simp]:
  "erase_at 0 (x # xs) = xs" "erase_at (Suc i) (x # xs) = x # erase_at i xs"
  by (simp_all add: erase_at_def)

lemma map_of_erase_at:
  "distinct (map fst xs) \<Longrightarrow> i < length xs \<Longrightarrow>
   map_of (erase_at i xs) = (map_of xs)(fst (xs ! i) := None)"
proof (induction xs arbitrary: i)
  case (Cons x xs)
  have "fst (xs ! j) \<noteq> fst x" if "j < length xs" for j
    using Cons.prems(1) imageI [OF nth_mem [OF that], of fst] by (intro notI) simp
  with Cons show ?case
    by (cases i) (auto simp: fun_eq_iff map_of_eq_None_iff)
qed simp

lemma map_add_fresh: "k \<notin> fst ` set xs \<Longrightarrow> [k \<mapsto> v] ++ map_of xs = (map_of xs)(k \<mapsto> v)"
  by (induction xs) auto

lemma map_of_index:
  assumes "map_of xs h = Some d" and "distinct (map fst xs)"
  shows "\<exists>i. index_of h (map fst xs) = Some i \<and> i < length xs \<and> xs ! i = (h, d)"
proof -
  from assms(1) have mem: "(h, d) \<in> set xs" by (rule map_of_SomeD)
  then obtain i where i: "index_of h (map fst xs) = Some i"
    by (metis index_of_None not_None_eq image_eqI fst_conv set_map)
  with index_of_Some [OF i] have "i < length xs" "fst (xs ! i) = h" by auto
  moreover have "map_of xs (fst (xs ! i)) = Some (snd (xs ! i))"
    using assms(2) \<open>i < length xs\<close> by simp
  ultimately show ?thesis using assms(1) i by (metis option.inject prod.collapse)
qed

section \<open>The ordered map of the C++ standard library\<close>

text \<open>
  A \<open>std::map\<close> is its list of entries in key order, which is the order its iterators
  visit them.  \<open>omap_put\<close> is \<open>m[k] = v\<close>, \<open>omap_insert\<close> is \<open>m.insert\<close> or
  \<open>m.emplace\<close> (an existing entry stays), \<open>omap_del\<close> is \<open>m.erase(k)\<close>, and
  \<open>map_of\<close> is \<open>m.find\<close>.
\<close>

type_synonym ('k, 'v) omap = "('k \<times> 'v) list"

fun omap_put :: "'k::linorder \<Rightarrow> 'v \<Rightarrow> ('k, 'v) omap \<Rightarrow> ('k, 'v) omap" where
  "omap_put k v [] = [(k, v)]"
| "omap_put k v ((a, b) # xs) =
     (if k < a then (k, v) # (a, b) # xs
      else if k = a then (k, v) # xs
      else (a, b) # omap_put k v xs)"

definition omap_insert :: "'k::linorder \<Rightarrow> 'v \<Rightarrow> ('k, 'v) omap \<Rightarrow> ('k, 'v) omap" where
  "omap_insert k v m = (case map_of m k of None \<Rightarrow> omap_put k v m | Some _ \<Rightarrow> m)"

definition omap_del :: "'k \<Rightarrow> ('k, 'v) omap \<Rightarrow> ('k, 'v) omap" where
  "omap_del k m = filter (\<lambda>p. fst p \<noteq> k) m"

definition omap_ok :: "('k::linorder, 'v) omap \<Rightarrow> bool" where
  "omap_ok m \<longleftrightarrow> sorted_wrt (<) (map fst m)"

lemma omap_ok_Nil [simp]: "omap_ok []"
  by (simp add: omap_ok_def)

lemma map_of_omap_put [simp]: "map_of (omap_put k v m) = (map_of m)(k \<mapsto> v)"
  by (induction k v m rule: omap_put.induct) auto

lemma map_of_omap_del [simp]: "map_of (omap_del k m) = (map_of m)(k := None)"
  by (induction m) (auto simp: omap_del_def)

lemma map_of_omap_insert:
  "map_of (omap_insert k v m) = (if k \<in> dom (map_of m) then map_of m else (map_of m)(k \<mapsto> v))"
  by (auto simp: omap_insert_def split: option.splits)

lemma keys_omap_put [simp]: "fst ` set (omap_put k v m) = insert k (fst ` set m)"
  by (induction k v m rule: omap_put.induct) auto

lemma keys_omap_del [simp]: "fst ` set (omap_del k m) = fst ` set m - {k}"
  by (auto simp: omap_del_def)

lemma omap_ok_put [simp, intro]: "omap_ok m \<Longrightarrow> omap_ok (omap_put k v m)"
  unfolding omap_ok_def
proof (induction k v m rule: omap_put.induct)
  case (1 k v)
  then show ?case by simp
next
  case (2 k v a b xs)
  have "x \<in> set (map fst (omap_put k v xs)) \<longleftrightarrow> x = k \<or> x \<in> set (map fst xs)" for x
    using keys_omap_put [of k v xs] by auto
  with 2 show ?case by (auto simp del: keys_omap_put set_map)
qed

lemma omap_ok_del [simp, intro]: "omap_ok m \<Longrightarrow> omap_ok (omap_del k m)"
  by (induction m) (auto simp: omap_ok_def omap_del_def)

lemma omap_ok_insert [simp, intro]: "omap_ok m \<Longrightarrow> omap_ok (omap_insert k v m)"
  by (auto simp: omap_insert_def split: option.splits)

lemma omap_insert_fresh: "k \<notin> fst ` set m \<Longrightarrow> omap_insert k v m = omap_put k v m"
  using map_of_eq_None_iff [of m k] by (simp add: omap_insert_def)

lemma omap_ok_distinct: "omap_ok m \<Longrightarrow> distinct (map fst m)"
  by (simp add: omap_ok_def strict_sorted_iff)

lemma omap_mem_iff: "omap_ok m \<Longrightarrow> (k, v) \<in> set m \<longleftrightarrow> map_of m k = Some v"
  by (simp add: omap_ok_distinct)

text \<open>Two maps with the same lookups are the same map: the representation is canonical.\<close>

lemma omap_eq_iff:
  assumes "omap_ok m" and "omap_ok n"
  shows "m = n \<longleftrightarrow> map_of m = map_of n"
proof
  assume eq: "map_of m = map_of n"
  have "set m = set n"
    using omap_mem_iff [OF assms(1)] omap_mem_iff [OF assms(2)] eq by auto
  moreover from this have "inj_on fst (set m \<union> set n)"
    using omap_ok_distinct [OF assms(1)] by (simp add: distinct_map)
  ultimately show "m = n"
    using assms by (intro map_sorted_distinct_set_unique [of fst]) (auto simp: omap_ok_def strict_sorted_iff)
qed simp

lemma omap_put_same: "omap_ok m \<Longrightarrow> map_of m k = Some v \<Longrightarrow> omap_put k v m = m"
  by (subst omap_eq_iff) (auto simp: fun_upd_idem)

end
