(* ===== verification/Aitt_Std.thy ===== *)
theory Aitt_Std
  imports Aitt_Prelude
begin

unbundle bit_operations_syntax

text \<open>
  The C++ library functions on strings and integers the sources call:
  \<open>std::to_string(int)\<close>, \<open>std::stoi\<close>, \<open>std::string::find\<close>, \<open>substr\<close> and
  \<open>insert\<close>, \<open>strcasecmp\<close>, and the bytes of an \<open>int32_t\<close> in memory.
\<close>

type_synonym byte = "8 word"

abbreviation (input) INT32_MAX :: int where "INT32_MAX \<equiv> 2147483647"
abbreviation (input) INT32_MIN :: int where "INT32_MIN \<equiv> - 2147483648"

definition int32_range :: "int \<Rightarrow> bool" where
  "int32_range i \<longleftrightarrow> INT32_MIN \<le> i \<and> i \<le> INT32_MAX"

lemma sint32_range: "int32_range (sint (w :: 32 word))"
  using sint_ge [of w] sint_lt [of w] by (simp add: int32_range_def)

section \<open>Decimal numerals\<close>

definition digit_char :: "nat \<Rightarrow> char" where
  "digit_char d = char_of (48 + d)"

definition is_digit :: "char \<Rightarrow> bool" where
  "is_digit c \<longleftrightarrow> 48 \<le> (of_char c :: nat) \<and> (of_char c :: nat) \<le> 57"

definition digit_val :: "char \<Rightarrow> nat" where
  "digit_val c = of_char c - 48"

fun nat_to_string :: "nat \<Rightarrow> string" where
  "nat_to_string n =
     (if n < 10 then [digit_char n] else nat_to_string (n div 10) @ [digit_char (n mod 10)])"

declare nat_to_string.simps [simp del]

definition to_string :: "int \<Rightarrow> string" where
  "to_string i = (if i < 0 then CHR ''-'' # nat_to_string (nat (- i)) else nat_to_string (nat i))"

fun digits_val :: "nat \<Rightarrow> string \<Rightarrow> nat" where
  "digits_val acc [] = acc"
| "digits_val acc (c # cs) = digits_val (10 * acc + digit_val c) cs"

text \<open>
  \<open>std::stoi\<close> skips white space, reads an optional sign and the digits that follow, and
  ignores the rest.  No digit is \<open>std::invalid_argument\<close>; a value outside \<open>int\<close> is
  \<open>std::out_of_range\<close>.
\<close>

definition is_space :: "char \<Rightarrow> bool" where
  "is_space c \<longleftrightarrow> (of_char c :: nat) = 32 \<or> (9 \<le> (of_char c :: nat) \<and> (of_char c :: nat) \<le> 13)"

definition stoi :: "string \<Rightarrow> exn + int" where
  "stoi s =
     (let t = dropWhile is_space s;
          neg = (t \<noteq> [] \<and> hd t = CHR ''-'');
          u = (if t \<noteq> [] \<and> (hd t = CHR ''-'' \<or> hd t = CHR ''+'') then tl t else t);
          ds = takeWhile is_digit u;
          v = (if neg then - int (digits_val 0 ds) else int (digits_val 0 ds))
      in if ds = [] then Inl InvalidArgument
         else if int32_range v then Inr v
         else Inl OutOfRange)"

lemma of_char_digit_char [simp]: "d < 10 \<Longrightarrow> (of_char (digit_char d) :: nat) = 48 + d"
  by (simp add: digit_char_def)

lemma is_digit_digit_char [simp]: "d < 10 \<Longrightarrow> is_digit (digit_char d)"
  by (simp add: is_digit_def)

lemma digit_val_digit_char [simp]: "d < 10 \<Longrightarrow> digit_val (digit_char d) = d"
  by (simp add: digit_val_def)

lemma nat_to_string_digits: "\<forall>c \<in> set (nat_to_string n). is_digit c"
proof (induction n rule: nat_to_string.induct)
  case (1 n)
  then show ?case by (cases "n < 10") (auto simp: nat_to_string.simps [of n])
qed

lemma nat_to_string_nonempty [simp]: "nat_to_string n \<noteq> []"
  by (subst nat_to_string.simps) simp

lemma digits_val_append: "digits_val acc (xs @ ys) = digits_val (digits_val acc xs) ys"
  by (induction xs arbitrary: acc) auto

lemma digits_val_nat_to_string [simp]: "digits_val 0 (nat_to_string n) = n"
proof (induction n rule: nat_to_string.induct)
  case (1 n)
  then show ?case
    by (cases "n < 10") (auto simp: nat_to_string.simps [of n] digits_val_append)
qed

lemma digit_not_special:
  assumes "is_digit c"
  shows "c \<noteq> CHR ''-''" and "c \<noteq> CHR ''+''" and "\<not> is_space c" and "c \<noteq> CHR ''/''"
  using assms by (auto simp: is_digit_def is_space_def)

lemma takeWhile_nat_to_string [simp]: "takeWhile is_digit (nat_to_string n) = nat_to_string n"
  using nat_to_string_digits by (simp add: takeWhile_eq_all_conv)

lemma nat_to_string_head:
  obtains c cs where "nat_to_string n = c # cs" and "is_digit c"
  using nat_to_string_digits [of n] by (cases "nat_to_string n") auto

lemma stoi_to_string: "int32_range i \<Longrightarrow> stoi (to_string i) = Inr i"
proof (cases "i < 0")
  case True
  assume "int32_range i"
  moreover have "\<not> is_space CHR ''-''" by (simp add: is_space_def)
  ultimately show ?thesis using True
    by (simp add: to_string_def stoi_def Let_def)
next
  case False
  assume r: "int32_range i"
  obtain c cs where c: "nat_to_string (nat i) = c # cs" "is_digit c"
    by (rule nat_to_string_head)
  have d: "dropWhile is_space (nat_to_string (nat i)) = nat_to_string (nat i)"
    and h: "hd (nat_to_string (nat i)) \<noteq> CHR ''-''" "hd (nat_to_string (nat i)) \<noteq> CHR ''+''"
    using c digit_not_special [of c] by simp_all
  show ?thesis
    using False r h by (simp add: to_string_def stoi_def Let_def d)
qed

lemma nat_to_string_inject [simp]: "nat_to_string m = nat_to_string n \<longleftrightarrow> m = n"
  by (metis digits_val_nat_to_string)

section \<open>Strings\<close>

text \<open>\<open>find(pat, pos)\<close>: the first index from \<open>pos\<close> on where \<open>pat\<close> starts, or \<open>npos\<close>.\<close>

definition starts_at :: "string \<Rightarrow> string \<Rightarrow> nat \<Rightarrow> bool" where
  "starts_at pat s i \<longleftrightarrow> take (length pat) (drop i s) = pat"

definition str_find :: "string \<Rightarrow> string \<Rightarrow> nat \<Rightarrow> nat option" where
  "str_find s pat pos = List.find (starts_at pat s) [pos..<length s + 1]"

abbreviation (input) npos :: nat where "npos \<equiv> 18446744073709551615"

text \<open>\<open>substr(pos, count)\<close> takes a position and a length; a position past the end throws.\<close>

definition substr :: "string \<Rightarrow> nat \<Rightarrow> nat \<Rightarrow> exn + string" where
  "substr s pos count = (if length s < pos then Inl OutOfRange else Inr (take count (drop pos s)))"

text \<open>\<open>insert(pos, t)\<close>.\<close>

definition str_insert :: "string \<Rightarrow> nat \<Rightarrow> string \<Rightarrow> exn + string" where
  "str_insert s pos t = (if length s < pos then Inl OutOfRange else Inr (take pos s @ t @ drop pos s))"

definition to_lower :: "char \<Rightarrow> char" where
  "to_lower c =
     (if 65 \<le> (of_char c :: nat) \<and> (of_char c :: nat) \<le> 90 then char_of ((of_char c :: nat) + 32) else c)"

definition strcaseeq :: "string \<Rightarrow> string \<Rightarrow> bool" where
  "strcaseeq s t \<longleftrightarrow> map to_lower s = map to_lower t"

lemma str_find_None:
  assumes "p \<notin> set (drop pos s)"
  shows "str_find s [p] pos = None"
proof -
  have "\<not> starts_at [p] s i" if "pos \<le> i" for i
  proof
    assume "starts_at [p] s i"
    then have t: "take 1 (drop i s) = [p]" by (simp add: starts_at_def)
    then have "p \<in> set (take 1 (drop i s))" by simp
    then have "p \<in> set (drop i s)" by (rule in_set_takeD)
    moreover have "set (drop i s) \<subseteq> set (drop pos s)" using that by (rule set_drop_subset_set_drop)
    ultimately show False using assms by blast
  qed
  then show ?thesis by (auto simp: str_find_def find_None_iff)
qed

section \<open>The bytes of a 32-bit integer\<close>

text \<open>The supported targets are little endian.\<close>

definition int32_bytes :: "32 word \<Rightarrow> byte list" where
  "int32_bytes w = [ucast w, ucast (drop_bit 8 w), ucast (drop_bit 16 w), ucast (drop_bit 24 w)]"

fun bytes_int32 :: "byte list \<Rightarrow> 32 word" where
  "bytes_int32 (a # b # c # d # _) =
     ucast a OR push_bit 8 (ucast b) OR push_bit 16 (ucast c) OR push_bit 24 (ucast d)"
| "bytes_int32 _ = 0"

lemma length_int32_bytes [simp]: "length (int32_bytes w) = 4"
  by (simp add: int32_bytes_def)

lemma bytes_int32_int32_bytes [simp]: "bytes_int32 (int32_bytes w @ r) = w"
proof (rule bit_word_eqI)
  fix n assume n: "n < LENGTH(32)"
  consider "n < 8" | "8 \<le> n" "n < 16" | "16 \<le> n" "n < 24" | "24 \<le> n" by linarith
  then show "bit (bytes_int32 (int32_bytes w @ r)) n = bit w n"
    using n by cases (auto simp: int32_bytes_def bit_simps)
qed

end
