(* ===== verification/Aitt_Types.thy ===== *)
theory Aitt_Types
  imports Aitt_Std
begin

text \<open>
  The public data types: the enumerations of \<open>include/AittTypes.h\<close>, the message object
  \<open>AittMsg\<close>, the options \<open>AittOption\<close> and the error strings of \<open>AittException\<close>.

  An enumeration the code combines bitwise or casts from an integer keeps its machine
  representation (\<open>AittProtocol\<close> is a 32-bit word, \<open>AittStreamProtocol\<close> and
  \<open>AittStreamState\<close> are \<open>int\<close>); the others are datatypes.  A pointer is a natural
  number, 0 is \<open>nullptr\<close>.
\<close>

type_synonym ptr = nat

abbreviation (input) nullptr :: ptr where "nullptr \<equiv> 0"

section \<open>Enumerations of AittTypes.h\<close>

type_synonym AittSubscribeID = ptr

type_synonym AittProtocol = "32 word"

abbreviation (input) AITT_TYPE_UNKNOWN :: AittProtocol where "AITT_TYPE_UNKNOWN \<equiv> 0"
abbreviation (input) AITT_TYPE_MQTT :: AittProtocol where "AITT_TYPE_MQTT \<equiv> 1"
abbreviation (input) AITT_TYPE_TCP :: AittProtocol where "AITT_TYPE_TCP \<equiv> 2"
abbreviation (input) AITT_TYPE_TCP_SECURE :: AittProtocol where "AITT_TYPE_TCP_SECURE \<equiv> 4"

abbreviation (input) AITT_STREAM_TYPE_WEBRTC :: int where "AITT_STREAM_TYPE_WEBRTC \<equiv> 0"
abbreviation (input) AITT_STREAM_TYPE_RTSP :: int where "AITT_STREAM_TYPE_RTSP \<equiv> 1"
abbreviation (input) AITT_STREAM_TYPE_MAX :: int where "AITT_STREAM_TYPE_MAX \<equiv> 2"

abbreviation (input) AITT_STREAM_STATE_INIT :: int where "AITT_STREAM_STATE_INIT \<equiv> 0"
abbreviation (input) AITT_STREAM_STATE_READY :: int where "AITT_STREAM_STATE_READY \<equiv> 1"
abbreviation (input) AITT_STREAM_STATE_PLAYING :: int where "AITT_STREAM_STATE_PLAYING \<equiv> 2"
abbreviation (input) AITT_STREAM_STATE_UNDERFLOW :: int where "AITT_STREAM_STATE_UNDERFLOW \<equiv> 3"
abbreviation (input) AITT_STREAM_STATE_OVERFLOW :: int where "AITT_STREAM_STATE_OVERFLOW \<equiv> 4"

datatype AittStreamRole = AITT_STREAM_ROLE_PUBLISHER | AITT_STREAM_ROLE_SUBSCRIBER

abbreviation (input) AITT_QOS_AT_MOST_ONCE :: int where "AITT_QOS_AT_MOST_ONCE \<equiv> 0"
abbreviation (input) AITT_QOS_AT_LEAST_ONCE :: int where "AITT_QOS_AT_LEAST_ONCE \<equiv> 1"
abbreviation (input) AITT_QOS_EXACTLY_ONCE :: int where "AITT_QOS_EXACTLY_ONCE \<equiv> 2"

abbreviation (input) AITT_DISCONNECTED :: int where "AITT_DISCONNECTED \<equiv> 0"
abbreviation (input) AITT_CONNECTED :: int where "AITT_CONNECTED \<equiv> 1"
abbreviation (input) AITT_CONNECT_FAILED :: int where "AITT_CONNECT_FAILED \<equiv> 2"

abbreviation (input) AITT_MESSAGE_MAX :: int where "AITT_MESSAGE_MAX \<equiv> 268435455"
abbreviation (input) AITT_PAYLOAD_MAX :: int where "AITT_PAYLOAD_MAX \<equiv> 268435455"

text \<open>Results of a main-loop callback and the event it is called with (\<open>MainLoopIface.h\<close>).\<close>

abbreviation (input) AITT_LOOP_EVENT_REMOVE :: int where "AITT_LOOP_EVENT_REMOVE \<equiv> 0"
abbreviation (input) AITT_LOOP_EVENT_CONTINUE :: int where "AITT_LOOP_EVENT_CONTINUE \<equiv> 1"

datatype loop_event = OKAY | ERROR | REMOVED | HANGUP

text \<open>The codes of a build without Tizen: the \<open>errno\<close> values are those of Linux.\<close>

datatype AittError =
    AITT_ERROR_NONE
  | AITT_ERROR_OUT_OF_MEMORY
  | AITT_ERROR_PERMISSION_DENIED
  | AITT_ERROR_RESOURCE_BUSY
  | AITT_ERROR_INVALID_PARAMETER
  | AITT_ERROR_ALREADY
  | AITT_ERROR_TIMED_OUT
  | AITT_ERROR_NOT_SUPPORTED
  | AITT_ERROR_UNKNOWN
  | AITT_ERROR_SYSTEM
  | AITT_ERROR_NOT_READY

fun error_code :: "AittError \<Rightarrow> int" where
  "error_code AITT_ERROR_NONE = 0"
| "error_code AITT_ERROR_OUT_OF_MEMORY = - 12"
| "error_code AITT_ERROR_PERMISSION_DENIED = - 13"
| "error_code AITT_ERROR_RESOURCE_BUSY = - 16"
| "error_code AITT_ERROR_INVALID_PARAMETER = - 22"
| "error_code AITT_ERROR_ALREADY = - 114"
| "error_code AITT_ERROR_TIMED_OUT = - 1073741824 + 1"
| "error_code AITT_ERROR_NOT_SUPPORTED = - 1073741824 + 2"
| "error_code AITT_ERROR_UNKNOWN = or (- 67239936) 1"
| "error_code AITT_ERROR_SYSTEM = or (- 67239936) 2"
| "error_code AITT_ERROR_NOT_READY = or (- 67239936) 3"

lemma error_code_range: "int32_range (error_code e) \<and> error_code e \<le> 0"
  by (cases e) (simp_all add: int32_range_def)

lemma error_code_inject [simp]: "error_code a = error_code b \<longleftrightarrow> a = b"
  by (cases a; cases b) simp_all

section \<open>AittException\<close>

fun getErrString :: "ErrCode \<Rightarrow> string" where
  "getErrString INVALID_ARG = ''Invalid Argument''"
| "getErrString NO_MEMORY_ERR = ''Memory allocation failure''"
| "getErrString OPERATION_FAILED = ''Operation failure''"
| "getErrString SYSTEM_ERR = ''System failure''"
| "getErrString MQTT_ERR = ''MQTT failure''"
| "getErrString NO_DATA_ERR = ''No data found''"
| "getErrString RESOURCE_BUSY_ERR = ''Resource busy''"
| "getErrString _ = ''Unknown Error''"

record AittExceptionObj =
  err_code :: ErrCode
  err_msg :: string

definition AittException_new :: "ErrCode \<Rightarrow> AittExceptionObj" where
  "AittException_new code = \<lparr>err_code = code, err_msg = getErrString code\<rparr>"

definition AittException_new_msg :: "ErrCode \<Rightarrow> string \<Rightarrow> AittExceptionObj" where
  "AittException_new_msg code msg =
     \<lparr>err_code = code, err_msg = getErrString code @ '' : '' @ msg\<rparr>"

section \<open>AittMsg\<close>

record AittMsg =
  msg_topic :: string
  msg_correlation :: string
  msg_reply_topic :: string
  msg_sequence :: "32 word"
  msg_end_sequence :: bool
  msg_id :: AittSubscribeID
  msg_protocol :: AittProtocol

definition AittMsg_new :: AittMsg where
  "AittMsg_new =
     \<lparr>msg_topic = [], msg_correlation = [], msg_reply_topic = [], msg_sequence = 0, msg_end_sequence = True,
      msg_id = nullptr, msg_protocol = AITT_TYPE_MQTT\<rparr>"

definition SetID :: "AittSubscribeID \<Rightarrow> AittMsg \<Rightarrow> AittMsg" where
  "SetID i m = m\<lparr>msg_id := i\<rparr>"

definition SetTopic :: "string \<Rightarrow> AittMsg \<Rightarrow> AittMsg" where
  "SetTopic t m = m\<lparr>msg_topic := t\<rparr>"

definition SetCorrelation :: "string \<Rightarrow> AittMsg \<Rightarrow> AittMsg" where
  "SetCorrelation c m = m\<lparr>msg_correlation := c\<rparr>"

definition SetResponseTopic :: "string \<Rightarrow> AittMsg \<Rightarrow> AittMsg" where
  "SetResponseTopic t m = m\<lparr>msg_reply_topic := t\<rparr>"

definition SetSequence :: "int \<Rightarrow> AittMsg \<Rightarrow> AittMsg" where
  "SetSequence n m = m\<lparr>msg_sequence := word_of_int n\<rparr>"

definition IncreaseSequence :: "AittMsg \<Rightarrow> AittMsg" where
  "IncreaseSequence m = m\<lparr>msg_sequence := msg_sequence m + 1\<rparr>"

definition GetSequence :: "AittMsg \<Rightarrow> int" where
  "GetSequence m = sint (msg_sequence m)"

definition SetEndSequence :: "bool \<Rightarrow> AittMsg \<Rightarrow> AittMsg" where
  "SetEndSequence b m = m\<lparr>msg_end_sequence := b\<rparr>"

definition SetProtocol :: "AittProtocol \<Rightarrow> AittMsg \<Rightarrow> AittMsg" where
  "SetProtocol p m = m\<lparr>msg_protocol := p\<rparr>"

lemmas AittMsg_defs =
  AittMsg_new_def SetID_def SetTopic_def SetCorrelation_def SetResponseTopic_def SetSequence_def
  IncreaseSequence_def GetSequence_def SetEndSequence_def SetProtocol_def

lemma GetSequence_SetSequence:
  "int32_range n \<Longrightarrow> GetSequence (SetSequence n m) = n"
  by (simp add: AittMsg_defs int32_range_def sint_sbintrunc' signed_take_bit_int_eq_self)

section \<open>AittOption\<close>

record AittOption =
  opt_clean_session :: bool
  opt_use_custom_broker :: bool
  opt_service_id :: string
  opt_location_id :: string
  opt_root_ca :: string
  opt_custom_rw_file :: string

definition AittOption_new :: "bool \<Rightarrow> bool \<Rightarrow> AittOption" where
  "AittOption_new clean_session use_custom_mqtt_broker =
     \<lparr>opt_clean_session = clean_session, opt_use_custom_broker = use_custom_mqtt_broker,
      opt_service_id = [], opt_location_id = [], opt_root_ca = [], opt_custom_rw_file = []\<rparr>"

definition AittOption_default :: AittOption where
  "AittOption_default = AittOption_new False False"

definition SetCleanSession :: "bool \<Rightarrow> AittOption \<Rightarrow> AittOption" where
  "SetCleanSession v opt = opt\<lparr>opt_clean_session := v\<rparr>"

definition SetUseCustomMqttBroker :: "bool \<Rightarrow> AittOption \<Rightarrow> AittOption" where
  "SetUseCustomMqttBroker v opt = opt\<lparr>opt_use_custom_broker := v\<rparr>"

definition SetServiceID :: "string \<Rightarrow> AittOption \<Rightarrow> AittError \<times> AittOption" where
  "SetServiceID i opt =
     (if \<not> opt_use_custom_broker opt then (AITT_ERROR_NOT_SUPPORTED, opt)
      else (AITT_ERROR_NONE, opt\<lparr>opt_service_id := i\<rparr>))"

definition SetLocationID :: "string \<Rightarrow> AittOption \<Rightarrow> AittError \<times> AittOption" where
  "SetLocationID i opt =
     (if \<not> opt_use_custom_broker opt then (AITT_ERROR_NOT_SUPPORTED, opt)
      else (AITT_ERROR_NONE, opt\<lparr>opt_location_id := i\<rparr>))"

definition SetRootCA :: "string \<Rightarrow> AittOption \<Rightarrow> AittError \<times> AittOption" where
  "SetRootCA ca opt =
     (if \<not> opt_use_custom_broker opt then (AITT_ERROR_NOT_SUPPORTED, opt)
      else (AITT_ERROR_NONE, opt\<lparr>opt_root_ca := ca\<rparr>))"

definition SetCustomRWFile :: "string \<Rightarrow> AittOption \<Rightarrow> AittError \<times> AittOption" where
  "SetCustomRWFile f opt =
     (if \<not> opt_use_custom_broker opt then (AITT_ERROR_NOT_SUPPORTED, opt)
      else (AITT_ERROR_NONE, opt\<lparr>opt_custom_rw_file := f\<rparr>))"

lemmas AittOption_defs =
  AittOption_new_def AittOption_default_def SetCleanSession_def SetUseCustomMqttBroker_def
  SetServiceID_def SetLocationID_def SetRootCA_def SetCustomRWFile_def

end
