(* ===== verification/MosquittoMQ_Model.thy ===== *)
theory MosquittoMQ_Model
  imports Aitt_Types
begin

text \<open>
  The MQTT client \<open>src/MosquittoMQ.cc\<close>: the subscriber vector, its re-entrant iteration
  while a message is delivered, the publish operations with their MQTT 5 properties, and the
  connection callback.

  The C library libmosquitto is a parameter (\<open>mq_env\<close>): the return code of each call may
  depend on all the mq_calls before it, the topic matcher and the readers of a received
  property list are functions, and so is the point at which a \<open>std::vector\<close> moves its
  storage.  Every library call is recorded in the field \<open>mq_calls\<close>.
\<close>

section \<open>The library libmosquitto\<close>

datatype mprop =
    ResponseTopic string
  | CorrelationData string
  | UserProperty string string

datatype mcall =
    M_lib_init
  | M_new string bool
  | M_int_option_v5
  | M_message_v5_callback_set
  | M_connect_v5_callback_set
  | M_disconnect_v5_callback_set
  | M_destroy
  | M_lib_cleanup
  | M_username_pw_set string string
  | M_connect string int int
  | M_loop_start
  | M_will_set string "byte list" int bool
  | M_disconnect
  | M_will_clear
  | M_loop_stop bool
  | M_publish string "byte list" int bool
  | M_property_add mprop
  | M_publish_v5 string "byte list" int bool "mprop list"
  | M_property_free_all
  | M_subscribe string int
  | M_unsubscribe string

abbreviation (input) MOSQ_ERR_SUCCESS :: int where "MOSQ_ERR_SUCCESS \<equiv> 0"
abbreviation (input) CONNACK_ACCEPTED :: int where "CONNACK_ACCEPTED \<equiv> 0"

section \<open>State\<close>

record SubscribeData =
  sd_topic :: string
  sd_cb :: nat
  sd_user_data :: ptr

datatype mq_event = Delivered ptr AittMsg "byte list" ptr

record MosquittoMQ =
  mq_handle :: int
  keep_alive :: int
  subscribers :: "(ptr \<times> SubscribeData) list"
  subscribers_iterating :: bool
  new_subscribers :: "(ptr \<times> SubscribeData) list"
  subscriber_iterator :: "nat option"
  subscriber_iterator_updated :: bool
  mq_connect_cb :: "nat option"
  mq_next_ptr :: ptr
  mq_calls :: "mcall list"
  mq_events :: "mq_event list"

text \<open>What a subscriber's callback may do to the client that mq_calls it.\<close>

datatype cb_op =
    CbSubscribe string nat ptr int
  | CbUnsubscribe ptr

record mq_env =
  env_rc :: "mcall list \<Rightarrow> mcall \<Rightarrow> int"
  env_matches :: "string \<Rightarrow> string \<Rightarrow> int \<times> bool"
  env_read_response_topic :: "mprop list \<Rightarrow> string option"
  env_read_correlation :: "mprop list \<Rightarrow> string option"
  env_read_user_pairs :: "mprop list \<Rightarrow> (string \<times> string) list"
  env_vector_moves :: "nat \<Rightarrow> nat \<Rightarrow> bool"
  env_cb :: "ptr \<Rightarrow> SubscribeData \<Rightarrow> AittMsg \<Rightarrow> cb_op list"

definition call :: "mq_env \<Rightarrow> mcall \<Rightarrow> (MosquittoMQ, int) act" where
  "call E c = (\<lambda>s. (Inr (env_rc E (mq_calls s) c), s\<lparr>mq_calls := mq_calls s @ [c]\<rparr>))"

lemma call_run [act_simps]: "call E c s = (Inr (env_rc E (mq_calls s) c), s\<lparr>mq_calls := mq_calls s @ [c]\<rparr>)"
  by (simp add: call_def)

text \<open>A call whose failure the code turns into \<open>AittException::MQTT_ERR\<close>.\<close>

definition call_or_throw :: "mq_env \<Rightarrow> mcall \<Rightarrow> (MosquittoMQ, unit) act" where
  "call_or_throw E c =
     bnd (call E c) (\<lambda>r. if r \<noteq> MOSQ_ERR_SUCCESS then raise (AittException MQTT_ERR) else ret ())"

lemma call_or_throw_run [act_simps]:
  "call_or_throw E c s =
     ((if env_rc E (mq_calls s) c \<noteq> 0 then Inl (AittException MQTT_ERR) else Inr ()),
      s\<lparr>mq_calls := mq_calls s @ [c]\<rparr>)"
  by (simp add: call_or_throw_def act_simps)

section \<open>Construction and destruction\<close>

definition MosquittoMQ_init :: MosquittoMQ where
  "MosquittoMQ_init =
     \<lparr>mq_handle = 0, keep_alive = 60, subscribers = [], subscribers_iterating = False,
      new_subscribers = [], subscriber_iterator = None, subscriber_iterator_updated = False,
      mq_connect_cb = None, mq_next_ptr = 1, mq_calls = [], mq_events = []\<rparr>"

definition MosquittoMQ_fail :: "mq_env \<Rightarrow> (MosquittoMQ, unit) act" where
  "MosquittoMQ_fail E =
     sq (call E M_destroy) (sq (call E M_lib_cleanup) (raise (AittException MQTT_ERR)))"

definition MosquittoMQ_ctor :: "mq_env \<Rightarrow> string \<Rightarrow> bool \<Rightarrow> (MosquittoMQ, unit) act" where
  "MosquittoMQ_ctor E ident clean_session =
     bnd (call E M_lib_init) (\<lambda>r.
     if r \<noteq> MOSQ_ERR_SUCCESS then MosquittoMQ_fail E
     else bnd (call E (M_new ident clean_session)) (\<lambda>h.
     sq (upd (\<lambda>s. s\<lparr>mq_handle := h\<rparr>))
     (if h = 0 then MosquittoMQ_fail E
      else bnd (call E M_int_option_v5) (\<lambda>r2.
      if r2 \<noteq> MOSQ_ERR_SUCCESS then MosquittoMQ_fail E
      else sq (call E M_message_v5_callback_set)
          (sq (call E M_connect_v5_callback_set)
          (sq (call E M_disconnect_v5_callback_set) (ret ())))))))"

definition MosquittoMQ_dtor :: "mq_env \<Rightarrow> (MosquittoMQ, unit) act" where
  "MosquittoMQ_dtor E =
     sq (upd (\<lambda>s. s\<lparr>mq_connect_cb := None, subscribers := []\<rparr>))
     (sq (call E M_destroy) (sq (call E M_lib_cleanup) (ret ())))"

section \<open>Connection\<close>

definition mq_SetConnectionCallback :: "nat option \<Rightarrow> (MosquittoMQ, unit) act" where
  "mq_SetConnectionCallback cb = upd (\<lambda>s. s\<lparr>mq_connect_cb := cb\<rparr>)"

text \<open>The callback to run and the status it gets, or nothing when none is set.\<close>

definition ConnectCallback :: "int \<Rightarrow> MosquittoMQ \<Rightarrow> (nat \<times> int) option" where
  "ConnectCallback rc s =
     map_option (\<lambda>cb. (cb, if rc = CONNACK_ACCEPTED then AITT_CONNECTED else AITT_CONNECT_FAILED))
       (mq_connect_cb s)"

definition DisconnectCallback :: "int \<Rightarrow> MosquittoMQ \<Rightarrow> (nat \<times> int) option" where
  "DisconnectCallback rc s = map_option (\<lambda>cb. (cb, AITT_DISCONNECTED)) (mq_connect_cb s)"

definition mq_Connect :: "mq_env \<Rightarrow> string \<Rightarrow> int \<Rightarrow> string \<Rightarrow> string \<Rightarrow> (MosquittoMQ, unit) act" where
  "mq_Connect E host port username password =
     sq (whenA (username \<noteq> []) (call_or_throw E (M_username_pw_set username password)))
     (bnd (rd keep_alive) (\<lambda>ka.
      sq (call_or_throw E (M_connect host port ka))
         (call_or_throw E M_loop_start)))"

definition mq_SetWillInfo ::
  "mq_env \<Rightarrow> string \<Rightarrow> byte list \<Rightarrow> int \<Rightarrow> bool \<Rightarrow> (MosquittoMQ, unit) act" where
  "mq_SetWillInfo E topic msg qos retain = call_or_throw E (M_will_set topic msg qos retain)"

definition mq_Disconnect :: "mq_env \<Rightarrow> (MosquittoMQ, unit) act" where
  "mq_Disconnect E =
     bnd (call E M_disconnect) (\<lambda>r.
     sq (whenA (r = MOSQ_ERR_SUCCESS) (sq (call E M_will_clear) (ret ())))
        (sq (call E (M_loop_stop False)) (ret ())))"

section \<open>Publishing\<close>

definition mq_Publish ::
  "mq_env \<Rightarrow> string \<Rightarrow> byte list \<Rightarrow> int \<Rightarrow> bool \<Rightarrow> (MosquittoMQ, unit) act" where
  "mq_Publish E topic data qos retain = call_or_throw E (M_publish topic data qos retain)"

text \<open>The length of binary data is a \<open>uint16_t\<close>: the size of the string is cut to 16 bits.\<close>

definition correlation_prop :: "string \<Rightarrow> mprop" where
  "correlation_prop c = CorrelationData (take (length c mod 65536) c)"

definition mq_PublishWithReply ::
  "mq_env \<Rightarrow> string \<Rightarrow> byte list \<Rightarrow> int \<Rightarrow> bool \<Rightarrow> string \<Rightarrow> string \<Rightarrow> (MosquittoMQ, unit) act" where
  "mq_PublishWithReply E topic data qos retain reply_topic correlation =
     sq (call_or_throw E (M_property_add (ResponseTopic reply_topic)))
     (sq (call_or_throw E (M_property_add (correlation_prop correlation)))
     (sq (call_or_throw E (M_publish_v5 topic data qos retain
            [ResponseTopic reply_topic, correlation_prop correlation]))
     (sq (call E M_property_free_all) (ret ()))))"

definition REPLY_SEQUENCE_NUM_KEY :: string where
  "REPLY_SEQUENCE_NUM_KEY = ''sequenceNum''"

definition REPLY_IS_END_SEQUENCE_KEY :: string where
  "REPLY_IS_END_SEQUENCE_KEY = ''isEndSequence''"

definition reply_props :: "AittMsg \<Rightarrow> mprop list" where
  "reply_props msg =
     [correlation_prop (msg_correlation msg),
      UserProperty REPLY_SEQUENCE_NUM_KEY (to_string (GetSequence msg)),
      UserProperty REPLY_IS_END_SEQUENCE_KEY (to_string (if msg_end_sequence msg then 1 else 0))]"

definition mq_SendReply ::
  "mq_env \<Rightarrow> AittMsg \<Rightarrow> byte list \<Rightarrow> int \<Rightarrow> bool \<Rightarrow> (MosquittoMQ, unit) act" where
  "mq_SendReply E msg data qos retain =
     sq (forA (reply_props msg) (\<lambda>p. call_or_throw E (M_property_add p)))
     (sq (call_or_throw E (M_publish_v5 (msg_reply_topic msg) data qos retain (reply_props msg)))
     (sq (call E M_property_free_all) (ret ())))"

section \<open>Subscribing\<close>

text \<open>
  \<open>push_back\<close> may move the vector's storage; an iterator into the old storage then equals
  no iterator of the vector.
\<close>

definition mq_Subscribe ::
  "mq_env \<Rightarrow> string \<Rightarrow> nat \<Rightarrow> ptr \<Rightarrow> int \<Rightarrow> (MosquittoMQ, ptr) act" where
  "mq_Subscribe E topic cb user_data qos =
     sq (call_or_throw E (M_subscribe topic qos))
     (\<lambda>s. let data = mq_next_ptr s;
              entry = (data, \<lparr>sd_topic = topic, sd_cb = cb, sd_user_data = user_data\<rparr>);
              n = length (subscribers s)
          in (Inr data,
              if subscribers_iterating s
              then s\<lparr>mq_next_ptr := data + 1, new_subscribers := new_subscribers s @ [entry]\<rparr>
              else s\<lparr>mq_next_ptr := data + 1, subscribers := subscribers s @ [entry],
                     subscriber_iterator :=
                       (if env_vector_moves E n (n + 1) then None else subscriber_iterator s)\<rparr>))"

definition mq_Unsubscribe :: "mq_env \<Rightarrow> ptr \<Rightarrow> (MosquittoMQ, ptr) act" where
  "mq_Unsubscribe E sub_handle =
     (if sub_handle = nullptr then ret nullptr
      else (\<lambda>s. case index_of sub_handle (map fst (subscribers s)) of
          None \<Rightarrow> (Inl (AittException NO_DATA_ERR), s)
        | Some i \<Rightarrow>
            (let data = snd (subscribers s ! i);
                 t = s\<lparr>subscribers := erase_at i (subscribers s),
                       subscriber_iterator_updated :=
                         (subscriber_iterator s = Some i \<or> subscriber_iterator_updated s)\<rparr>
             in sq (call_or_throw E (M_unsubscribe (sd_topic data))) (ret (sd_user_data data)) t)))"

definition CompareTopic :: "mq_env \<Rightarrow> string \<Rightarrow> string \<Rightarrow> bool" where
  "CompareTopic E left right =
     (case env_matches E left right of
        (r, result) \<Rightarrow> if r \<noteq> MOSQ_ERR_SUCCESS then False else result)"

section \<open>Delivering a message\<close>

fun read_user_props :: "(string \<times> string) list \<Rightarrow> AittMsg \<Rightarrow> exn + AittMsg" where
  "read_user_props [] m = Inr m"
| "read_user_props ((name, val) # ps) m =
     (if name = REPLY_SEQUENCE_NUM_KEY then
        (case stoi val of Inl e \<Rightarrow> Inl e | Inr n \<Rightarrow> read_user_props ps (SetSequence n m))
      else if name = REPLY_IS_END_SEQUENCE_KEY then
        (case stoi val of Inl e \<Rightarrow> Inl e | Inr n \<Rightarrow> read_user_props ps (SetEndSequence (n = 1) m))
      else read_user_props ps m)"

definition read_msg :: "mq_env \<Rightarrow> string \<Rightarrow> mprop list option \<Rightarrow> exn + AittMsg" where
  "read_msg E topic props =
     (let m = SetTopic topic AittMsg_new in
      case props of
        None \<Rightarrow> Inr m
      | Some ps \<Rightarrow>
          (let m1 = (case env_read_response_topic E ps of
                       None \<Rightarrow> m | Some t \<Rightarrow> SetResponseTopic t m);
               m2 = SetCorrelation (case env_read_correlation E ps of None \<Rightarrow> [] | Some c \<Rightarrow> c) m1
           in read_user_props (env_read_user_pairs E ps) m2))"

text \<open>An exception of a call the callback makes is handled in the callback.\<close>

fun run_cb_op :: "mq_env \<Rightarrow> cb_op \<Rightarrow> (MosquittoMQ, unit) act" where
  "run_cb_op E (CbSubscribe topic cb user_data qos) =
     tryA (sq (mq_Subscribe E topic cb user_data qos) (ret ())) (\<lambda>_. ret ())"
| "run_cb_op E (CbUnsubscribe h) = tryA (sq (mq_Unsubscribe E h) (ret ())) (\<lambda>_. ret ())"

definition InvokeCallback ::
  "mq_env \<Rightarrow> ptr \<times> SubscribeData \<Rightarrow> string \<Rightarrow> byte list \<Rightarrow> mprop list option \<Rightarrow>
   (MosquittoMQ, unit) act" where
  "InvokeCallback E sub topic payload props =
     (case read_msg E topic props of
        Inl e \<Rightarrow> raise e
      | Inr m \<Rightarrow>
          sq (upd (\<lambda>s. s\<lparr>mq_events := mq_events s @ [Delivered (fst sub) m payload (sd_user_data (snd sub))]\<rparr>))
             (forA (env_cb E (fst sub) (snd sub) m) (run_cb_op E)))"

text \<open>
  One pass of the loop of \<open>MessageCB\<close>; the iterator is an index.  The loop runs until the
  iterator equals \<open>end()\<close>: an iterator past it is dereferenced.
\<close>

definition deliver_one ::
  "mq_env \<Rightarrow> string \<Rightarrow> byte list \<Rightarrow> mprop list option \<Rightarrow> nat \<Rightarrow> (MosquittoMQ, unit) act" where
  "deliver_one E topic payload props i =
     sq (\<lambda>s. (let sub = subscribers s ! i in
              whenA (CompareTopic E (sd_topic (snd sub)) topic)
                (InvokeCallback E sub topic payload props)) s)
        (upd (\<lambda>s. if \<not> subscriber_iterator_updated s
                  then s\<lparr>subscriber_iterator := map_option Suc (subscriber_iterator s)\<rparr>
                  else s\<lparr>subscriber_iterator_updated := False\<rparr>))"

partial_function (option) message_loop ::
  "mq_env \<Rightarrow> string \<Rightarrow> byte list \<Rightarrow> mprop list option \<Rightarrow> MosquittoMQ \<Rightarrow>
   ((exn + unit) \<times> MosquittoMQ) option" where
  "message_loop E topic payload props s =
     (case subscriber_iterator s of
        None \<Rightarrow> Some (Inl (UndefinedBehaviour ''dangling iterator''), s)
      | Some i \<Rightarrow>
          if i = length (subscribers s) then Some (Inr (), s)
          else if length (subscribers s) < i
          then Some (Inl (UndefinedBehaviour ''iterator past the end''), s)
          else (case deliver_one E topic payload props i s of
                  (Inl e, t) \<Rightarrow> Some (Inl e, t)
                | (Inr u, t) \<Rightarrow> message_loop E topic payload props t))"

declare message_loop.simps [code]

definition MessageCB ::
  "mq_env \<Rightarrow> string \<Rightarrow> byte list \<Rightarrow> mprop list option \<Rightarrow> MosquittoMQ \<Rightarrow>
   ((exn + unit) \<times> MosquittoMQ) option" where
  "MessageCB E topic payload props s =
     (case message_loop E topic payload props
             (s\<lparr>subscribers_iterating := True, subscriber_iterator := Some 0\<rparr>) of
        None \<Rightarrow> None
      | Some (Inl e, t) \<Rightarrow> Some (Inl e, t)
      | Some (Inr u, t) \<Rightarrow>
          (let n = length (subscribers t); k = length (new_subscribers t)
           in Some (Inr (),
                t\<lparr>subscribers_iterating := False,
                  subscribers := subscribers t @ new_subscribers t,
                  subscriber_iterator :=
                    (if k \<noteq> 0 \<and> env_vector_moves E n (n + k) then None else subscriber_iterator t),
                  new_subscribers := []\<rparr>)))"

section \<open>The vectors hold distinct live objects\<close>

definition mq_ptrs :: "MosquittoMQ \<Rightarrow> ptr list" where
  "mq_ptrs s = map fst (subscribers s) @ map fst (new_subscribers s)"

definition mq_ok :: "MosquittoMQ \<Rightarrow> bool" where
  "mq_ok s \<longleftrightarrow> distinct (mq_ptrs s) \<and> (\<forall>p \<in> set (mq_ptrs s). 0 < p \<and> p < mq_next_ptr s) \<and> 0 < mq_next_ptr s"

lemmas mq_ok_defs = mq_ok_def mq_ptrs_def

lemma mq_ok_init: "mq_ok MosquittoMQ_init"
  by (simp add: mq_ok_defs MosquittoMQ_init_def)

lemma mq_ok_calls [simp]: "mq_ok (s\<lparr>mq_calls := c\<rparr>) = mq_ok s"
  by (simp add: mq_ok_defs)

lemma mq_ok_events [simp]: "mq_ok (s\<lparr>mq_events := e\<rparr>) = mq_ok s"
  by (simp add: mq_ok_defs)

lemma mq_ok_iter [simp]:
  "mq_ok (s\<lparr>subscriber_iterator := i\<rparr>) = mq_ok s"
  "mq_ok (s\<lparr>subscriber_iterator_updated := b\<rparr>) = mq_ok s"
  "mq_ok (s\<lparr>subscribers_iterating := b\<rparr>) = mq_ok s"
  by (simp_all add: mq_ok_defs)

lemma mq_ok_grow:
  assumes "mq_ok s"
  shows "mq_ok (s\<lparr>mq_next_ptr := mq_next_ptr s + 1, subscribers := subscribers s @ [(mq_next_ptr s, d)]\<rparr>)"
    and "mq_ok (s\<lparr>mq_next_ptr := mq_next_ptr s + 1, new_subscribers := new_subscribers s @ [(mq_next_ptr s, d)]\<rparr>)"
  using assms by (auto simp: mq_ok_defs less_Suc_eq)

lemma preserves_call [preserves_intros]: "preserves mq_ok (call E c)"
  by (simp add: preserves_def act_simps)

lemma preserves_call_or_throw [preserves_intros]: "preserves mq_ok (call_or_throw E c)"
  by (simp add: preserves_def act_simps)

lemma mq_Subscribe_ok [preserves_intros]: "preserves mq_ok (mq_Subscribe E topic cb ud qos)"
proof (rule preservesI)
  fix s assume "mq_ok s"
  then show "mq_ok (snd (mq_Subscribe E topic cb ud qos s))"
    using mq_ok_grow [of "s\<lparr>mq_calls := mq_calls s @ [M_subscribe topic qos]\<rparr>"]
    by (auto simp: mq_Subscribe_def act_simps Let_def mq_ok_defs split: if_splits)
qed

lemma mq_ok_erase:
  assumes "mq_ok s" and "i < length (subscribers s)"
  shows "mq_ok (s\<lparr>subscribers := erase_at i (subscribers s)\<rparr>)"
proof -
  have "set (erase_at i (map fst (subscribers s))) \<subseteq> set (map fst (subscribers s))"
    by (rule set_erase_at)
  with assms show ?thesis
    by (auto simp: mq_ok_defs map_erase_at distinct_erase_at)
qed

lemma mq_Unsubscribe_ok [preserves_intros]: "preserves mq_ok (mq_Unsubscribe E h)"
proof (rule preservesI)
  fix s assume ok: "mq_ok s"
  show "mq_ok (snd (mq_Unsubscribe E h s))"
  proof (cases "index_of h (map fst (subscribers s))")
    case None
    then show ?thesis using ok by (simp add: mq_Unsubscribe_def act_simps)
  next
    case (Some i)
    then have "i < length (subscribers s)" using index_of_Some [OF Some] by simp
    then show ?thesis using ok Some mq_ok_erase [OF ok]
      by (simp add: mq_Unsubscribe_def act_simps Let_def mq_ok_defs)
  qed
qed

lemma run_cb_op_ok [preserves_intros]: "preserves mq_ok (run_cb_op E op)"
  by (cases op) (auto intro!: preserves_intros)

lemma InvokeCallback_ok [preserves_intros]: "preserves mq_ok (InvokeCallback E sub topic payload props)"
  unfolding InvokeCallback_def
  by (auto intro!: preserves_intros split: sum.splits)

lemma deliver_one_ok [preserves_intros]: "preserves mq_ok (deliver_one E topic payload props i)"
  unfolding deliver_one_def
proof (rule preserves_sq)
  show "preserves mq_ok (\<lambda>s. (let sub = subscribers s ! i in
              whenA (CompareTopic E (sd_topic (snd sub)) topic)
                (InvokeCallback E sub topic payload props)) s)"
    using InvokeCallback_ok by (auto simp: preserves_def Let_def act_simps)
  show "preserves mq_ok (upd (\<lambda>s. if \<not> subscriber_iterator_updated s
                  then s\<lparr>subscriber_iterator := map_option Suc (subscriber_iterator s)\<rparr>
                  else s\<lparr>subscriber_iterator_updated := False\<rparr>))"
    by (rule preserves_upd) simp
qed

section \<open>The delivery loop ends\<close>

text \<open>
  While the vector is iterated, a callback's calls leave the iterator alone, never lengthen
  the vector, and mark the iterator as updated only when they shorten it.
\<close>

definition iter_rel :: "MosquittoMQ \<Rightarrow> MosquittoMQ \<Rightarrow> bool" where
  "iter_rel s t \<longleftrightarrow> (subscribers_iterating s \<longrightarrow>
     subscribers_iterating t \<and> subscriber_iterator t = subscriber_iterator s \<and>
     length (subscribers t) \<le> length (subscribers s) \<and>
     (subscriber_iterator_updated t \<longrightarrow>
        subscriber_iterator_updated s \<or> length (subscribers t) < length (subscribers s)))"

lemma iter_rel_refl: "iter_rel s s"
  by (simp add: iter_rel_def)

lemma iter_rel_trans: "iter_rel s t \<Longrightarrow> iter_rel t u \<Longrightarrow> iter_rel s u"
  by (auto simp: iter_rel_def)

lemma Subscribe_iter_rel: "iter_rel s (snd (mq_Subscribe E topic cb ud qos s))"
  by (auto simp: iter_rel_def mq_Subscribe_def act_simps Let_def)

lemma Unsubscribe_iter_rel: "iter_rel s (snd (mq_Unsubscribe E h s))"
proof (cases "index_of h (map fst (subscribers s))")
  case None
  then show ?thesis by (simp add: iter_rel_def mq_Unsubscribe_def act_simps)
next
  case (Some i)
  then have "i < length (subscribers s)" using index_of_Some [OF Some] by simp
  with Some show ?thesis
    by (auto simp: iter_rel_def mq_Unsubscribe_def act_simps Let_def length_erase_at)
qed

lemma tryA_ret_snd: "snd (tryA (sq m (ret ())) (\<lambda>_. ret ()) s) = snd (m s)"
  by (auto simp: act_simps split: prod.splits sum.splits exn.splits)

lemma run_cb_op_iter_rel: "iter_rel s (snd (run_cb_op E op s))"
  by (cases op) (simp_all add: tryA_ret_snd Subscribe_iter_rel Unsubscribe_iter_rel)

lemma forA_cb_iter_rel: "iter_rel s (snd (forA ops (run_cb_op E) s))"
proof (induction ops arbitrary: s)
  case Nil
  then show ?case by (simp add: act_simps iter_rel_refl)
next
  case (Cons op ops)
  have "iter_rel s (snd (run_cb_op E op s))" by (rule run_cb_op_iter_rel)
  with Cons.IH show ?case
    by (auto simp: forA_Cons_run split: prod.splits sum.splits intro: iter_rel_trans)
qed

lemma InvokeCallback_iter_rel: "iter_rel s (snd (InvokeCallback E sub topic payload props s))"
proof -
  have "iter_rel s (s\<lparr>mq_events := ev\<rparr>)" for ev by (simp add: iter_rel_def)
  then show ?thesis
    by (auto simp: InvokeCallback_def act_simps iter_rel_refl intro: iter_rel_trans forA_cb_iter_rel split: sum.splits)
qed

definition loop_measure :: "MosquittoMQ \<Rightarrow> nat" where
  "loop_measure s =
     2 * (length (subscribers s) - the (subscriber_iterator s))
     + (if subscriber_iterator_updated s then 1 else 0)"

lemma deliver_one_decreases:
  assumes "subscribers_iterating s" and "subscriber_iterator s = Some i" and "i < length (subscribers s)"
    and "deliver_one E topic payload props i s = (Inr u, t)"
  shows "subscribers_iterating t \<and> subscriber_iterator t \<noteq> None \<and> loop_measure t < loop_measure s"
proof -
  define m where "m = whenA (CompareTopic E (sd_topic (snd (subscribers s ! i))) topic)
                (InvokeCallback E (subscribers s ! i) topic payload props)"
  have r: "iter_rel s (snd (m s))"
    by (simp add: m_def act_simps iter_rel_refl InvokeCallback_iter_rel)
  from assms(4) obtain v where v: "m s = (Inr v, snd (m s))"
    and t: "t = (if \<not> subscriber_iterator_updated (snd (m s))
                  then (snd (m s))\<lparr>subscriber_iterator := map_option Suc (subscriber_iterator (snd (m s)))\<rparr>
                  else (snd (m s))\<lparr>subscriber_iterator_updated := False\<rparr>)"
    by (auto simp: deliver_one_def act_simps Let_def m_def split: prod.splits sum.splits)
  from r assms(1-3) t show ?thesis
    by (auto simp: iter_rel_def loop_measure_def split: if_splits)
qed

lemma message_loop_returns:
  assumes "subscribers_iterating s" and "subscriber_iterator s \<noteq> None"
  shows "\<exists>r t. message_loop E topic payload props s = Some (r, t)"
  using assms
proof (induction "loop_measure s" arbitrary: s rule: less_induct)
  case less
  then obtain i where i: "subscriber_iterator s = Some i" by auto
  show ?case
  proof (cases "i < length (subscribers s)")
    case True
    show ?thesis
    proof (cases "deliver_one E topic payload props i s")
      case (Pair r t)
      then show ?thesis
      proof (cases r)
        case (Inl e)
        with Pair True i show ?thesis by (subst message_loop.simps) simp
      next
        case (Inr u)
        with Pair less.prems i True
        have "subscribers_iterating t \<and> subscriber_iterator t \<noteq> None \<and> loop_measure t < loop_measure s"
          using deliver_one_decreases by blast
        then have "\<exists>r' t'. message_loop E topic payload props t = Some (r', t')"
          using less.hyps by blast
        with Pair Inr True i show ?thesis by (subst message_loop.simps) simp
      qed
    qed
  next
    case False
    with i show ?thesis by (subst message_loop.simps) auto
  qed
qed

section \<open>Who gets a message\<close>

text \<open>
  A callback that subscribes only adds to the new subscribers, and never touches the events.
\<close>

definition adds_new :: "MosquittoMQ \<Rightarrow> MosquittoMQ \<Rightarrow> bool" where
  "adds_new s t \<longleftrightarrow> mq_next_ptr s \<le> mq_next_ptr t \<and>
     (\<exists>ns. new_subscribers t = new_subscribers s @ ns \<and> (\<forall>q \<in> fst ` set ns. mq_next_ptr s \<le> q))"

lemma adds_new_refl: "adds_new s s"
  by (simp add: adds_new_def)

lemma adds_new_trans: "adds_new s t \<Longrightarrow> adds_new t u \<Longrightarrow> adds_new s u"
  by (fastforce simp: adds_new_def)

definition grows :: "MosquittoMQ \<Rightarrow> MosquittoMQ \<Rightarrow> bool" where
  "grows s t \<longleftrightarrow> mq_events t = mq_events s \<and> adds_new s t"

lemma grows_refl: "grows s s"
  by (simp add: grows_def adds_new_refl)

lemma grows_trans: "grows s t \<Longrightarrow> grows t u \<Longrightarrow> grows s u"
  by (auto simp: grows_def intro: adds_new_trans)

text \<open>
  The state while the callback of the subscriber \<open>(p, sd)\<close> runs; \<open>gone\<close> tells
  whether it has unsubscribed itself.
\<close>

definition in_callback ::
  "(ptr \<times> SubscribeData) list \<Rightarrow> ptr \<times> SubscribeData \<Rightarrow> (ptr \<times> SubscribeData) list \<Rightarrow> bool \<Rightarrow>
   MosquittoMQ \<Rightarrow> bool" where
  "in_callback pre sub post gone s \<longleftrightarrow>
     subscribers_iterating s \<and> subscriber_iterator s = Some (length pre) \<and>
     fst sub \<notin> fst ` set (pre @ post) \<and> fst sub \<noteq> nullptr \<and>
     subscriber_iterator_updated s = gone \<and>
     subscribers s = (if gone then pre @ post else pre @ sub # post)"

lemma in_callback_Subscribe:
  assumes "in_callback pre sub post gone s"
  shows "in_callback pre sub post gone (snd (mq_Subscribe E topic cb ud qos s)) \<and>
         grows s (snd (mq_Subscribe E topic cb ud qos s))"
  using assms by (auto simp: in_callback_def grows_def adds_new_def mq_Subscribe_def act_simps Let_def)

lemma in_callback_Unsubscribe:
  assumes "in_callback pre sub post gone s"
  shows "in_callback pre sub post True (snd (mq_Unsubscribe E (fst sub) s)) \<and>
         grows s (snd (mq_Unsubscribe E (fst sub) s))"
proof (cases gone)
  case True
  with assms have "index_of (fst sub) (map fst (subscribers s)) = None"
    by (auto simp: in_callback_def index_of_None)
  with assms True show ?thesis
    by (simp add: in_callback_def mq_Unsubscribe_def grows_refl)
next
  case False
  have "index_of (fst sub) (map fst pre @ fst sub # map fst post) = Some (length (map fst pre))"
    using assms by (intro index_of_middle) (auto simp: in_callback_def)
  with assms False show ?thesis
    by (auto simp: in_callback_def mq_Unsubscribe_def act_simps Let_def grows_def adds_new_def)
qed

definition self_only :: "mq_env \<Rightarrow> bool" where
  "self_only E \<longleftrightarrow> (\<forall>p sd m h. CbUnsubscribe h \<in> set (env_cb E p sd m) \<longrightarrow> h = p)"

text \<open>No call a callback makes ends in undefined behaviour, so every exception is handled.\<close>

lemma run_cb_op_returns: "fst (run_cb_op E op s) = Inr ()"
proof (cases op)
  case (CbSubscribe topic cb ud qos)
  then show ?thesis by (simp add: act_simps mq_Subscribe_def Let_def)
next
  case (CbUnsubscribe h)
  then show ?thesis by (simp add: act_simps mq_Unsubscribe_def Let_def split: option.split)
qed

lemma callback_ops:
  assumes "in_callback pre sub post gone s" and "\<And>h. CbUnsubscribe h \<in> set ops \<Longrightarrow> h = fst sub"
  shows "\<exists>t. forA ops (run_cb_op E) s = (Inr (), t) \<and> grows s t \<and>
             in_callback pre sub post (gone \<or> CbUnsubscribe (fst sub) \<in> set ops) t"
  using assms
proof (induction ops arbitrary: s gone)
  case Nil
  then show ?case by (simp add: act_simps grows_refl)
next
  case (Cons op ops)
  define g where "g = (gone \<or> CbUnsubscribe (fst sub) = op)"
  obtain u where u: "run_cb_op E op s = (Inr (), u)"
    using run_cb_op_returns [of E op s] by (cases "run_cb_op E op s") simp
  have st: "in_callback pre sub post g u \<and> grows s u"
  proof (cases op)
    case (CbSubscribe topic cb ud qos)
    then have "u = snd (mq_Subscribe E topic cb ud qos s)"
      using u tryA_ret_snd [of "mq_Subscribe E topic cb ud qos" s] by simp
    with CbSubscribe Cons.prems(1) in_callback_Subscribe show ?thesis by (simp add: g_def)
  next
    case (CbUnsubscribe h)
    then have h: "h = fst sub" using Cons.prems(2) by simp
    have "u = snd (mq_Unsubscribe E h s)"
      using u CbUnsubscribe tryA_ret_snd [of "mq_Unsubscribe E h" s] by simp
    with CbUnsubscribe Cons.prems(1) in_callback_Unsubscribe h show ?thesis by (simp add: g_def)
  qed
  with Cons.IH [of g u] Cons.prems(2) obtain t where
    "forA ops (run_cb_op E) u = (Inr (), t)" "grows u t"
    "in_callback pre sub post (g \<or> CbUnsubscribe (fst sub) \<in> set ops) t" by auto
  with u st show ?case by (auto simp: forA_Cons_run g_def intro: grows_trans)
qed

definition wants :: "mq_env \<Rightarrow> string \<Rightarrow> ptr \<times> SubscribeData \<Rightarrow> bool" where
  "wants E topic sub = CompareTopic E (sd_topic (snd sub)) topic"

definition leaves :: "mq_env \<Rightarrow> string \<Rightarrow> AittMsg \<Rightarrow> ptr \<times> SubscribeData \<Rightarrow> bool" where
  "leaves E topic m sub \<longleftrightarrow> wants E topic sub \<and> CbUnsubscribe (fst sub) \<in> set (env_cb E (fst sub) (snd sub) m)"

definition delivery :: "AittMsg \<Rightarrow> byte list \<Rightarrow> ptr \<times> SubscribeData \<Rightarrow> mq_event" where
  "delivery m payload sub = Delivered (fst sub) m payload (sd_user_data (snd sub))"

definition iterating_at ::
  "(ptr \<times> SubscribeData) list \<Rightarrow> (ptr \<times> SubscribeData) list \<Rightarrow> MosquittoMQ \<Rightarrow> bool" where
  "iterating_at pre post s \<longleftrightarrow>
     subscribers_iterating s \<and> subscriber_iterator s = Some (length pre) \<and>
     \<not> subscriber_iterator_updated s \<and> subscribers s = pre @ post \<and>
     distinct (map fst (pre @ post)) \<and> nullptr \<notin> fst ` set (pre @ post)"

lemma deliver_one_self_only:
  assumes "iterating_at pre (sub # post) s" and "self_only E" and "read_msg E topic props = Inr m"
  shows "\<exists>t. deliver_one E topic payload props (length pre) s = (Inr (), t) \<and>
           iterating_at (pre @ (if leaves E topic m sub then [] else [sub])) post t \<and> adds_new s t \<and>
           mq_events t = mq_events s @ (if wants E topic sub then [delivery m payload sub] else [])"
proof (cases "wants E topic sub")
  case False
  with assms(1) show ?thesis
    by (auto simp: deliver_one_def act_simps Let_def iterating_at_def wants_def leaves_def adds_new_def)
next
  case True
  define ev where "ev = mq_events s @ [delivery m payload sub]"
  have "in_callback pre sub post False (s\<lparr>mq_events := ev\<rparr>)"
    using assms(1) by (auto simp: iterating_at_def in_callback_def)
  from callback_ops [OF this, of "env_cb E (fst sub) (snd sub) m" E] assms(2)
  obtain t where t: "forA (env_cb E (fst sub) (snd sub) m) (run_cb_op E) (s\<lparr>mq_events := ev\<rparr>) = (Inr (), t)"
      "grows (s\<lparr>mq_events := ev\<rparr>) t" "in_callback pre sub post (leaves E topic m sub) t"
    using True by (auto simp: self_only_def leaves_def)
  define t' where "t' = (if \<not> subscriber_iterator_updated t
                  then t\<lparr>subscriber_iterator := map_option Suc (subscriber_iterator t)\<rparr>
                  else t\<lparr>subscriber_iterator_updated := False\<rparr>)"
  have "subscribers s ! length pre = sub" using assms(1) by (simp add: iterating_at_def)
  with t(1) True assms(3) have "deliver_one E topic payload props (length pre) s = (Inr (), t')"
    by (simp add: deliver_one_def act_simps Let_def wants_def InvokeCallback_def ev_def delivery_def t'_def)
  moreover have "iterating_at (pre @ (if leaves E topic m sub then [] else [sub])) post t'"
    using t(3) assms(1) by (auto simp: t'_def in_callback_def iterating_at_def)
  moreover have "adds_new s t' \<and> mq_events t' = ev"
    using t(2) by (auto simp: t'_def grows_def adds_new_def)
  ultimately show ?thesis using True by (auto simp: ev_def)
qed

lemma message_loop_step:
  assumes "iterating_at pre (sub # post) s"
    and "deliver_one E topic payload props (length pre) s = (Inr (), t)"
  shows "message_loop E topic payload props s = message_loop E topic payload props t"
  using assms by (subst message_loop.simps) (simp add: iterating_at_def)

lemma message_loop_self_only:
  assumes "iterating_at pre post s" and "self_only E" and "read_msg E topic props = Inr m"
  shows "\<exists>t. message_loop E topic payload props s = Some (Inr (), t) \<and>
           iterating_at (pre @ filter (Not \<circ> leaves E topic m) post) [] t \<and> adds_new s t \<and>
           mq_events t = mq_events s @ map (delivery m payload) (filter (wants E topic) post)"
  using assms(1)
proof (induction post arbitrary: pre s)
  case Nil
  then show ?case by (subst message_loop.simps) (simp add: iterating_at_def adds_new_refl)
next
  case (Cons sub post)
  from deliver_one_self_only [OF Cons.prems assms(2,3), of payload] obtain u where
    u: "deliver_one E topic payload props (length pre) s = (Inr (), u)"
      "iterating_at (pre @ (if leaves E topic m sub then [] else [sub])) post u" "adds_new s u"
      "mq_events u = mq_events s @ (if wants E topic sub then [delivery m payload sub] else [])"
    by blast
  from Cons.IH [OF u(2)] message_loop_step [OF Cons.prems u(1)] u(3,4) show ?case
    by (auto intro: adds_new_trans)
qed

section \<open>The properties of a delivered message\<close>

text \<open>
  What libmosquitto documents of its property lists: a reader returns the first property
  with the identifier it is given, and the pairs are read in the order they were added.
\<close>

fun first_response_topic :: "mprop list \<Rightarrow> string option" where
  "first_response_topic [] = None"
| "first_response_topic (ResponseTopic t # ps) = Some t"
| "first_response_topic (_ # ps) = first_response_topic ps"

fun first_correlation :: "mprop list \<Rightarrow> string option" where
  "first_correlation [] = None"
| "first_correlation (CorrelationData c # ps) = Some c"
| "first_correlation (_ # ps) = first_correlation ps"

fun user_pairs :: "mprop list \<Rightarrow> (string \<times> string) list" where
  "user_pairs [] = []"
| "user_pairs (UserProperty k v # ps) = (k, v) # user_pairs ps"
| "user_pairs (_ # ps) = user_pairs ps"

definition mosq_props_ok :: "mq_env \<Rightarrow> bool" where
  "mosq_props_ok E \<longleftrightarrow>
     env_read_response_topic E = first_response_topic \<and>
     env_read_correlation E = first_correlation \<and>
     env_read_user_pairs E = user_pairs"

lemma correlation_prop_short: "length c < 65536 \<Longrightarrow> correlation_prop c = CorrelationData c"
  by (simp add: correlation_prop_def)

lemma reply_keys_differ [simp]:
  "REPLY_IS_END_SEQUENCE_KEY \<noteq> REPLY_SEQUENCE_NUM_KEY" "REPLY_SEQUENCE_NUM_KEY \<noteq> REPLY_IS_END_SEQUENCE_KEY"
  by (simp_all add: REPLY_IS_END_SEQUENCE_KEY_def REPLY_SEQUENCE_NUM_KEY_def)

lemma read_reply_props:
  assumes "mosq_props_ok E" and "length (msg_correlation msg) < 65536"
  shows "read_msg E topic (Some (reply_props msg)) =
           Inr (SetEndSequence (msg_end_sequence msg) (SetSequence (GetSequence msg)
                 (SetCorrelation (msg_correlation msg) (SetTopic topic AittMsg_new))))"
  using assms stoi_to_string [of 0] stoi_to_string [of 1]
  by (simp add: read_msg_def reply_props_def mosq_props_ok_def correlation_prop_short Let_def
      stoi_to_string [OF sint32_range] GetSequence_def int32_range_def)

section \<open>The client as a table of subscriptions\<close>

definition mq_idle :: "MosquittoMQ \<Rightarrow> bool" where
  "mq_idle s \<longleftrightarrow> mq_ok s \<and> \<not> subscribers_iterating s \<and> new_subscribers s = []"

definition mq_table :: "MosquittoMQ \<Rightarrow> ptr \<Rightarrow> SubscribeData option" where
  "mq_table s = map_of (subscribers s)"

definition mq_add :: "mq_env \<Rightarrow> int \<Rightarrow> SubscribeData \<Rightarrow> (MosquittoMQ, ptr) act" where
  "mq_add E qos d = mq_Subscribe E (sd_topic d) (sd_cb d) (sd_user_data d) qos"

lemma mq_idle_distinct: "mq_idle s \<Longrightarrow> distinct (map fst (subscribers s))"
  by (simp add: mq_idle_def mq_ok_defs)

lemma mq_add_law:
  assumes "mq_idle s" and "mq_add E qos d s = (Inr h, t)"
  shows "mq_idle t \<and> h \<noteq> 0 \<and> mq_table s h = None \<and> mq_table t = (mq_table s)(h \<mapsto> d)"
proof -
  have "mq_ok t"
    using preservesD [OF mq_Subscribe_ok, of s E "sd_topic d" "sd_cb d" "sd_user_data d" qos] assms
    by (simp add: mq_add_def mq_idle_def)
  moreover have fresh: "mq_next_ptr s \<notin> fst ` set (subscribers s)" "mq_next_ptr s \<noteq> 0"
    using assms(1) by (auto simp: mq_idle_def mq_ok_defs)
  ultimately show ?thesis using assms
    by (cases d) (auto simp: mq_add_def mq_idle_def mq_Subscribe_def act_simps Let_def mq_table_def
        map_add_fresh map_of_eq_None_iff split: if_splits)
qed

lemma mq_del_law:
  assumes "mq_idle s" and "mq_table s h = Some d" and "mq_Unsubscribe E h s = (r, t)"
  shows "mq_idle t \<and> mq_table t = (mq_table s)(h := None) \<and> (\<forall>x. r = Inr x \<longrightarrow> x = sd_user_data d)"
proof -
  from map_of_index [OF assms(2) [unfolded mq_table_def] mq_idle_distinct [OF assms(1)]] obtain i where
    i: "index_of h (map fst (subscribers s)) = Some i" "i < length (subscribers s)" "subscribers s ! i = (h, d)"
    by blast
  have h: "h \<noteq> nullptr"
    using assms(1) nth_mem [OF i(2)] i(3) by (force simp: mq_idle_def mq_ok_defs)
  have "mq_ok t"
    using preservesD [OF mq_Unsubscribe_ok, of s E h] assms(1,3) by (simp add: mq_idle_def)
  moreover have "mq_table t = (mq_table s)(h := None)"
    using assms(3) i h map_of_erase_at [OF mq_idle_distinct [OF assms(1)] i(2)]
    by (auto simp: mq_Unsubscribe_def act_simps Let_def mq_table_def split: if_splits)
  ultimately show ?thesis
    using assms(1,3) i h by (auto simp: mq_Unsubscribe_def act_simps Let_def mq_idle_def split: if_splits)
qed

interpretation mq_handles: handle_table mq_idle mq_table "mq_add E qos" "mq_Unsubscribe E" sd_user_data
  for E qos
proof
  show "mq_idle t \<and> mq_table t = mq_table s" if "mq_idle s" "mq_add E qos d s = (Inl e, t)" for s d e t
    using that
    by (auto simp: mq_add_def mq_idle_def mq_Subscribe_def act_simps Let_def mq_table_def split: if_splits)
  show "mq_idle t \<and> mq_table t = mq_table s"
    if "mq_idle s" "h \<noteq> 0" "mq_table s h = None" "mq_Unsubscribe E h s = (r, t)" for s h r t
  proof -
    have "index_of h (map fst (subscribers s)) = None"
      using that(3) by (simp add: mq_table_def index_of_None map_of_eq_None_iff)
    with that show ?thesis by (simp add: mq_Unsubscribe_def)
  qed
qed (fact mq_add_law mq_del_law)+

section \<open>Concrete runs\<close>

text \<open>
  A broker that accepts every call and matches equal topics, a message library that reads back
  what was added, and storage that never moves.
\<close>

definition plain_env :: "(ptr \<Rightarrow> SubscribeData \<Rightarrow> AittMsg \<Rightarrow> cb_op list) \<Rightarrow> mq_env" where
  "plain_env cb =
     \<lparr>env_rc = (\<lambda>_ _. 0), env_matches = (\<lambda>l r. (0, l = r)),
      env_read_response_topic = first_response_topic, env_read_correlation = first_correlation,
      env_read_user_pairs = user_pairs, env_vector_moves = (\<lambda>_ _. False), env_cb = cb\<rparr>"

definition sub_entry :: "ptr \<Rightarrow> string \<Rightarrow> ptr \<times> SubscribeData" where
  "sub_entry p topic = (p, \<lparr>sd_topic = topic, sd_cb = p, sd_user_data = 10 * p\<rparr>)"

definition with_subscribers :: "(ptr \<times> SubscribeData) list \<Rightarrow> MosquittoMQ" where
  "with_subscribers xs = MosquittoMQ_init\<lparr>subscribers := xs, mq_next_ptr := 100\<rparr>"

definition receivers :: "MosquittoMQ \<Rightarrow> ptr list" where
  "receivers s = map (\<lambda>e. case e of Delivered p m d u \<Rightarrow> p) (mq_events s)"

definition receivers_of :: "((exn + unit) \<times> MosquittoMQ) option \<Rightarrow> ((exn + unit) \<times> ptr list) option" where
  "receivers_of x = map_option (map_prod id receivers) x"

lemmas run_defs = plain_env_def sub_entry_def with_subscribers_def MosquittoMQ_init_def
  receivers_def receivers_of_def

text \<open>
  The flag \<open>subscriber_iterator_updated\<close> is compared and set outside a delivery too.  An
  iterator left at the end by one message denotes the next subscriber pushed to the vector; when
  that one unsubscribes, the flag stays set and the first subscriber gets the next message twice.
\<close>

definition stale_iterator_run :: "(exn + ptr) \<times> MosquittoMQ" where
  "stale_iterator_run =
     (let E = plain_env (\<lambda>_ _ _. []);
          s = snd (the (MessageCB E ''t'' [] None (with_subscribers [sub_entry 1 ''t'', sub_entry 2 ''t''])))
      in bnd (mq_Subscribe E ''u'' 3 0 0) (mq_Unsubscribe E) (s\<lparr>mq_events := []\<rparr>))"

lemma stale_iterator_delivers_twice:
  "receivers_of (MessageCB (plain_env (\<lambda>_ _ _. [])) ''t'' [] None (snd stale_iterator_run)) =
     Some (Inr (), [1, 1, 2])"
  by code_simp

text \<open>
  A callback that unsubscribes an earlier subscriber shifts the vector under the iterator: the
  next subscriber is skipped, and from the last one the iterator passes the end.
\<close>

lemma earlier_unsubscribe_skips:
  "receivers_of (MessageCB (plain_env (\<lambda>p _ _. if p = 2 then [CbUnsubscribe 1] else [])) ''t'' [] None
     (with_subscribers [sub_entry 1 ''t'', sub_entry 2 ''t'', sub_entry 3 ''t''])) =
     Some (Inr (), [1, 2])"
  by code_simp

lemma earlier_unsubscribe_past_end:
  "receivers_of (MessageCB (plain_env (\<lambda>p _ _. if p = 2 then [CbUnsubscribe 1] else [])) ''t'' [] None
     (with_subscribers [sub_entry 1 ''t'', sub_entry 2 ''t''])) =
     Some (Inl (UndefinedBehaviour ''iterator past the end''), [1, 2])"
  by code_simp

text \<open>
  A sequence number that is no decimal makes \<open>std::stoi\<close> throw out of the C callback, and the
  client stays in its iterating mode: later subscribers wait in \<open>new_subscribers\<close>.
\<close>

lemma bad_sequence_property_stays_iterating:
  "map_option (map_prod id subscribers_iterating)
     (MessageCB (plain_env (\<lambda>_ _ _. [])) ''t'' [] (Some [UserProperty ''sequenceNum'' ''x''])
        (with_subscribers [sub_entry 1 ''t''])) = Some (Inl InvalidArgument, True)"
  by code_simp

section \<open>Properties\<close>

lemma MessageCB_total: "\<exists>r t. MessageCB E topic payload props s = Some (r, t)"
proof -
  define s' where "s' = s\<lparr>subscribers_iterating := True, subscriber_iterator := Some 0\<rparr>"
  have "\<exists>r t. message_loop E topic payload props s' = Some (r, t)"
    by (rule message_loop_returns) (simp_all add: s'_def)
  then obtain r t where "message_loop E topic payload props s' = Some (r, t)" by blast
  then show ?thesis
    by (cases r) (auto simp: MessageCB_def s'_def Let_def)
qed

lemma MessageCB_self_only:
  assumes "mq_ok s" and "\<not> subscriber_iterator_updated s" and "self_only E"
    and "read_msg E topic props = Inr m"
  shows "\<exists>t ns. MessageCB E topic payload props s = Some (Inr (), t) \<and>
     mq_events t = mq_events s @ map (delivery m payload) (filter (wants E topic) (subscribers s)) \<and>
     subscribers t = filter (Not \<circ> leaves E topic m) (subscribers s) @ new_subscribers s @ ns \<and>
     (\<forall>q \<in> fst ` set ns. mq_next_ptr s \<le> q) \<and>
     new_subscribers t = [] \<and> \<not> subscribers_iterating t \<and> \<not> subscriber_iterator_updated t"
proof -
  define s' where "s' = s\<lparr>subscribers_iterating := True, subscriber_iterator := Some 0\<rparr>"
  have "iterating_at [] (subscribers s) s'"
    using assms(1,2) by (auto simp: iterating_at_def s'_def mq_ok_defs)
  from message_loop_self_only [OF this assms(3,4), of payload] obtain t where
    "message_loop E topic payload props s' = Some (Inr (), t)"
    "iterating_at (filter (Not \<circ> leaves E topic m) (subscribers s)) [] t" "adds_new s' t"
    "mq_events t = mq_events s' @ map (delivery m payload) (filter (wants E topic) (subscribers s))"
    by auto
  then show ?thesis
    by (fastforce simp: MessageCB_def s'_def Let_def iterating_at_def adds_new_def)
qed




text \<open>A reply sent over MQTT arrives as it was: the properties that \<open>SendReply\<close> publishes are
  read as a message with the same correlation, the same 32-bit sequence
  number (negative ones included) and the same end mark, published on the response topic.\<close>

lemma SendReply_roundtrip:
  assumes "mosq_props_ok E" and "length (msg_correlation msg) < 65536"
    and "mq_SendReply E msg data qos retain s = (Inr (), t)"
  shows "\<exists>props m.
     mq_calls t = mq_calls s @ map M_property_add props @
       [M_publish_v5 (msg_reply_topic msg) data qos retain props, M_property_free_all] \<and>
     read_msg E (msg_reply_topic msg) (Some props) = Inr m \<and>
     msg_topic m = msg_reply_topic msg \<and> msg_correlation m = msg_correlation msg \<and>
     GetSequence m = GetSequence msg \<and> msg_end_sequence m = msg_end_sequence msg"
proof -
  have "mq_calls t = mq_calls s @ map M_property_add (reply_props msg) @
       [M_publish_v5 (msg_reply_topic msg) data qos retain (reply_props msg), M_property_free_all]"
    using assms(3) by (auto simp: mq_SendReply_def reply_props_def act_simps split: if_splits)
  moreover note read_reply_props [OF assms(1,2), of "msg_reply_topic msg"]
  moreover have "GetSequence (SetEndSequence b (SetSequence (GetSequence msg) m)) = GetSequence msg" for b m
    by (simp add: AittMsg_defs)
  ultimately show ?thesis
    by (intro exI [of _ "reply_props msg"]) (auto simp: AittMsg_defs)
qed

text \<open>A subscription handle can be given back: after \<open>Subscribe\<close>, \<open>Unsubscribe\<close> of the
  returned handle leaves the subscriptions as they were before, and when the broker accepts the
  call it returns the user data that was registered.\<close>

lemma Subscribe_Unsubscribe:
  assumes "mq_idle s" and "mq_Subscribe E topic cb user_data qos s = (Inr h, t)"
    and "mq_Unsubscribe E h t = (r, u)"
  shows "mq_idle u \<and> mq_table u = mq_table s \<and> (\<forall>x. r = Inr x \<longrightarrow> x = user_data)"
  using mq_handles.add_del [OF assms(1), of E qos "\<lparr>sd_topic = topic, sd_cb = cb, sd_user_data = user_data\<rparr>" h t r u] assms(2,3)
  by (simp add: mq_add_def)

text \<open>While a message is delivered this fails: a callback that subscribes and changes its mind gets \<open>NO_DATA_ERR\<close>, and the subscription stays.\<close>

lemma pending_unsubscribe_refused:
  assumes "mq_ok s" and "subscribers_iterating s" and "mq_Subscribe E topic cb user_data qos s = (Inr h, t)"
  shows "mq_Unsubscribe E h t = (Inl (AittException NO_DATA_ERR), t) \<and> h \<in> fst ` set (new_subscribers t)"
proof -
  have h: "h = mq_next_ptr s" "subscribers t = subscribers s"
    "new_subscribers t = new_subscribers s @ [(h, \<lparr>sd_topic = topic, sd_cb = cb, sd_user_data = user_data\<rparr>)]"
    using assms(2,3) by (auto simp: mq_Subscribe_def act_simps Let_def split: if_splits)
  have "index_of h (map fst (subscribers t)) = None" "h \<noteq> nullptr"
    unfolding index_of_None using assms(1) h(1,2) by (auto simp: mq_ok_defs)
  with h(3) show ?thesis by (simp add: mq_Unsubscribe_def)
qed

text \<open>A request that cannot be published keeps the list of properties it has built.\<close>

lemma failed_publish_keeps_properties:
  assumes "mq_PublishWithReply E topic data qos retain reply_topic correlation s = (Inl e, t)"
    and "mq_calls t = mq_calls s @ cs"
  shows "M_property_free_all \<notin> set cs"
  using assms by (auto simp: mq_PublishWithReply_def act_simps split: if_splits)

end
