(* ===== verification/Flexbuffers.thy ===== *)
theory Flexbuffers
  imports Aitt_Std
begin

text \<open>
  The serialisation library FlexBuffers, which is not part of the sources: a value tree
  \<open>fb\<close> for what a \<open>flexbuffers::Builder\<close> is given, and a record of parameters for
  \<open>Finish\<close>/\<open>GetBuffer\<close>, \<open>GetRoot\<close> and the accessors of a reference.  What the code
  relies on is \<open>flexbuf_ok\<close>: reading a finished buffer gives the value back, with the entries
  of a map in the order of their keys.  A small codec shows that these laws can hold.
\<close>

datatype fb =
    FbNull
  | FbInt int
  | FbUInt nat
  | FbBool bool
  | FbString string
  | FbBlob "byte list"
  | FbVector "fb list"
  | FbMap "(string \<times> fb) list"

record flexbuf =
  fb_finish :: "fb \<Rightarrow> byte list"
  fb_root :: "byte list \<Rightarrow> fb"
  fb_as_map :: "fb \<Rightarrow> (string \<times> fb) list"
  fb_as_vector :: "fb \<Rightarrow> fb list"
  fb_as_string :: "fb \<Rightarrow> string"
  fb_as_blob :: "fb \<Rightarrow> byte list"
  fb_as_int :: "fb \<Rightarrow> int"
  fb_as_uint :: "fb \<Rightarrow> nat"
  fb_as_bool :: "fb \<Rightarrow> bool"

text \<open>\<open>map[key]\<close>: a missing key gives a null reference.\<close>

definition fb_lookup :: "flexbuf \<Rightarrow> fb \<Rightarrow> string \<Rightarrow> fb" where
  "fb_lookup F v k = (case map_of (fb_as_map F v) k of None \<Rightarrow> FbNull | Some w \<Rightarrow> w)"

text \<open>\<open>vector[i]\<close>: an index past the end gives a null reference.\<close>

definition fb_index :: "flexbuf \<Rightarrow> fb \<Rightarrow> nat \<Rightarrow> fb" where
  "fb_index F v i = (if i < length (fb_as_vector F v) then fb_as_vector F v ! i else FbNull)"

definition fb_keys :: "flexbuf \<Rightarrow> fb \<Rightarrow> string list" where
  "fb_keys F v = map fst (fb_as_map F v)"

text \<open>The builder sorts the entries of every map by key; the keys have to differ.\<close>

fun fb_norm :: "fb \<Rightarrow> fb" where
  "fb_norm (FbVector vs) = FbVector (map fb_norm vs)"
| "fb_norm (FbMap kvs) = FbMap (sort_key fst (map (\<lambda>kv. (fst kv, fb_norm (snd kv))) kvs))"
| "fb_norm v = v"

fun fb_wf :: "fb \<Rightarrow> bool" where
  "fb_wf (FbVector vs) \<longleftrightarrow> list_all fb_wf vs"
| "fb_wf (FbMap kvs) \<longleftrightarrow> distinct (map fst kvs) \<and> list_all (\<lambda>kv. fb_wf (snd kv)) kvs"
| "fb_wf v \<longleftrightarrow> True"

definition flexbuf_ok :: "flexbuf \<Rightarrow> bool" where
  "flexbuf_ok F \<longleftrightarrow>
     (\<forall>v. fb_wf v \<longrightarrow> fb_root F (fb_finish F v) = fb_norm v \<and> fb_finish F v \<noteq> []) \<and>
     (\<forall>kvs. fb_as_map F (FbMap kvs) = kvs) \<and>
     (\<forall>vs. fb_as_vector F (FbVector vs) = vs) \<and>
     (\<forall>s. fb_as_string F (FbString s) = s) \<and>
     (\<forall>b. fb_as_blob F (FbBlob b) = b) \<and>
     (\<forall>i. fb_as_int F (FbInt i) = i) \<and>
     (\<forall>n. fb_as_uint F (FbUInt n) = n) \<and>
     (\<forall>b. fb_as_bool F (FbBool b) = b)"

lemma flexbuf_okD:
  assumes "flexbuf_ok F"
  shows "fb_wf v \<Longrightarrow> fb_root F (fb_finish F v) = fb_norm v"
    and "fb_wf v \<Longrightarrow> fb_finish F v \<noteq> []"
    and "fb_as_map F (FbMap kvs) = kvs"
    and "fb_as_vector F (FbVector vs) = vs"
    and "fb_as_string F (FbString s) = s"
    and "fb_as_blob F (FbBlob b) = b"
    and "fb_as_int F (FbInt i) = i"
    and "fb_as_uint F (FbUInt n) = n"
    and "fb_as_bool F (FbBool c) = c"
  using assms by (simp_all add: flexbuf_ok_def)

text \<open>A lookup in a map that was read back does not see the reordering.\<close>

lemma map_of_sort_key:
  assumes "distinct (map fst kvs)"
  shows "map_of (sort_key fst kvs) = map_of kvs"
proof (rule map_of_eqI)
  show "set (map fst (sort_key fst kvs)) = set (map fst kvs)" by simp
  have d: "distinct (map fst (sort_key fst kvs))"
    using assms by (simp add: distinct_map)
  show "\<forall>k \<in> set (map fst (sort_key fst kvs)). map_of (sort_key fst kvs) k = map_of kvs k"
  proof
    fix k assume "k \<in> set (map fst (sort_key fst kvs))"
    then obtain v where "(k, v) \<in> set kvs" by auto
    with d assms show "map_of (sort_key fst kvs) k = map_of kvs k"
      by (metis map_of_is_SomeI set_sort)
  qed
qed

lemma fb_lookup_norm:
  assumes "flexbuf_ok F" and "distinct (map fst kvs)"
  shows "fb_lookup F (fb_norm (FbMap kvs)) k =
           (case map_of kvs k of None \<Rightarrow> FbNull | Some v \<Rightarrow> fb_norm v)"
proof -
  have "distinct (map fst (map (\<lambda>kv. (fst kv, fb_norm (snd kv))) kvs))"
    using assms(2) by (simp add: comp_def)
  note map_of_sort_key [OF this]
  moreover have "map_of (map (\<lambda>kv. (fst kv, fb_norm (snd kv))) kvs) k = map_option fb_norm (map_of kvs k)"
    by (induction kvs) auto
  ultimately show ?thesis
    by (simp add: fb_lookup_def flexbuf_okD [OF assms(1)] split: option.split)
qed

section \<open>A codec with these laws\<close>

text \<open>Each node is a tag and its contents; a count is written in unary.\<close>

definition enc_count :: "nat \<Rightarrow> byte list" where
  "enc_count n = replicate n 1 @ [0]"

definition enc_bytes :: "byte list \<Rightarrow> byte list" where
  "enc_bytes bs = enc_count (length bs) @ bs"

definition enc_string :: "string \<Rightarrow> byte list" where
  "enc_string s = enc_bytes (map of_char s)"

fun enc_fb :: "fb \<Rightarrow> byte list" where
  "enc_fb FbNull = [0]"
| "enc_fb (FbInt i) = (if i < 0 then 1 else 2) # enc_count (nat (abs i))"
| "enc_fb (FbUInt n) = 3 # enc_count n"
| "enc_fb (FbBool b) = [if b then 8 else 9]"
| "enc_fb (FbString s) = 4 # enc_string s"
| "enc_fb (FbBlob b) = 5 # enc_bytes b"
| "enc_fb (FbVector vs) = 6 # enc_count (length vs) @ concat (map enc_fb vs)"
| "enc_fb (FbMap kvs) =
     7 # enc_count (length kvs) @ concat (map (\<lambda>kv. enc_string (fst kv) @ enc_fb (snd kv)) kvs)"

fun dec_count :: "byte list \<Rightarrow> nat \<times> byte list" where
  "dec_count (b # bs) = (if b = 0 then (0, bs) else (case dec_count bs of (n, r) \<Rightarrow> (Suc n, r)))"
| "dec_count [] = (0, [])"

definition dec_bytes :: "byte list \<Rightarrow> byte list \<times> byte list" where
  "dec_bytes bs = (case dec_count bs of (n, r) \<Rightarrow> (take n r, drop n r))"

definition dec_string :: "byte list \<Rightarrow> string \<times> byte list" where
  "dec_string bs = (case dec_bytes bs of (s, r) \<Rightarrow> (map (\<lambda>b. char_of (unat b)) s, r))"

fun dec_list :: "(byte list \<Rightarrow> 'a \<times> byte list) \<Rightarrow> nat \<Rightarrow> byte list \<Rightarrow> 'a list \<times> byte list" where
  "dec_list f 0 bs = ([], bs)"
| "dec_list f (Suc n) bs = (case f bs of (x, r) \<Rightarrow> case dec_list f n r of (xs, q) \<Rightarrow> (x # xs, q))"

text \<open>The depth of the tree bounds the recursion; the length of the buffer bounds the depth.\<close>

fun dec_fb :: "nat \<Rightarrow> byte list \<Rightarrow> fb \<times> byte list" where
  "dec_fb (Suc d) (t # bs) =
     (if t = 1 then apfst (\<lambda>n. FbInt (- int n)) (dec_count bs)
      else if t = 2 then apfst (\<lambda>n. FbInt (int n)) (dec_count bs)
      else if t = 3 then apfst FbUInt (dec_count bs)
      else if t = 4 then apfst FbString (dec_string bs)
      else if t = 5 then apfst FbBlob (dec_bytes bs)
      else if t = 6 then (case dec_count bs of (n, r) \<Rightarrow> apfst FbVector (dec_list (dec_fb d) n r))
      else if t = 7 then (case dec_count bs of (n, r) \<Rightarrow>
        apfst FbMap (dec_list (\<lambda>b. case dec_string b of (k, q) \<Rightarrow> apfst (Pair k) (dec_fb d q)) n r))
      else if t = 8 then (FbBool True, bs)
      else if t = 9 then (FbBool False, bs)
      else (FbNull, bs))"
| "dec_fb d bs = (FbNull, bs)"

definition sample_flexbuf :: flexbuf where
  "sample_flexbuf =
     \<lparr>fb_finish = (\<lambda>v. enc_fb (fb_norm v)), fb_root = (\<lambda>bs. fst (dec_fb (length bs) bs)),
      fb_as_map = (\<lambda>v. case v of FbMap kvs \<Rightarrow> kvs | _ \<Rightarrow> []),
      fb_as_vector = (\<lambda>v. case v of FbVector vs \<Rightarrow> vs | _ \<Rightarrow> []),
      fb_as_string = (\<lambda>v. case v of FbString s \<Rightarrow> s | _ \<Rightarrow> []),
      fb_as_blob = (\<lambda>v. case v of FbBlob b \<Rightarrow> b | _ \<Rightarrow> []),
      fb_as_int = (\<lambda>v. case v of FbInt i \<Rightarrow> i | _ \<Rightarrow> 0),
      fb_as_uint = (\<lambda>v. case v of FbUInt n \<Rightarrow> n | _ \<Rightarrow> 0),
      fb_as_bool = (\<lambda>v. case v of FbBool b \<Rightarrow> b | _ \<Rightarrow> False)\<rparr>"

lemma dec_enc_count [simp]: "dec_count (enc_count n @ r) = (n, r)"
  by (induction n) (simp_all add: enc_count_def)

lemma dec_enc_bytes [simp]: "dec_bytes (enc_bytes bs @ r) = (bs, r)"
  by (simp add: dec_bytes_def enc_bytes_def)

lemma byte_of_char [simp]: "char_of (unat (of_char c :: byte)) = c"
proof -
  have "unat (of_char c :: byte) = unat (of_nat (of_char c) :: byte)" by (simp only: of_nat_of_char)
  also have "\<dots> = (of_char c :: nat) mod 2 ^ 8" by (simp only: unat_of_nat) simp
  also have "\<dots> = of_char c" by simp
  finally show ?thesis by simp
qed

lemma dec_enc_string [simp]: "dec_string (enc_string s @ r) = (s, r)"
  by (simp add: dec_string_def enc_string_def comp_def)

lemma dec_enc_list:
  assumes "\<And>x r. x \<in> set xs \<Longrightarrow> f (e x @ r) = (x, r)"
  shows "dec_list f (length xs) (concat (map e xs) @ r) = (xs, r)"
  using assms by (induction xs arbitrary: r) auto

fun fb_depth :: "fb \<Rightarrow> nat" where
  "fb_depth (FbVector vs) = Suc (sum_list (map fb_depth vs))"
| "fb_depth (FbMap kvs) = Suc (sum_list (map (\<lambda>kv. fb_depth (snd kv)) kvs))"
| "fb_depth v = 1"

lemma dec_enc_fb: "fb_depth v \<le> d \<Longrightarrow> dec_fb d (enc_fb v @ r) = (v, r)"
proof (induction v arbitrary: d r rule: fb_depth.induct)
  case (1 vs)
  then obtain e where d: "d = Suc e" by (cases d) auto
  have "dec_fb e (enc_fb v @ r) = (v, r)" if "v \<in> set vs" for v r
    using 1 that member_le_sum_list [of "fb_depth v" "map fb_depth vs"] d by auto
  then have "dec_list (dec_fb e) (length vs) (concat (map enc_fb vs) @ r) = (vs, r)"
    by (rule dec_enc_list)
  with d show ?case by simp
next
  case (2 kvs)
  then obtain e where d: "d = Suc e" by (cases d) auto
  have "dec_fb e (enc_fb (snd kv) @ r) = (snd kv, r)" if "kv \<in> set kvs" for kv r
    using 2 that member_le_sum_list [of "fb_depth (snd kv)" "map (\<lambda>kv. fb_depth (snd kv)) kvs"] d by auto
  then have "dec_list (\<lambda>b. case dec_string b of (k, q) \<Rightarrow> apfst (Pair k) (dec_fb e q)) (length kvs)
      (concat (map (\<lambda>kv. enc_string (fst kv) @ enc_fb (snd kv)) kvs) @ r) = (kvs, r)"
    by (intro dec_enc_list) simp
  with d show ?case by simp
qed (auto simp: gr0_conv_Suc dest!: Suc_le_D)

lemma enc_fb_length: "fb_depth v \<le> length (enc_fb v)"
proof (induction v rule: fb_depth.induct)
  case (1 vs)
  have "sum_list (map fb_depth vs) \<le> sum_list (map (length \<circ> enc_fb) vs)"
    using 1 by (intro sum_list_mono) simp
  then show ?case by (simp add: length_concat)
next
  case (2 kvs)
  have "sum_list (map (\<lambda>kv. fb_depth (snd kv)) kvs)
      \<le> sum_list (map (\<lambda>kv. length (enc_string (fst kv) @ enc_fb (snd kv))) kvs)"
    using 2 by (intro sum_list_mono) (fastforce intro: trans_le_add2)
  then show ?case by (simp add: length_concat comp_def)
qed simp_all

lemma sample_flexbuf_ok: "flexbuf_ok sample_flexbuf"
proof -
  have "fst (dec_fb (length (enc_fb v)) (enc_fb v)) = v \<and> enc_fb v \<noteq> []" for v
    using dec_enc_fb [OF enc_fb_length, of v "[]"] by (cases v) simp_all
  then show ?thesis by (simp add: flexbuf_ok_def sample_flexbuf_def)
qed

end
