(* ===== verification/AittDiscovery_Model.thy ===== *)
theory AittDiscovery_Model
  imports MosquittoMQ_Model Flexbuffers
begin

text \<open>
  The peer discovery of \<open>common/AittDiscovery.cc\<close>: each client publishes, as a retained MQTT
  message on its own topic, a map with its status and one blob per protocol, and every client
  hands the blobs it receives to the callbacks registered for their protocol.

  The client's \<open>MQ\<close> object is the MosquittoMQ model.  A registered callback is a number; the
  calls that a discovery message makes are returned in order.
\<close>

definition AITT_MANAGED_TOPIC_PREFIX :: string where
  "AITT_MANAGED_TOPIC_PREFIX = ''/v1/custom/f5c7b34e48c1918f/''"

definition DISCOVERY_TOPIC_BASE :: string where
  "DISCOVERY_TOPIC_BASE = AITT_MANAGED_TOPIC_PREFIX @ ''discovery/''"

definition WILL_LEAVE_NETWORK :: string where "WILL_LEAVE_NETWORK = ''disconnected''"
definition JOIN_NETWORK :: string where "JOIN_NETWORK = ''connected''"

text \<open>An \<open>int\<close> that is incremented past its range wraps (\<open>std::atomic_int\<close>).\<close>

definition wrap32 :: "int \<Rightarrow> int" where
  "wrap32 i = sint (word_of_int i :: 32 word)"

lemma wrap32_id: "int32_range i \<Longrightarrow> wrap32 i = i"
  by (simp add: wrap32_def int32_range_def sint_sbintrunc' signed_take_bit_int_eq_self)

record AittDiscovery =
  disc_is_running :: bool
  disc_id :: string
  disc_mq :: "MosquittoMQ option"
  disc_callback_handle :: ptr
  discovery_map :: "(string, byte list) omap"
  disc_callbacks :: "(int, string \<times> nat) omap"
  disc_next_id :: int

abbreviation (input) DISCOVERY_MESSAGE_CB :: nat where "DISCOVERY_MESSAGE_CB \<equiv> 1"
abbreviation (input) DISCOVERY_CONNECT_CB :: nat where "DISCOVERY_CONNECT_CB \<equiv> 2"
abbreviation (input) disc_this :: ptr where "disc_this \<equiv> 1"

text \<open>A call on \<open>discovery_mq\<close>; a null pointer is dereferenced.\<close>

definition on_mq :: "(MosquittoMQ, 'a) act \<Rightarrow> (AittDiscovery, 'a) act" where
  "on_mq m = (\<lambda>s. case disc_mq s of
       None \<Rightarrow> (Inl (UndefinedBehaviour ''null discovery_mq''), s)
     | Some q \<Rightarrow> (case m q of (r, q') \<Rightarrow> (r, s\<lparr>disc_mq := Some q'\<rparr>)))"

lemma disc_mq_idem: "disc_mq s = q \<Longrightarrow> s\<lparr>disc_mq := q\<rparr> = s"
  by (cases s) simp

lemma on_mq_run [act_simps]:
  "on_mq m s = (case disc_mq s of
       None \<Rightarrow> (Inl (UndefinedBehaviour ''null discovery_mq''), s)
     | Some q \<Rightarrow> (case m q of (r, q') \<Rightarrow> (r, s\<lparr>disc_mq := Some q'\<rparr>)))"
  by (simp add: on_mq_def)

definition AittDiscovery_new :: "string \<Rightarrow> AittDiscovery" where
  "AittDiscovery_new ident =
     \<lparr>disc_is_running = False, disc_id = ident, disc_mq = None, disc_callback_handle = nullptr,
      discovery_map = [], disc_callbacks = [], disc_next_id = 0\<rparr>"

definition disc_SetMQ :: "MosquittoMQ \<Rightarrow> (AittDiscovery, unit) act" where
  "disc_SetMQ mq = upd (\<lambda>s. s\<lparr>disc_mq := Some mq\<rparr>)"

definition disc_HasValidMQ :: "AittDiscovery \<Rightarrow> bool" where
  "disc_HasValidMQ s \<longleftrightarrow> disc_mq s \<noteq> None"

definition disc_subscribe :: "mq_env \<Rightarrow> (AittDiscovery, unit) act" where
  "disc_subscribe E =
     bnd (on_mq (mq_Subscribe E (DISCOVERY_TOPIC_BASE @ ''+'') DISCOVERY_MESSAGE_CB disc_this
            AITT_QOS_EXACTLY_ONCE))
         (\<lambda>h. upd (\<lambda>s. s\<lparr>disc_callback_handle := h\<rparr>))"

definition disc_Start ::
  "mq_env \<Rightarrow> string \<Rightarrow> int \<Rightarrow> string \<Rightarrow> string \<Rightarrow> (AittDiscovery, unit) act" where
  "disc_Start E host port username password =
     (\<lambda>s. if disc_callback_handle s \<noteq> nullptr then (Inr (), s)
          else sq (on_mq (mq_SetWillInfo E (DISCOVERY_TOPIC_BASE @ disc_id s) [] AITT_QOS_EXACTLY_ONCE True))
              (sq (on_mq (mq_SetConnectionCallback (Some DISCOVERY_CONNECT_CB)))
              (sq (on_mq (mq_Connect E host port username password))
                  (upd (\<lambda>s. s\<lparr>disc_is_running := True\<rparr>)))) s)"

text \<open>The lambda that \<open>Start\<close> sets as the connection callback.\<close>

definition disc_on_connection :: "mq_env \<Rightarrow> int \<Rightarrow> (AittDiscovery, unit) act" where
  "disc_on_connection E status =
     (\<lambda>s. if status \<noteq> AITT_CONNECTED then (Inr (), s\<lparr>disc_is_running := False\<rparr>)
          else if disc_callback_handle s = nullptr then disc_subscribe E s
          else (Inr (), s))"

definition disc_Restart :: "mq_env \<Rightarrow> (AittDiscovery, unit) act" where
  "disc_Restart E =
     (\<lambda>s. if disc_callback_handle s = nullptr then (Inr (), s)
          else sq (on_mq (mq_Unsubscribe E (disc_callback_handle s))) (disc_subscribe E) s)"

definition disc_Stop :: "mq_env \<Rightarrow> (AittDiscovery, unit) act" where
  "disc_Stop E =
     sq (upd (\<lambda>s. s\<lparr>disc_is_running := False\<rparr>))
     (sq (on_mq (mq_SetConnectionCallback None))
     (\<lambda>s. sq (on_mq (mq_Unsubscribe E (disc_callback_handle s)))
         (sq (on_mq (mq_Publish E (DISCOVERY_TOPIC_BASE @ disc_id s) [] AITT_QOS_EXACTLY_ONCE True))
         (sq (on_mq (mq_Publish E (DISCOVERY_TOPIC_BASE @ disc_id s) [] AITT_QOS_AT_MOST_ONCE True))
         (sq (upd (\<lambda>s. s\<lparr>disc_callback_handle := nullptr\<rparr>))
             (on_mq (mq_Disconnect E))))) s))"

section \<open>Publishing the own discovery message\<close>

definition discovery_fb :: "(string, byte list) omap \<Rightarrow> fb" where
  "discovery_fb m = FbMap ((''status'', FbString JOIN_NETWORK) # map (\<lambda>kv. (fst kv, FbBlob (snd kv))) m)"

definition PublishDiscoveryMsg :: "mq_env \<Rightarrow> flexbuf \<Rightarrow> (AittDiscovery, unit) act" where
  "PublishDiscoveryMsg E F =
     (\<lambda>s. on_mq (mq_Publish E (DISCOVERY_TOPIC_BASE @ disc_id s)
             (fb_finish F (discovery_fb (discovery_map s))) AITT_QOS_EXACTLY_ONCE True) s)"

definition UpdateDiscoveryMsg :: "mq_env \<Rightarrow> flexbuf \<Rightarrow> string \<Rightarrow> byte list \<Rightarrow> (AittDiscovery, unit) act" where
  "UpdateDiscoveryMsg E F protocol msg =
     sq (upd (\<lambda>s. s\<lparr>discovery_map := omap_put protocol msg (discovery_map s)\<rparr>))
        (PublishDiscoveryMsg E F)"

section \<open>Discovery callbacks\<close>

definition AddDiscoveryCB :: "string \<Rightarrow> nat \<Rightarrow> (AittDiscovery, int) act" where
  "AddDiscoveryCB protocol cb =
     (\<lambda>s. let i = wrap32 (disc_next_id s + 1)
          in (Inr i, s\<lparr>disc_next_id := i,
                       disc_callbacks := omap_insert i (protocol, cb) (disc_callbacks s)\<rparr>))"

definition RemoveDiscoveryCB :: "int \<Rightarrow> (AittDiscovery, unit) act" where
  "RemoveDiscoveryCB callback_id =
     (\<lambda>s. case map_of (disc_callbacks s) callback_id of
            None \<Rightarrow> (Inr (), s)
          | Some _ \<Rightarrow> (Inr (), s\<lparr>disc_callbacks := omap_del callback_id (disc_callbacks s)\<rparr>))"

definition disc_CompareTopic :: "mq_env \<Rightarrow> string \<Rightarrow> string \<Rightarrow> (AittDiscovery, bool) act" where
  "disc_CompareTopic E left right = on_mq (ret (CompareTopic E left right))"

text \<open>The call of a registered callback: its number, the peer, the status and the blob.\<close>

datatype disc_call = DiscCall nat string string "byte list option"

text \<open>The sources pass the end position where \<open>substr\<close> expects a length.\<close>

definition topic_client_id :: "string \<Rightarrow> exn + string" where
  "topic_client_id topic =
     substr topic (length DISCOVERY_TOPIC_BASE)
       (case str_find topic ''/'' (length DISCOVERY_TOPIC_BASE) of None \<Rightarrow> npos | Some e \<Rightarrow> e)"

definition calls_for_key ::
  "flexbuf \<Rightarrow> (int, string \<times> nat) omap \<Rightarrow> string \<Rightarrow> string \<Rightarrow> fb \<Rightarrow> string \<Rightarrow> disc_call list" where
  "calls_for_key F cbs clientId status root key =
     (if key = ''status'' then []
      else map (\<lambda>node. DiscCall (snd (snd node)) clientId status (Some (fb_as_blob F (fb_lookup F root key))))
             (filter (\<lambda>node. fst (snd node) = key) cbs))"

definition DiscoveryMessageCallback ::
  "flexbuf \<Rightarrow> AittDiscovery \<Rightarrow> string \<Rightarrow> byte list option \<Rightarrow> exn + disc_call list" where
  "DiscoveryMessageCallback F s topic msg =
     (case topic_client_id topic of
        Inl e \<Rightarrow> Inl e
      | Inr clientId \<Rightarrow>
          if clientId = [] then Inr []
          else (case msg of
            None \<Rightarrow> Inr (map (\<lambda>node. DiscCall (snd (snd node)) clientId WILL_LEAVE_NETWORK None)
                            (disc_callbacks s))
          | Some bytes \<Rightarrow>
              (let root = fb_root F bytes;
                   status = fb_as_string F (fb_lookup F root ''status'')
               in Inr (concat (map (calls_for_key F (disc_callbacks s) clientId status root)
                                   (fb_keys F root))))))"

section \<open>Reading a discovery message back\<close>

lemma topic_client_id_base:
  assumes "CHR ''/'' \<notin> set ident" and "length ident \<le> npos"
  shows "topic_client_id (DISCOVERY_TOPIC_BASE @ ident) = Inr ident"
proof -
  have "str_find (DISCOVERY_TOPIC_BASE @ ident) ''/'' (length DISCOVERY_TOPIC_BASE) = None"
    using assms(1) by (intro str_find_None) simp
  with assms(2) show ?thesis by (simp add: topic_client_id_def substr_def)
qed

text \<open>What a peer is told of an advertised map: one call for each entry and callback of its protocol.\<close>

definition advertised_calls ::
  "(int, string \<times> nat) omap \<Rightarrow> string \<Rightarrow> (string, byte list) omap \<Rightarrow> disc_call list" where
  "advertised_calls cbs clientId m =
     concat (map (\<lambda>kv. map (\<lambda>node. DiscCall (snd (snd node)) clientId JOIN_NETWORK (Some (snd kv)))
                           (filter (\<lambda>node. fst (snd node) = fst kv) cbs)) m)"

lemma concat_map_filter_Nil: "(\<And>x. x \<in> set xs \<Longrightarrow> \<not> P x \<Longrightarrow> g x = []) \<Longrightarrow>
    concat (map g xs) = concat (map g (filter P xs))"
  by (induction xs) auto

lemma keys_discovery_fb:
  assumes "flexbuf_ok F" and "omap_ok m" and "''status'' \<notin> fst ` set m"
  shows "filter (\<lambda>k. k \<noteq> ''status'') (fb_keys F (fb_norm (discovery_fb m))) = map fst m"
proof -
  define L where "L = (''status'', FbString JOIN_NETWORK) # map (\<lambda>kv. (fst kv, FbBlob (snd kv))) m"
  have "fb_keys F (fb_norm (discovery_fb m)) = map fst (sort_key fst L)"
    by (simp add: fb_keys_def flexbuf_okD [OF assms(1)] discovery_fb_def L_def comp_def)
  then have "filter (\<lambda>k. k \<noteq> ''status'') (fb_keys F (fb_norm (discovery_fb m))) =
      map fst (sort_key fst (filter (\<lambda>kv. fst kv \<noteq> ''status'') L))"
    by (simp add: filter_map filter_sort comp_def)
  also have "filter (\<lambda>kv. fst kv \<noteq> ''status'') L = map (\<lambda>kv. (fst kv, FbBlob (snd kv))) m"
    using assms(3) by (simp add: L_def filter_id_conv) force
  also have "sort_key fst (map (\<lambda>kv. (fst kv, FbBlob (snd kv))) m) = map (\<lambda>kv. (fst kv, FbBlob (snd kv))) m"
    using assms(2) by (intro sort_key_id_if_sorted) (simp add: omap_ok_def strict_sorted_iff comp_def)
  finally show ?thesis by (simp add: comp_def)
qed

lemma discovery_fb_wf: "omap_ok m \<Longrightarrow> ''status'' \<notin> fst ` set m \<Longrightarrow> fb_wf (discovery_fb m)"
  by (auto simp: discovery_fb_def list_all_iff comp_def omap_ok_distinct)

lemma lookup_discovery_fb:
  assumes "flexbuf_ok F" and "omap_ok m" and "''status'' \<notin> fst ` set m"
  shows "fb_lookup F (fb_norm (discovery_fb m)) ''status'' = FbString JOIN_NETWORK"
    and "kv \<in> set m \<Longrightarrow> fb_lookup F (fb_norm (discovery_fb m)) (fst kv) = FbBlob (snd kv)"
proof -
  have look: "fb_lookup F (fb_norm (discovery_fb m)) k =
      (if k = ''status'' then FbString JOIN_NETWORK
       else case map_of m k of None \<Rightarrow> FbNull | Some b \<Rightarrow> FbBlob b)" for k
  proof -
    have "map_of (map (\<lambda>kv. (fst kv, FbBlob (snd kv))) m) k = map_option FbBlob (map_of m k)"
      by (induction m) auto
    with discovery_fb_wf [OF assms(2,3)] show ?thesis
      unfolding discovery_fb_def by (subst fb_lookup_norm [OF assms(1)]) (auto split: option.splits)
  qed
  show "fb_lookup F (fb_norm (discovery_fb m)) ''status'' = FbString JOIN_NETWORK" by (simp add: look)
  show "fb_lookup F (fb_norm (discovery_fb m)) (fst kv) = FbBlob (snd kv)" if "kv \<in> set m"
  proof -
    have "map_of m (fst kv) = Some (snd kv)" using that omap_mem_iff [OF assms(2), of "fst kv" "snd kv"] by simp
    moreover have "fst kv \<noteq> ''status''" using that assms(3) by force
    ultimately show ?thesis by (simp add: look)
  qed
qed

lemma DiscoveryMessageCallback_advertised:
  assumes F: "flexbuf_ok F" and m: "omap_ok m" "''status'' \<notin> fst ` set m"
    and i: "CHR ''/'' \<notin> set ident" "length ident \<le> npos" "ident \<noteq> []"
  shows "DiscoveryMessageCallback F b (DISCOVERY_TOPIC_BASE @ ident) (Some (fb_finish F (discovery_fb m))) =
           Inr (advertised_calls (disc_callbacks b) ident m)"
proof -
  define root where "root = fb_norm (discovery_fb m)"
  let ?g = "calls_for_key F (disc_callbacks b) ident JOIN_NETWORK root"
  have r: "fb_root F (fb_finish F (discovery_fb m)) = root"
    using flexbuf_okD(1) [OF F discovery_fb_wf [OF m]] by (simp add: root_def)
  have st: "fb_as_string F (fb_lookup F root ''status'') = JOIN_NETWORK"
    using lookup_discovery_fb(1) [OF F m] flexbuf_okD(5) [OF F] by (simp add: root_def)
  have "concat (map ?g (fb_keys F root)) = concat (map ?g (filter (\<lambda>k. k \<noteq> ''status'') (fb_keys F root)))"
    by (rule concat_map_filter_Nil) (simp add: calls_for_key_def)
  also have "\<dots> = concat (map ?g (map fst m))"
    using keys_discovery_fb [OF F m] by (simp add: root_def)
  also have "\<dots> = advertised_calls (disc_callbacks b) ident m"
  proof -
    have "?g (fst kv) = map (\<lambda>node. DiscCall (snd (snd node)) ident JOIN_NETWORK (Some (snd kv)))
        (filter (\<lambda>node. fst (snd node) = fst kv) (disc_callbacks b))" if "kv \<in> set m" for kv
      using lookup_discovery_fb(2) [OF F m that] m(2) that flexbuf_okD(6) [OF F]
      by (force simp: calls_for_key_def root_def)
    then show ?thesis by (simp add: advertised_calls_def comp_def cong: map_cong)
  qed
  finally show ?thesis
    using i by (simp add: DiscoveryMessageCallback_def topic_client_id_base Let_def r st)
qed

section \<open>Invariant\<close>

text \<open>The two maps are ordered, and the registered ids are at most the counter.\<close>

definition disc_ok :: "AittDiscovery \<Rightarrow> bool" where
  "disc_ok s \<longleftrightarrow> omap_ok (discovery_map s) \<and> omap_ok (disc_callbacks s) \<and>
     (\<forall>k \<in> fst ` set (disc_callbacks s). k \<le> disc_next_id s) \<and> - 1 < disc_next_id s"

lemma disc_ok_mq [simp]: "disc_ok (s\<lparr>disc_mq := q\<rparr>) = disc_ok s"
  by (simp add: disc_ok_def)

lemma preserves_on_mq [preserves_intros]: "preserves disc_ok (on_mq m)"
  by (rule preservesI) (auto simp: act_simps split: option.splits prod.splits)

lemma PublishDiscoveryMsg_ok [preserves_intros]: "preserves disc_ok (PublishDiscoveryMsg E F)"
  using preserves_on_mq by (auto simp: preserves_def PublishDiscoveryMsg_def)

lemma UpdateDiscoveryMsg_ok [preserves_intros]: "preserves disc_ok (UpdateDiscoveryMsg E F protocol msg)"
  unfolding UpdateDiscoveryMsg_def
  by (intro preserves_intros) (simp add: disc_ok_def)

lemma RemoveDiscoveryCB_ok [preserves_intros]: "preserves disc_ok (RemoveDiscoveryCB i)"
  by (rule preservesI) (auto simp: disc_ok_def RemoveDiscoveryCB_def omap_del_def omap_ok_del [unfolded omap_del_def] split: option.splits)

lemma AddDiscoveryCB_fresh:
  assumes "disc_ok s" and "disc_next_id s < INT32_MAX"
  shows "AddDiscoveryCB protocol cb s =
           (Inr (disc_next_id s + 1),
            s\<lparr>disc_next_id := disc_next_id s + 1,
              disc_callbacks := omap_put (disc_next_id s + 1) (protocol, cb) (disc_callbacks s)\<rparr>)"
proof -
  have "disc_next_id s + 1 \<notin> fst ` set (disc_callbacks s)" using assms(1) by (force simp: disc_ok_def)
  moreover have "wrap32 (disc_next_id s + 1) = disc_next_id s + 1"
    using assms by (intro wrap32_id) (simp add: disc_ok_def int32_range_def)
  ultimately show ?thesis by (simp add: AddDiscoveryCB_def Let_def omap_insert_fresh)
qed

section \<open>Properties\<close>

text \<open>C6. What a client advertises is what its peers hear: after \<open>UpdateDiscoveryMsg\<close> the last
  MQTT call is a retained, exactly-once publication on the client's own discovery topic, and a peer
  that receives it calls, for each protocol of the advertised map in order, exactly the callbacks
  registered for that protocol, with the client's id, the status "connected" and that protocol's
  blob.\<close>

theorem discovery_roundtrip:
  assumes F: "flexbuf_ok F" and ok: "disc_ok a"
    and names: "''status'' \<notin> insert protocol (fst ` set (discovery_map a))"
    and ident: "CHR ''/'' \<notin> set (disc_id a)" "length (disc_id a) \<le> npos" "disc_id a \<noteq> []"
    and run: "UpdateDiscoveryMsg E F protocol msg a = (Inr (), a')"
  shows "\<exists>q payload. disc_mq a' = Some q \<and>
     last (mq_calls q) = M_publish (DISCOVERY_TOPIC_BASE @ disc_id a) payload AITT_QOS_EXACTLY_ONCE True \<and>
     payload \<noteq> [] \<and>
     discovery_map a' = omap_put protocol msg (discovery_map a) \<and>
     DiscoveryMessageCallback F b (DISCOVERY_TOPIC_BASE @ disc_id a) (Some payload) =
       Inr (advertised_calls (disc_callbacks b) (disc_id a) (discovery_map a'))"
proof -
  define m where "m = omap_put protocol msg (discovery_map a)"
  have m: "omap_ok m" "''status'' \<notin> fst ` set m"
    using ok names by (simp_all add: m_def disc_ok_def)
  define payload where "payload = fb_finish F (discovery_fb m)"
  have "\<exists>q. disc_mq a' = Some q \<and> discovery_map a' = m \<and>
      last (mq_calls q) = M_publish (DISCOVERY_TOPIC_BASE @ disc_id a) payload AITT_QOS_EXACTLY_ONCE True"
    using run by (auto simp: UpdateDiscoveryMsg_def PublishDiscoveryMsg_def act_simps mq_Publish_def
        m_def payload_def split: option.splits if_splits)
  moreover have "payload \<noteq> []" using flexbuf_okD(2) [OF F discovery_fb_wf [OF m]] by (simp add: payload_def)
  moreover note DiscoveryMessageCallback_advertised [OF F m ident, of b]
  ultimately show ?thesis by (auto simp: m_def payload_def)
qed

theorem discovery_roundtrip_witness:
  "\<exists>(q :: MosquittoMQ) payload. last (mq_calls q) = M_publish (DISCOVERY_TOPIC_BASE @ ''me'') payload 2 True \<and>
     DiscoveryMessageCallback sample_flexbuf
       ((AittDiscovery_new ''you'')\<lparr>disc_callbacks := [(1, ''tcp'', 7), (2, ''MQTT'', 8), (3, ''tcp'', 9)]\<rparr>)
       (DISCOVERY_TOPIC_BASE @ ''me'') (Some payload) =
       Inr [DiscCall 7 ''me'' ''connected'' (Some [1, 2]), DiscCall 9 ''me'' ''connected'' (Some [1, 2])]"
proof -
  define a where "a = (AittDiscovery_new ''me'')\<lparr>disc_mq := Some MosquittoMQ_init\<rparr>"
  define b where "b = (AittDiscovery_new ''you'')\<lparr>disc_callbacks := [(1, ''tcp'', 7), (2, ''MQTT'', 8), (3, ''tcp'', 9)]\<rparr>"
  define E where "E = plain_env (\<lambda>_ _ _. [])"
  define r where "r = UpdateDiscoveryMsg E sample_flexbuf ''tcp'' [1, 2] a"
  have "fst r = Inr ()"
    by (simp add: r_def UpdateDiscoveryMsg_def PublishDiscoveryMsg_def act_simps mq_Publish_def a_def
        AittDiscovery_new_def E_def plain_env_def)
  then have r: "UpdateDiscoveryMsg E sample_flexbuf ''tcp'' [1, 2] a = (Inr (), snd r)"
    by (simp add: r_def prod_eq_iff)
  have a: "disc_ok a" "''status'' \<notin> insert ''tcp'' (fst ` set (discovery_map a))" "CHR ''/'' \<notin> set (disc_id a)"
    "length (disc_id a) \<le> npos" "disc_id a \<noteq> []" "disc_id a = ''me''" "discovery_map a = []"
    by (simp_all add: a_def AittDiscovery_new_def disc_ok_def)
  have calls: "advertised_calls (disc_callbacks b) ''me'' (omap_put ''tcp'' [1, 2] []) =
      [DiscCall 7 ''me'' ''connected'' (Some [1, 2]), DiscCall 9 ''me'' ''connected'' (Some [1, 2])]"
    by (simp add: b_def advertised_calls_def JOIN_NETWORK_def)
  obtain q :: MosquittoMQ and payload where "last (mq_calls q) = M_publish (DISCOVERY_TOPIC_BASE @ ''me'') payload 2 True"
    and "DiscoveryMessageCallback sample_flexbuf b (DISCOVERY_TOPIC_BASE @ ''me'') (Some payload) =
       Inr (advertised_calls (disc_callbacks b) ''me'' (omap_put ''tcp'' [1, 2] []))"
    using discovery_roundtrip [OF sample_flexbuf_ok a(1-5) r, of b] unfolding a(6,7)
    by (elim exE conjE) (rule that, assumption, simp only:)
  then show ?thesis unfolding calls by (auto simp: b_def)
qed



end
