(* ===== verification/MQDiscovery_Model.thy ===== *)
theory MQDiscovery_Model
  imports AittDiscovery_Model
begin

text \<open>
  The bookkeeping of MQTT subscribers on the network, \<open>src/MQDiscoveryHandler.cc\<close>: the own
  subscriptions are advertised under the protocol name "MQTT", the peers' are collected from their
  discovery messages, and \<open>CountSubscriber\<close> counts the matches of both.

  The handler refers to the discovery object, so its operations act on the pair of both.
\<close>

record MQDiscoveryHandler =
  mdh_id :: string
  mdh_discovery_cb :: int
  my_subscribe_table :: "(ptr, string) omap"
  remote_subscribe_table :: "(string, string list) omap"

type_synonym mdh_world = "MQDiscoveryHandler \<times> AittDiscovery"

abbreviation (input) MQ_DISCOVERY_CB :: nat where "MQ_DISCOVERY_CB \<equiv> 3"

definition on_discovery :: "(AittDiscovery, 'a) act \<Rightarrow> (mdh_world, 'a) act" where
  "on_discovery = zoom snd (\<lambda>d w. (fst w, d))"

lemma on_discovery_run [act_simps]:
  "on_discovery m w = (case m (snd w) of (r, d) \<Rightarrow> (r, (fst w, d)))"
  by (simp add: on_discovery_def act_simps)

definition MQDiscoveryHandler_ctor :: "string \<Rightarrow> (AittDiscovery, MQDiscoveryHandler) act" where
  "MQDiscoveryHandler_ctor ident =
     bnd (AddDiscoveryCB ''MQTT'' MQ_DISCOVERY_CB)
       (\<lambda>cb. ret \<lparr>mdh_id = ident, mdh_discovery_cb = cb, my_subscribe_table = [],
                  remote_subscribe_table = []\<rparr>)"

definition MQDiscoveryHandler_dtor :: "(mdh_world, unit) act" where
  "MQDiscoveryHandler_dtor =
     (\<lambda>w. tryA (on_discovery (RemoveDiscoveryCB (mdh_discovery_cb (fst w)))) (\<lambda>_. ret ()) w)"

definition topics_fb :: "(ptr, string) omap \<Rightarrow> fb" where
  "topics_fb t = FbVector (map (\<lambda>e. FbString (snd e)) t)"

definition mdh_UpdateDiscoveryMsg :: "mq_env \<Rightarrow> flexbuf \<Rightarrow> (mdh_world, unit) act" where
  "mdh_UpdateDiscoveryMsg E F =
     (\<lambda>w. on_discovery (UpdateDiscoveryMsg E F ''MQTT''
             (fb_finish F (topics_fb (my_subscribe_table (fst w))))) w)"

text \<open>A null message is only dereferenced for a status other than "disconnected".\<close>

definition mdh_DiscoveryMessageCallback ::
  "flexbuf \<Rightarrow> string \<Rightarrow> string \<Rightarrow> byte list option \<Rightarrow> MQDiscoveryHandler \<Rightarrow> MQDiscoveryHandler" where
  "mdh_DiscoveryMessageCallback F ident status msg s =
     (if ident = mdh_id s then s
      else if status = WILL_LEAVE_NETWORK
      then s\<lparr>remote_subscribe_table := omap_del ident (remote_subscribe_table s)\<rparr>
      else s\<lparr>remote_subscribe_table :=
               omap_put ident
                 (map (fb_as_string F) (fb_as_vector F (fb_root F (case msg of None \<Rightarrow> [] | Some b \<Rightarrow> b))))
                 (remote_subscribe_table s)\<rparr>)"

definition mdh_Subscribe :: "mq_env \<Rightarrow> flexbuf \<Rightarrow> ptr \<Rightarrow> string \<Rightarrow> (mdh_world, unit) act" where
  "mdh_Subscribe E F handle topic =
     (\<lambda>(s, d). case map_of (my_subscribe_table s) handle of
          Some _ \<Rightarrow> (Inl (AittException ALREADY), (s, d))
        | None \<Rightarrow> mdh_UpdateDiscoveryMsg E F
                    (s\<lparr>my_subscribe_table := omap_put handle topic (my_subscribe_table s)\<rparr>, d))"

definition mdh_Unsubscribe :: "mq_env \<Rightarrow> flexbuf \<Rightarrow> ptr \<Rightarrow> (mdh_world, unit) act" where
  "mdh_Unsubscribe E F handle =
     (\<lambda>(s, d). case map_of (my_subscribe_table s) handle of
          None \<Rightarrow> (Inl (AittException NO_DATA_ERR), (s, d))
        | Some _ \<Rightarrow> mdh_UpdateDiscoveryMsg E F
                    (s\<lparr>my_subscribe_table := omap_del handle (my_subscribe_table s)\<rparr>, d))"

fun count_matches :: "mq_env \<Rightarrow> string \<Rightarrow> string list \<Rightarrow> (AittDiscovery, nat) act" where
  "count_matches E topic [] = ret 0"
| "count_matches E topic (t # ts) =
     bnd (disc_CompareTopic E t topic) (\<lambda>b.
     bnd (count_matches E topic ts) (\<lambda>n. ret (if b then Suc n else n)))"

definition CountSubscriber :: "mq_env \<Rightarrow> string \<Rightarrow> (mdh_world, nat) act" where
  "CountSubscriber E topic =
     (\<lambda>w. bnd (on_discovery (count_matches E topic (map snd (my_subscribe_table (fst w))))) (\<lambda>n.
          bnd (on_discovery (count_matches E topic (concat (map snd (remote_subscribe_table (fst w)))))) (\<lambda>k.
          ret (n + k))) w)"

section \<open>The advertised topics are the own subscriptions\<close>

text \<open>
  Once the handler has advertised anything, the entry "MQTT" of the discovery map is the encoded
  list of the topics of its table, also when the publication itself fails.
\<close>

definition mdh_ok :: "flexbuf \<Rightarrow> mdh_world \<Rightarrow> bool" where
  "mdh_ok F w \<longleftrightarrow> disc_ok (snd w) \<and> omap_ok (my_subscribe_table (fst w)) \<and>
     omap_ok (remote_subscribe_table (fst w)) \<and>
     (case map_of (discovery_map (snd w)) ''MQTT'' of
        None \<Rightarrow> my_subscribe_table (fst w) = []
      | Some b \<Rightarrow> b = fb_finish F (topics_fb (my_subscribe_table (fst w))))"

lemma UpdateDiscoveryMsg_map:
  "discovery_map (snd (UpdateDiscoveryMsg E F p msg d)) = omap_put p msg (discovery_map d)"
  by (simp add: UpdateDiscoveryMsg_def PublishDiscoveryMsg_def act_simps split: option.split prod.split)

lemma mdh_UpdateDiscoveryMsg_ok:
  assumes "disc_ok d" and "omap_ok (my_subscribe_table s)" and "omap_ok (remote_subscribe_table s)"
  shows "mdh_ok F (snd (mdh_UpdateDiscoveryMsg E F (s, d)))"
proof -
  define msg where "msg = fb_finish F (topics_fb (my_subscribe_table s))"
  have "disc_ok (snd (UpdateDiscoveryMsg E F ''MQTT'' msg d))"
    by (rule preservesD [OF UpdateDiscoveryMsg_ok assms(1)])
  then show ?thesis
    using assms(2,3) UpdateDiscoveryMsg_map [of E F "''MQTT''" msg d]
    by (cases "UpdateDiscoveryMsg E F ''MQTT'' msg d")
       (simp add: mdh_UpdateDiscoveryMsg_def act_simps mdh_ok_def msg_def)
qed

lemma mdh_ok_parts: "mdh_ok F (s, d) \<Longrightarrow>
    disc_ok d \<and> omap_ok (my_subscribe_table s) \<and> omap_ok (remote_subscribe_table s)"
  by (simp add: mdh_ok_def)

lemma mdh_Subscribe_ok: "preserves (mdh_ok F) (mdh_Subscribe E F handle topic)"
proof (rule preservesI)
  fix w assume "mdh_ok F w"
  then show "mdh_ok F (snd (mdh_Subscribe E F handle topic w))"
    by (cases w) (auto simp: mdh_Subscribe_def dest: mdh_ok_parts split: option.split
        intro!: mdh_UpdateDiscoveryMsg_ok)
qed

lemma mdh_Unsubscribe_ok: "preserves (mdh_ok F) (mdh_Unsubscribe E F handle)"
proof (rule preservesI)
  fix w assume "mdh_ok F w"
  then show "mdh_ok F (snd (mdh_Unsubscribe E F handle w))"
    by (cases w) (auto simp: mdh_Unsubscribe_def dest: mdh_ok_parts split: option.split
        intro!: mdh_UpdateDiscoveryMsg_ok)
qed

lemma mdh_DiscoveryMessageCallback_ok:
  "mdh_ok F (s, d) \<Longrightarrow> mdh_ok F (mdh_DiscoveryMessageCallback G ident status msg s, d)"
  by (auto simp: mdh_ok_def mdh_DiscoveryMessageCallback_def split: option.splits)

inductive mdh_step :: "mq_env \<Rightarrow> flexbuf \<Rightarrow> mdh_world \<Rightarrow> mdh_world \<Rightarrow> bool" for E F where
  step_subscribe: "mdh_step E F w (snd (mdh_Subscribe E F handle topic w))"
| step_unsubscribe: "mdh_step E F w (snd (mdh_Unsubscribe E F handle w))"
| step_message: "mdh_step E F (s, d) (mdh_DiscoveryMessageCallback F ident status msg s, d)"

definition mdh_init :: "string \<Rightarrow> mdh_world \<Rightarrow> bool" where
  "mdh_init ident w \<longleftrightarrow> (\<exists>d0. disc_ok d0 \<and> disc_next_id d0 < INT32_MAX \<and> discovery_map d0 = [] \<and>
     MQDiscoveryHandler_ctor ident d0 = (Inr (fst w), snd w))"

lemma disc_ok_add: "disc_ok d \<Longrightarrow> disc_next_id d < INT32_MAX \<Longrightarrow> disc_ok (snd (AddDiscoveryCB p cb d))"
  by (force simp: AddDiscoveryCB_fresh disc_ok_def)

interpretation mdh: invariant_system "mdh_init ident" "mdh_step E F" "mdh_ok F" for ident E F
proof
  fix w assume "mdh_init ident w"
  then show "mdh_ok F w"
    using disc_ok_add [of _ "''MQTT''" MQ_DISCOVERY_CB]
    by (cases w) (auto simp: mdh_init_def MQDiscoveryHandler_ctor_def act_simps mdh_ok_def AddDiscoveryCB_fresh)
next
  fix w v assume ok: "mdh_ok F w" and "mdh_step E F w v"
  from this(2) ok show "mdh_ok F v"
    by cases (auto intro: preservesD [OF mdh_Subscribe_ok] preservesD [OF mdh_Unsubscribe_ok]
        mdh_DiscoveryMessageCallback_ok)
qed

section \<open>Counting\<close>

lemma count_matches_run:
  "disc_mq d \<noteq> None \<Longrightarrow> count_matches E topic ts d = (Inr (length (filter (\<lambda>t. CompareTopic E t topic) ts)), d)"
  by (induction ts) (auto simp: act_simps disc_CompareTopic_def disc_mq_idem)

text \<open>
  After the advertisement of a new peer has been handled, the count of a topic is the number of own
  subscriptions that match, plus those of the peer, plus those of the peers known before.
\<close>

lemma CountSubscriber_after_advertisement:
  assumes "flexbuf_ok F" and "mdh_ok F (s, d)" and "disc_mq d \<noteq> None" and "ident \<noteq> mdh_id s"
    and "map_of (remote_subscribe_table s) ident = None"
    and "s' = mdh_DiscoveryMessageCallback F ident ''connected'' (Some (fb_finish F (topics_fb peer))) s"
  shows "CountSubscriber E topic (s', d) =
     (Inr (length (filter (\<lambda>t. CompareTopic E t topic) (map snd (my_subscribe_table s)))
         + length (filter (\<lambda>t. CompareTopic E t topic) (map snd peer))
         + length (filter (\<lambda>t. CompareTopic E t topic) (concat (map snd (remote_subscribe_table s))))), (s', d))"
proof -
  have "fb_root F (fb_finish F (topics_fb peer)) = topics_fb peer"
    using flexbuf_okD(1) [OF assms(1), of "topics_fb peer"] by (simp add: topics_fb_def comp_def list_all_iff)
  then have t: "map (fb_as_string F) (fb_as_vector F (fb_root F (fb_finish F (topics_fb peer)))) = map snd peer"
    by (simp add: topics_fb_def flexbuf_okD [OF assms(1)] comp_def)
  have put: "length (filter P (concat (map snd (omap_put k v m)))) =
      length (filter P v) + length (filter P (concat (map snd m)))" if "map_of m k = None"
    for P k v and m :: "(string, string list) omap"
    using that by (induction k v m rule: omap_put.induct) (auto split: if_splits)
  show ?thesis
    using assms(3-6) t put [OF assms(5)]
    by (simp add: CountSubscriber_def act_simps count_matches_run mdh_DiscoveryMessageCallback_def
        WILL_LEAVE_NETWORK_def)
qed

section \<open>Properties\<close>

text \<open>C8. What a client advertises under "MQTT" is at every moment the list of topics it is
  subscribed to, in whatever order it subscribes, unsubscribes and hears of its peers, and also
  when publishing the message fails.\<close>

theorem advertised_topics_current:
  assumes "reachable (mdh_init ident) (mdh_step E F) (s, d)"
    and "map_of (discovery_map d) ''MQTT'' = Some blob"
  shows "blob = fb_finish F (FbVector (map (FbString \<circ> snd) (my_subscribe_table s)))"
  using mdh.reachable_inv [OF assms(1)] assms(2) by (simp add: mdh_ok_def topics_fb_def comp_def)

theorem advertised_topics_current_witness:
  "\<exists>s d. reachable (mdh_init ''me'') (mdh_step (plain_env (\<lambda>_ _ _. [])) sample_flexbuf) (s, d) \<and>
     map_of (discovery_map d) ''MQTT'' = Some (fb_finish sample_flexbuf (FbVector [FbString ''t'']))"
proof -
  define E where "E = plain_env (\<lambda>_ _ _. [])"
  define d0 where "d0 = (AittDiscovery_new ''me'')\<lparr>disc_mq := Some MosquittoMQ_init\<rparr>"
  define w where "w = (\<lparr>mdh_id = ''me'', mdh_discovery_cb = 1, my_subscribe_table = [], remote_subscribe_table = []\<rparr>,
     snd (AddDiscoveryCB ''MQTT'' MQ_DISCOVERY_CB d0))"
  have ok: "disc_ok d0 \<and> disc_next_id d0 < INT32_MAX" by (simp add: d0_def AittDiscovery_new_def disc_ok_def)
  then have "mdh_init ''me'' w"
    by (auto simp: mdh_init_def w_def MQDiscoveryHandler_ctor_def act_simps AddDiscoveryCB_fresh
        d0_def AittDiscovery_new_def intro!: exI [of _ d0])
  then have "reachable (mdh_init ''me'') (mdh_step E sample_flexbuf) w" by (rule reachable_init)
  then have r: "reachable (mdh_init ''me'') (mdh_step E sample_flexbuf) (snd (mdh_Subscribe E sample_flexbuf 5 ''t'' w))"
    by (rule reachable_step) (rule step_subscribe)
  define s d where sd: "s = fst (snd (mdh_Subscribe E sample_flexbuf 5 ''t'' w))"
    "d = snd (snd (mdh_Subscribe E sample_flexbuf 5 ''t'' w))"
  have st: "my_subscribe_table s = [(5, ''t'')] \<and> map_of (discovery_map d) ''MQTT'' \<noteq> None"
    by (simp add: sd w_def mdh_Subscribe_def mdh_UpdateDiscoveryMsg_def act_simps UpdateDiscoveryMsg_def
        PublishDiscoveryMsg_def AddDiscoveryCB_def Let_def split: option.split prod.split)
  then obtain blob where b: "map_of (discovery_map d) ''MQTT'' = Some blob" by auto
  from r have "reachable (mdh_init ''me'') (mdh_step E sample_flexbuf) (s, d)" by (simp add: sd)
  from this advertised_topics_current [OF this b] b st show ?thesis by (auto simp: E_def)
qed

end
