(* ===== verification/AES_Model.thy ===== *)
theory AES_Model
  imports Aitt_Types
begin

unbundle bit_operations_syntax

text \<open>
  The encryptors of the secure TCP transport: \<open>modules/tcp/AESEncryptor.cc\<close> and its two
  implementations, on Mbed TLS (which pads and checks the padding in the sources) and on OpenSSL
  (which leaves the padding to the library).  The block ciphers are parameters.

  \<open>Encrypt\<close> and \<open>Decrypt\<close> return the C return value and the contents of the output buffer.
\<close>

abbreviation (input) AITT_TCP_ENCRYPTOR_KEY_LEN :: nat where "AITT_TCP_ENCRYPTOR_KEY_LEN \<equiv> 32"
abbreviation (input) AITT_TCP_ENCRYPTOR_BLOCK_SIZE :: nat where "AITT_TCP_ENCRYPTOR_BLOCK_SIZE \<equiv> 16"
abbreviation (input) AITT_TCP_ENCRYPTOR_IV_LEN :: nat where "AITT_TCP_ENCRYPTOR_IV_LEN \<equiv> 16"

record AESEncryptor =
  aes_key :: "byte list"
  aes_iv :: "byte list"

definition AESEncryptor_new :: AESEncryptor where
  "AESEncryptor_new = \<lparr>aes_key = [], aes_iv = []\<rparr>"

definition aes_Init :: "byte list \<Rightarrow> byte list \<Rightarrow> AESEncryptor \<Rightarrow> AESEncryptor" where
  "aes_Init key iv e =
     e\<lparr>aes_key := take AITT_TCP_ENCRYPTOR_KEY_LEN key @ aes_key e,
       aes_iv := take AITT_TCP_ENCRYPTOR_IV_LEN iv @ aes_iv e\<rparr>"

definition GetCryptogramSize :: "nat \<Rightarrow> nat" where
  "GetCryptogramSize plain_size =
     (plain_size div AITT_TCP_ENCRYPTOR_BLOCK_SIZE + 1) * AITT_TCP_ENCRYPTOR_BLOCK_SIZE"

text \<open>The generator is a stream of random bytes, drawn for key and iv in turn.\<close>

definition GenerateKey :: "(nat \<Rightarrow> byte) \<Rightarrow> byte list \<times> byte list" where
  "GenerateKey gen =
     (map (\<lambda>i. if i < AITT_TCP_ENCRYPTOR_IV_LEN then gen (2 * i) else gen (i + AITT_TCP_ENCRYPTOR_IV_LEN))
        [0..<AITT_TCP_ENCRYPTOR_KEY_LEN],
      map (\<lambda>i. gen (2 * i + 1)) [0..<AITT_TCP_ENCRYPTOR_IV_LEN])"

section \<open>The interface of an encryptor\<close>

text \<open>
  What the TCP framing relies on, for every key state \<open>k\<close> an implementation calls good: the
  cryptogram has the announced size and decrypts to the plain text.
\<close>

locale encryptor =
  fixes good :: "'k \<Rightarrow> bool"
    and enc :: "'k \<Rightarrow> byte list \<Rightarrow> int \<times> byte list"
    and dec :: "'k \<Rightarrow> byte list \<Rightarrow> exn + (int \<times> byte list)"
  assumes enc_size: "good k \<Longrightarrow> length (snd (enc k p)) = GetCryptogramSize (length p)"
    and enc_ret: "good k \<Longrightarrow> fst (enc k p) = int (length (snd (enc k p)))"
    and dec_enc: "good k \<Longrightarrow> \<exists>out. dec k (snd (enc k p)) = Inr (int (length p), out) \<and> take (length p) out = p"
begin

lemma enc_pair: "good k \<Longrightarrow> enc k p = (int (GetCryptogramSize (length p)), snd (enc k p))"
  by (simp add: prod_eq_iff enc_ret enc_size)

lemma enc_nonempty: "good k \<Longrightarrow> snd (enc k p) \<noteq> []"
  using enc_size [of k p] by (auto simp: GetCryptogramSize_def)

lemma enc_inject: "good k \<Longrightarrow> snd (enc k p) = snd (enc k q) \<Longrightarrow> p = q"
  using dec_enc [of k p] dec_enc [of k q] by auto

end

section \<open>Mbed TLS\<close>

text \<open>
  \<open>mbedtls_aes_crypt_cbc\<close> works on whole blocks and keeps their number; what it documents is
  that decryption with the same key and iv undoes encryption.
\<close>

record cbc =
  cbc_encrypt :: "byte list \<Rightarrow> byte list \<Rightarrow> byte list \<Rightarrow> byte list"
  cbc_decrypt :: "byte list \<Rightarrow> byte list \<Rightarrow> byte list \<Rightarrow> byte list"

definition cbc_ok :: "cbc \<Rightarrow> bool" where
  "cbc_ok C \<longleftrightarrow> (\<forall>key iv p. AITT_TCP_ENCRYPTOR_BLOCK_SIZE dvd length p \<longrightarrow>
     length (cbc_encrypt C key iv p) = length p \<and>
     cbc_decrypt C key iv (cbc_encrypt C key iv p) = p)"

definition mbed_padding :: "nat \<Rightarrow> nat" where
  "mbed_padding plaintext_len = AITT_TCP_ENCRYPTOR_BLOCK_SIZE - plaintext_len mod AITT_TCP_ENCRYPTOR_BLOCK_SIZE"

definition mbed_Encrypt :: "cbc \<Rightarrow> AESEncryptor \<Rightarrow> byte list \<Rightarrow> int \<times> byte list" where
  "mbed_Encrypt C e plaintext =
     (if aes_key e = [] then (- 1, [])
      else let padding_len = mbed_padding (length plaintext);
               padding_buffer = plaintext @ replicate padding_len (of_nat padding_len)
           in (int (length plaintext + padding_len),
               cbc_encrypt C (take AITT_TCP_ENCRYPTOR_KEY_LEN (aes_key e)) (aes_iv e) padding_buffer))"

text \<open>
  The loop over the padding reads backwards from the end; a padding byte larger than the buffer
  makes it read before the start.
\<close>

fun padding_matches :: "byte list \<Rightarrow> nat \<Rightarrow> nat \<Rightarrow> exn + bool" where
  "padding_matches [] padding_size n = (if n = 0 then Inr True else Inl (UndefinedBehaviour ''read before the buffer''))"
| "padding_matches (b # bs) padding_size n =
     (if n = 0 then Inr True
      else if unat b \<noteq> padding_size then Inr False
      else padding_matches bs padding_size (n - 1))"

definition mbed_Decrypt :: "cbc \<Rightarrow> AESEncryptor \<Rightarrow> byte list \<Rightarrow> exn + (int \<times> byte list)" where
  "mbed_Decrypt C e ciphertext =
     (if aes_key e = [] then Inr (- 1, [])
      else if ciphertext = [] then Inl (UndefinedBehaviour ''read before the buffer'')
      else let plaintext = cbc_decrypt C (take AITT_TCP_ENCRYPTOR_KEY_LEN (aes_key e)) (aes_iv e) ciphertext;
               padding_size = unat (last plaintext)
           in case padding_matches (rev plaintext) padding_size padding_size of
                Inl u \<Rightarrow> Inl u
              | Inr False \<Rightarrow> Inr (- 1, plaintext)
              | Inr True \<Rightarrow> Inr (int (length ciphertext) - int padding_size, plaintext))"

lemma mbed_padding_bounds: "0 < mbed_padding n \<and> mbed_padding n \<le> 16"
  by (simp add: mbed_padding_def)

lemma mbed_padding_total: "n + mbed_padding n = GetCryptogramSize n"
  unfolding mbed_padding_def GetCryptogramSize_def by presburger

lemma padding_matches_replicate:
  "unat b = k \<Longrightarrow> padding_matches (replicate n b @ r) k n = Inr True"
proof (induction n)
  case 0
  then show ?case by (cases r) simp_all
qed simp

definition mbed_good :: "cbc \<times> AESEncryptor \<Rightarrow> bool" where
  "mbed_good k \<longleftrightarrow> cbc_ok (fst k) \<and> aes_key (snd k) \<noteq> []"

lemma mbed_dec_enc:
  assumes "cbc_ok C" and "aes_key e \<noteq> []"
  shows "mbed_Decrypt C e (snd (mbed_Encrypt C e p)) =
           Inr (int (length p), p @ replicate (mbed_padding (length p)) (of_nat (mbed_padding (length p))))"
proof -
  define n where "n = mbed_padding (length p)"
  define buf where "buf = p @ replicate n (of_nat n :: byte)"
  have n: "0 < n" "n \<le> 16" using mbed_padding_bounds by (simp_all add: n_def)
  have len: "length buf = GetCryptogramSize (length p)"
    by (simp add: buf_def n_def mbed_padding_total)
  then have "16 dvd length buf" by (simp add: GetCryptogramSize_def)
  then have c: "length (cbc_encrypt C k iv buf) = length buf" "cbc_decrypt C k iv (cbc_encrypt C k iv buf) = buf" for k iv
    using assms(1) by (simp_all add: cbc_ok_def)
  have u: "unat (of_nat n :: byte) = n" using n by (simp add: unat_of_nat)
  have l: "last buf = of_nat n" using n by (simp add: buf_def)
  have "padding_matches (rev buf) n n = Inr True"
    unfolding buf_def using padding_matches_replicate [OF u] by simp
  moreover have "length buf = length p + n" by (simp add: buf_def)
  moreover have "cbc_encrypt C k iv buf \<noteq> []" for k iv using c(1) [of k iv] len by (auto simp: GetCryptogramSize_def)
  ultimately show ?thesis
    using assms(2) c l u by (simp add: mbed_Decrypt_def mbed_Encrypt_def Let_def n_def [symmetric] buf_def [symmetric])
qed

interpretation mbed: encryptor mbed_good "\<lambda>k. mbed_Encrypt (fst k) (snd k)" "\<lambda>k. mbed_Decrypt (fst k) (snd k)"
proof
  fix k :: "cbc \<times> AESEncryptor" and p :: "byte list"
  assume good: "mbed_good k"
  then have k: "cbc_ok (fst k)" "aes_key (snd k) \<noteq> []" by (simp_all add: mbed_good_def)
  have d: "16 dvd length p + mbed_padding (length p)" by (simp add: mbed_padding_total GetCryptogramSize_def)
  show "length (snd (mbed_Encrypt (fst k) (snd k) p)) = GetCryptogramSize (length p)"
    using k d by (simp add: mbed_Encrypt_def Let_def cbc_ok_def mbed_padding_total)
  show "fst (mbed_Encrypt (fst k) (snd k) p) = int (length (snd (mbed_Encrypt (fst k) (snd k) p)))"
    using k d by (simp add: mbed_Encrypt_def Let_def cbc_ok_def)
  show "\<exists>out. mbed_Decrypt (fst k) (snd k) (snd (mbed_Encrypt (fst k) (snd k) p)) = Inr (int (length p), out) \<and>
      take (length p) out = p"
    using mbed_dec_enc [OF k] by simp
qed

section \<open>OpenSSL\<close>

text \<open>
  The EVP calls: whether a context can be made and initialised, and what \<open>Update\<close> and
  \<open>Final\<close> write, or nothing when they fail.
\<close>

record evp =
  evp_ctx_new :: bool
  evp_init :: "byte list \<Rightarrow> byte list \<Rightarrow> bool"
  evp_encrypt_update :: "byte list \<Rightarrow> byte list \<Rightarrow> byte list \<Rightarrow> byte list option"
  evp_encrypt_final :: "byte list \<Rightarrow> byte list \<Rightarrow> byte list \<Rightarrow> byte list option"
  evp_decrypt_update :: "byte list \<Rightarrow> byte list \<Rightarrow> byte list \<Rightarrow> byte list option"
  evp_decrypt_final :: "byte list \<Rightarrow> byte list \<Rightarrow> byte list \<Rightarrow> byte list option"

definition ssl_Encrypt :: "evp \<Rightarrow> AESEncryptor \<Rightarrow> byte list \<Rightarrow> int \<times> byte list" where
  "ssl_Encrypt V e plaintext =
     (if aes_key e = [] then (0, [])
      else if \<not> evp_ctx_new V then (- 1, [])
      else if \<not> evp_init V (aes_key e) (aes_iv e) then (- 1, [])
      else case evp_encrypt_update V (aes_key e) (aes_iv e) plaintext of
             None \<Rightarrow> (- 1, [])
           | Some c \<Rightarrow> (case evp_encrypt_final V (aes_key e) (aes_iv e) plaintext of
               None \<Rightarrow> (- 1, c)
             | Some f \<Rightarrow> (int (length c) + int (length f), c @ f)))"

definition ssl_Decrypt :: "evp \<Rightarrow> AESEncryptor \<Rightarrow> byte list \<Rightarrow> exn + (int \<times> byte list)" where
  "ssl_Decrypt V e ciphertext =
     Inr (if aes_key e = [] then (0, [])
      else if \<not> evp_ctx_new V then (- 1, [])
      else if \<not> evp_init V (aes_key e) (aes_iv e) then (- 1, [])
      else case evp_decrypt_update V (aes_key e) (aes_iv e) ciphertext of
             None \<Rightarrow> (- 1, [])
           | Some p \<Rightarrow> (case evp_decrypt_final V (aes_key e) (aes_iv e) ciphertext of
               None \<Rightarrow> (- 1, p)
             | Some f \<Rightarrow> (int (length p) + int (length f), p @ f)))"

text \<open>
  What the EVP documentation promises for AES-256-CBC with its default padding, when no call
  fails: the cryptogram fills the next whole block and decrypts to the plain text.
\<close>

definition evp_ok :: "evp \<Rightarrow> bool" where
  "evp_ok V \<longleftrightarrow> evp_ctx_new V \<and> (\<forall>key iv. evp_init V key iv) \<and>
     (\<forall>key iv p. \<exists>c f q g.
        evp_encrypt_update V key iv p = Some c \<and> evp_encrypt_final V key iv p = Some f \<and>
        length c + length f = GetCryptogramSize (length p) \<and>
        evp_decrypt_update V key iv (c @ f) = Some q \<and> evp_decrypt_final V key iv (c @ f) = Some g \<and>
        q @ g = p)"

definition ssl_good :: "evp \<times> AESEncryptor \<Rightarrow> bool" where
  "ssl_good k \<longleftrightarrow> evp_ok (fst k) \<and> aes_key (snd k) \<noteq> []"

interpretation ssl: encryptor ssl_good "\<lambda>k. ssl_Encrypt (fst k) (snd k)" "\<lambda>k. ssl_Decrypt (fst k) (snd k)"
proof
  fix k :: "evp \<times> AESEncryptor" and p :: "byte list"
  assume good: "ssl_good k"
  then have k: "aes_key (snd k) \<noteq> []" "evp_ctx_new (fst k)" "\<And>key iv. evp_init (fst k) key iv"
    by (simp_all add: ssl_good_def evp_ok_def)
  from good obtain c f q g where s:
    "evp_encrypt_update (fst k) (aes_key (snd k)) (aes_iv (snd k)) p = Some c"
    "evp_encrypt_final (fst k) (aes_key (snd k)) (aes_iv (snd k)) p = Some f"
    "length c + length f = GetCryptogramSize (length p)"
    "evp_decrypt_update (fst k) (aes_key (snd k)) (aes_iv (snd k)) (c @ f) = Some q"
    "evp_decrypt_final (fst k) (aes_key (snd k)) (aes_iv (snd k)) (c @ f) = Some g" "q @ g = p"
    unfolding ssl_good_def evp_ok_def by blast
  show "length (snd (ssl_Encrypt (fst k) (snd k) p)) = GetCryptogramSize (length p)"
    using k s by (simp add: ssl_Encrypt_def)
  show "fst (ssl_Encrypt (fst k) (snd k) p) = int (length (snd (ssl_Encrypt (fst k) (snd k) p)))"
    using k s by (simp add: ssl_Encrypt_def)
  show "\<exists>out. ssl_Decrypt (fst k) (snd k) (snd (ssl_Encrypt (fst k) (snd k) p)) = Inr (int (length p), out) \<and>
      take (length p) out = p"
    using k s by (auto simp: ssl_Encrypt_def ssl_Decrypt_def)
qed

section \<open>A cipher with these laws\<close>

definition xor_cbc :: cbc where
  "xor_cbc = \<lparr>cbc_encrypt = (\<lambda>key iv p. map (\<lambda>b. b XOR hd key) p),
              cbc_decrypt = (\<lambda>key iv c. map (\<lambda>b. b XOR hd key) c)\<rparr>"

lemma xor_cbc_ok: "cbc_ok xor_cbc"
  by (simp add: cbc_ok_def xor_cbc_def comp_def xor.assoc)

section \<open>Properties\<close>



text \<open>\<open>GenerateKey\<close> fills the whole key and the whole iv, and no random number is used for
  two bytes: 48 independent draws make the 32 bytes of the key and the 16 of the iv.\<close>

lemma GenerateKey_fills:
  "length (fst (GenerateKey gen)) = 32 \<and> length (snd (GenerateKey gen)) = 16 \<and>
   (\<exists>idx. length idx = 48 \<and> distinct idx \<and> set idx = {0..<48} \<and>
      fst (GenerateKey gen) @ snd (GenerateKey gen) = map gen idx)"
proof -
  define idx :: "nat list" where "idx = map (\<lambda>i. if i < 16 then 2 * i else i + 16) [0..<32] @ map (\<lambda>i. 2 * i + 1) [0..<16]"
  have sorted: "sort idx = [0..<48]" unfolding idx_def by code_simp
  then have "distinct (sort idx)" "set (sort idx) = {0..<48}" by simp_all
  then have "distinct idx" "set idx = {0..<48}" by simp_all
  moreover have "fst (GenerateKey gen) @ snd (GenerateKey gen) = map gen idx"
    by (simp add: GenerateKey_def idx_def)
  ultimately show ?thesis by (intro conjI exI [of _ idx]) (simp_all add: GenerateKey_def idx_def)
qed

end
