(* ===== verification/TCP_Model.thy ===== *)
theory TCP_Model
  imports AES_Model
begin

text \<open>
  The connection objects of the TCP transport, \<open>modules/tcp/TCP.cc\<close> and
  \<open>modules/tcp/TCPServer.cc\<close>: sockets and their descriptors, and the framing of messages on
  the byte stream (a 4-byte length in front of the data, both encrypted on a secure connection).

  The operating system is a parameter: system calls return what \<open>os_rc\<close> says, which may depend
  on all calls before.  What \<open>send\<close> and \<open>recv\<close> do is a list of events: \<open>send\<close> takes as
  many bytes as the event allows, \<open>recv\<close> returns bytes of the next segment that has arrived.
  When the events run out the call still blocks, and the result is \<open>None\<close>.
\<close>

section \<open>System calls\<close>

type_synonym port = "16 word"

datatype syscall =
    S_socket
  | S_calloc
  | S_inet_pton string
  | S_connect int string port
  | S_nodelay int
  | S_reuseaddr int
  | S_bind int string port
  | S_getsockname int
  | S_listen int int
  | S_accept int
  | S_free
  | S_close int

record os =
  os_rc :: "syscall list \<Rightarrow> syscall \<Rightarrow> int"
  os_sockname :: "syscall list \<Rightarrow> int \<Rightarrow> port"
  os_peername :: "syscall list \<Rightarrow> int \<Rightarrow> string \<times> port"

type_synonym trace = "syscall list"

definition sys :: "os \<Rightarrow> syscall \<Rightarrow> (trace, int) act" where
  "sys S c = (\<lambda>t. (Inr (os_rc S t c), t @ [c]))"

lemma sys_run [act_simps]: "sys S c t = (Inr (os_rc S t c), t @ [c])"
  by (simp add: sys_def)

section \<open>Connecting\<close>

record ConnectInfo =
  ci_port :: port
  ci_num_of_cb :: int
  ci_secure :: bool
  ci_key :: "byte list"
  ci_iv :: "byte list"

definition ConnectInfo_new :: ConnectInfo where
  "ConnectInfo_new =
     \<lparr>ci_port = 0, ci_num_of_cb = 0, ci_secure = False,
      ci_key = replicate AITT_TCP_ENCRYPTOR_KEY_LEN 0, ci_iv = replicate AITT_TCP_ENCRYPTOR_IV_LEN 0\<rparr>"

record TCP =
  tcp_handle :: int
  tcp_addr :: "string \<times> port"
  tcp_secure :: bool
  tcp_crypto :: AESEncryptor

definition SetupOptions :: "os \<Rightarrow> ConnectInfo \<Rightarrow> TCP \<Rightarrow> (trace, TCP) act" where
  "SetupOptions S info tcp =
     sq (sys S (S_nodelay (tcp_handle tcp)))
        (ret (if ci_secure info
              then tcp\<lparr>tcp_secure := True, tcp_crypto := aes_Init (ci_key info) (ci_iv info) (tcp_crypto tcp)\<rparr>
              else tcp))"

definition TCP_fail :: "os \<Rightarrow> int \<Rightarrow> (trace, 'a) act" where
  "TCP_fail S h =
     sq (sys S S_free)
     (sq (whenA (0 \<le> h) (sq (sys S (S_close h)) (ret ())))
         (raise (RuntimeError ''TCP::TCP() Fail'')))"

definition TCP_connect :: "os \<Rightarrow> string \<Rightarrow> ConnectInfo \<Rightarrow> (trace, TCP) act" where
  "TCP_connect S host info =
     (if ci_port info = 0 then TCP_fail S (- 1)
      else bnd (sys S S_socket) (\<lambda>h.
        if h < 0 then TCP_fail S h
        else bnd (sys S S_calloc) (\<lambda>a.
          if a = 0 then TCP_fail S h
          else bnd (sys S (S_inet_pton host)) (\<lambda>p.
            if p = 0 then TCP_fail S h
            else bnd (sys S (S_connect h host (ci_port info))) (\<lambda>r.
              if r < 0 then TCP_fail S h
              else SetupOptions S info
                     \<lparr>tcp_handle = h, tcp_addr = (host, ci_port info), tcp_secure = False,
                      tcp_crypto = AESEncryptor_new\<rparr>)))))"

definition TCP_accepted :: "os \<Rightarrow> int \<Rightarrow> string \<times> port \<Rightarrow> ConnectInfo \<Rightarrow> (trace, TCP) act" where
  "TCP_accepted S handle addr info =
     SetupOptions S info
       \<lparr>tcp_handle = handle, tcp_addr = addr, tcp_secure = False, tcp_crypto = AESEncryptor_new\<rparr>"

definition TCP_dtor :: "os \<Rightarrow> TCP \<Rightarrow> (trace, unit) act" where
  "TCP_dtor S tcp =
     whenA (0 \<le> tcp_handle tcp)
       (sq (sys S S_free) (sq (sys S (S_close (tcp_handle tcp))) (ret ())))"

definition TCP_GetPort :: "os \<Rightarrow> TCP \<Rightarrow> (trace, port) act" where
  "TCP_GetPort S tcp =
     bnd (sys S (S_getsockname (tcp_handle tcp))) (\<lambda>r.
     if r < 0 then raise (RuntimeError ''getsockname() Fail'')
     else (\<lambda>t. (Inr (os_sockname S t (tcp_handle tcp)), t)))"

section \<open>The server\<close>

record TCPServer =
  srv_handle :: int
  srv_secure :: bool
  srv_key :: "byte list"
  srv_iv :: "byte list"

abbreviation (input) BACKLOG :: int where "BACKLOG \<equiv> 10"

definition Server_fail :: "os \<Rightarrow> int \<Rightarrow> (trace, 'a) act" where
  "Server_fail S h =
     sq (sys S S_free)
     (sq (whenA (0 \<le> h) (sq (sys S (S_close h)) (ret ())))
         (raise (RuntimeError ''Server'')))"

definition Server_ctor ::
  "os \<Rightarrow> (nat \<Rightarrow> byte) \<Rightarrow> string \<Rightarrow> port \<Rightarrow> bool \<Rightarrow> (trace, TCPServer \<times> port) act" where
  "Server_ctor S gen host port is_secure =
     bnd (sys S S_socket) (\<lambda>h.
     if h < 0 then Server_fail S h
     else bnd (sys S S_calloc) (\<lambda>a.
     if a = 0 then Server_fail S h
     else bnd (sys S (S_inet_pton host)) (\<lambda>p.
     if p = 0 then Server_fail S h
     else bnd (sys S (S_reuseaddr h)) (\<lambda>r.
     if r < 0 then Server_fail S h
     else bnd (sys S (S_bind h host port)) (\<lambda>r.
     if r < 0 then Server_fail S h
     else bnd (if port = 0
               then bnd (sys S (S_getsockname h)) (\<lambda>r.
                    if r < 0 then ret None else (\<lambda>t. (Inr (Some (os_sockname S t h)), t)))
               else ret (Some port)) (\<lambda>np.
     case np of None \<Rightarrow> Server_fail S h
     | Some port' \<Rightarrow> bnd (sys S (S_listen h BACKLOG)) (\<lambda>r.
     if r < 0 then Server_fail S h
     else ret (\<lparr>srv_handle = h, srv_secure = is_secure,
                srv_key = (if is_secure then fst (GenerateKey gen) else replicate AITT_TCP_ENCRYPTOR_KEY_LEN 0),
                srv_iv = (if is_secure then snd (GenerateKey gen) else replicate AITT_TCP_ENCRYPTOR_IV_LEN 0)\<rparr>,
               port'))))))))"

definition Server_dtor :: "os \<Rightarrow> TCPServer \<Rightarrow> (trace, unit) act" where
  "Server_dtor S srv =
     whenA (0 \<le> srv_handle srv)
       (sq (sys S S_free) (sq (sys S (S_close (srv_handle srv))) (ret ())))"

definition AcceptPeer :: "os \<Rightarrow> TCPServer \<Rightarrow> (trace, TCP) act" where
  "AcceptPeer S srv =
     bnd (sys S S_calloc) (\<lambda>a.
     if a = 0 then raise (RuntimeError ''calloc'')
     else bnd (sys S (S_accept (srv_handle srv))) (\<lambda>h.
     if h < 0 then sq (sys S S_free) (raise (RuntimeError ''accept''))
     else bnd (rd (\<lambda>t. os_peername S t h)) (\<lambda>addr.
          TCP_accepted S h addr
            (if srv_secure srv
             then ConnectInfo_new\<lparr>ci_secure := True, ci_key := srv_key srv, ci_iv := srv_iv srv\<rparr>
             else ConnectInfo_new))))"

definition Server_GetPort :: "os \<Rightarrow> TCPServer \<Rightarrow> (trace, port) act" where
  "Server_GetPort S srv =
     bnd (sys S (S_getsockname (srv_handle srv))) (\<lambda>r.
     if r < 0 then raise (RuntimeError ''getsockname'')
     else (\<lambda>t. (Inr (os_sockname S t (srv_handle srv)), t)))"

section \<open>Bytes on the wire\<close>

datatype send_ev = Sent nat | SendFail
datatype recv_ev = Chunk "byte list" | RecvFail

type_synonym tx = "byte list \<times> send_ev list"

text \<open>The bytes handed to the network so far, and what happens to the next calls of \<open>send\<close>.\<close>

fun Send_loop :: "byte list \<Rightarrow> byte list \<Rightarrow> send_ev list \<Rightarrow> ((exn + unit) \<times> tx) option" where
  "Send_loop [] out evs = Some (Inr (), (out, evs))"
| "Send_loop (d # ds) out [] = None"
| "Send_loop (d # ds) out (SendFail # evs) = Some (Inl (RuntimeError ''send() Fail''), (out, evs))"
| "Send_loop (d # ds) out (Sent k # evs) = Send_loop (drop k (d # ds)) (out @ take k (d # ds)) evs"

definition TCP_Send :: "byte list \<Rightarrow> tx \<Rightarrow> ((exn + int) \<times> tx) option" where
  "TCP_Send data t =
     map_option (map_prod (map_sum id (\<lambda>_. int (length data))) id) (Send_loop data (fst t) (snd t))"

text \<open>Two calls of \<open>Send\<close> in a row; an exception ends the sequence.\<close>

definition send_seq :: "byte list \<Rightarrow> byte list \<Rightarrow> tx \<Rightarrow> ((exn + unit) \<times> tx) option" where
  "send_seq a b t =
     (case TCP_Send a t of
        None \<Rightarrow> None
      | Some (Inl e, u) \<Rightarrow> Some (Inl e, u)
      | Some (Inr n, u) \<Rightarrow> map_option (map_prod (map_sum id (\<lambda>_. ())) id) (TCP_Send b u))"

definition fixed_size :: "byte list \<Rightarrow> 32 word" where
  "fixed_size data = (if data = [] then word_of_int INT32_MAX else of_nat (length data))"

definition SendSizedDataNormal :: "byte list \<Rightarrow> tx \<Rightarrow> ((exn + unit) \<times> tx) option" where
  "SendSizedDataNormal data t = send_seq (int32_bytes (fixed_size data)) data t"

text \<open>The lengths \<open>Encrypt\<close> returns are used as they are, also when it failed.\<close>

definition SendSizedDataSecure ::
  "(byte list \<Rightarrow> int \<times> byte list) \<Rightarrow> byte list \<Rightarrow> tx \<Rightarrow> ((exn + unit) \<times> tx) option" where
  "SendSizedDataSecure Encrypt data t =
     (if data \<noteq> [] then
        (case Encrypt data of (data_len, data_buf) \<Rightarrow>
         case Encrypt (int32_bytes (word_of_int data_len)) of (size_len, size_buf) \<Rightarrow>
           send_seq (take (nat size_len) size_buf) (take (nat data_len) data_buf) t)
      else
        (case Encrypt (int32_bytes (fixed_size data)) of (size_len, size_buf) \<Rightarrow>
           send_seq (take (nat size_len) size_buf) [] t))"

definition SendSizedData ::
  "(byte list \<Rightarrow> int \<times> byte list) \<Rightarrow> bool \<Rightarrow> byte list \<Rightarrow> int \<Rightarrow> tx \<Rightarrow> ((exn + unit) \<times> tx) option" where
  "SendSizedData Encrypt secure data data_size t =
     (if data_size < 0 then Some (Inr (), t)
      else if secure then SendSizedDataSecure Encrypt (take (nat data_size) data) t
      else SendSizedDataNormal (take (nat data_size) data) t)"

text \<open>A segment without bytes is the return value 0 of \<open>recv\<close>: the peer has closed.\<close>

abbreviation (input) ENOTCONN :: int where "ENOTCONN \<equiv> 107"

fun Recv_loop :: "recv_ev list \<Rightarrow> nat \<Rightarrow> byte list \<Rightarrow> (int \<times> byte list \<times> recv_ev list) option" where
  "Recv_loop evs 0 acc = Some (int (length acc), acc, evs)"
| "Recv_loop [] (Suc n) acc = None"
| "Recv_loop (RecvFail # evs) (Suc n) acc = Some (- 1, acc, evs)"
| "Recv_loop (Chunk bs # evs) (Suc n) acc =
     (if bs = [] then Some (- ENOTCONN, acc, evs)
      else if length bs \<le> Suc n then Recv_loop evs (Suc n - length bs) (acc @ bs)
      else Some (int (length acc) + int (Suc n), acc @ take (Suc n) bs, Chunk (drop (Suc n) bs) # evs))"

definition TCP_Recv :: "recv_ev list \<Rightarrow> int \<Rightarrow> (int \<times> byte list \<times> recv_ev list) option" where
  "TCP_Recv evs data_size = Recv_loop evs (nat data_size) []"

text \<open>A block from \<open>malloc\<close> holds what the memory held, where nothing was received.\<close>

definition filled :: "(nat \<Rightarrow> byte) \<Rightarrow> nat \<Rightarrow> byte list \<Rightarrow> byte list" where
  "filled mem n bs = bs @ map mem [length bs..<n]"

definition RecvSizedDataNormal ::
  "(nat \<Rightarrow> byte) \<Rightarrow> recv_ev list \<Rightarrow> (int \<times> byte list option \<times> recv_ev list) option" where
  "RecvSizedDataNormal mem evs =
     (case TCP_Recv evs 4 of
        None \<Rightarrow> None
      | Some (result, buf, evs1) \<Rightarrow>
          if result < 0 then Some (result, None, evs1)
          else let data_len = sint (bytes_int32 buf) in
            if data_len = INT32_MAX then Some (0, None, evs1)
            else if AITT_MESSAGE_MAX < data_len then Some (- 1, None, evs1)
            else (case TCP_Recv evs1 data_len of
                    None \<Rightarrow> None
                  | Some (_, data_buf, evs2) \<Rightarrow>
                      if data_len < 0 then Some (data_len, None, evs2)
                      else Some (data_len, Some (filled mem (nat data_len) data_buf), evs2)))"

definition RecvSizedDataSecure ::
  "(nat \<Rightarrow> byte) \<Rightarrow> (byte list \<Rightarrow> exn + (int \<times> byte list)) \<Rightarrow> recv_ev list \<Rightarrow>
   ((exn + int \<times> byte list option) \<times> recv_ev list) option" where
  "RecvSizedDataSecure mem Decrypt evs =
     (case TCP_Recv evs (int (GetCryptogramSize 4)) of
        None \<Rightarrow> None
      | Some (result, cipher_size_buf, evs1) \<Rightarrow>
          if result < 0 then Some (Inr (result, None), evs1)
          else (case Decrypt cipher_size_buf of
            Inl e \<Rightarrow> Some (Inl e, evs1)
          | Inr (_, plain_size_buf) \<Rightarrow>
              let cipher_data_len = sint (bytes_int32 (filled mem 4 plain_size_buf)) in
              if cipher_data_len = INT32_MAX then Some (Inr (0, None), evs1)
              else if AITT_MESSAGE_MAX < cipher_data_len then Some (Inr (- 1, None), evs1)
              else if cipher_data_len < 0 then Some (Inl (UndefinedBehaviour ''negative size''), evs1)
              else (case TCP_Recv evs1 cipher_data_len of
                      None \<Rightarrow> None
                    | Some (_, cipher_data_buf, evs2) \<Rightarrow>
                        (case Decrypt (filled mem (nat cipher_data_len) cipher_data_buf) of
                           Inl e \<Rightarrow> Some (Inl e, evs2)
                         | Inr (result, data_buf) \<Rightarrow>
                             if result < 0 then Some (Inr (result, None), evs2)
                             else Some (Inr (result, Some data_buf), evs2)))))"

definition RecvSizedData ::
  "(nat \<Rightarrow> byte) \<Rightarrow> (byte list \<Rightarrow> exn + (int \<times> byte list)) \<Rightarrow> bool \<Rightarrow> recv_ev list \<Rightarrow>
   ((exn + int \<times> byte list option) \<times> recv_ev list) option" where
  "RecvSizedData mem Decrypt secure evs =
     (if secure then RecvSizedDataSecure mem Decrypt evs
      else map_option (\<lambda>(r, d, evs'). (Inr (r, d), evs')) (RecvSizedDataNormal mem evs))"

section \<open>Sending\<close>

lemma Send_loop_out:
  "Send_loop data out evs = Some (Inr (), (out', evs')) \<Longrightarrow> out' = out @ data"
  by (induction data out evs rule: Send_loop.induct) auto

lemma Send_loop_prefix:
  "Send_loop data out evs = Some (r, (out', evs')) \<Longrightarrow> \<exists>n. out' = out @ take n data"
proof (induction data out evs rule: Send_loop.induct)
  case (4 d ds out k evs)
  then obtain n where "out' = (out @ take k (d # ds)) @ take n (drop k (d # ds))" by auto
  then have "out' = out @ take (k + n) (d # ds)" by (simp only: take_add append.assoc)
  then show ?case by blast
qed auto

text \<open>Each call that takes a byte brings the loop nearer to its end.\<close>

lemma Send_loop_completes:
  "length data \<le> length evs \<Longrightarrow> \<forall>e \<in> set evs. \<exists>k. e = Sent (Suc k) \<Longrightarrow>
   \<exists>evs'. Send_loop data out evs = Some (Inr (), (out @ data, evs'))"
proof (induction data out evs rule: Send_loop.induct)
  case (4 d ds out k evs)
  then have "0 < k" by auto
  then have "length (drop k (d # ds)) \<le> length evs" using 4 by simp
  with 4 show ?case by auto
qed auto

lemma send_seq_out:
  "send_seq a b t = Some (Inr (), u) \<Longrightarrow> fst u = fst t @ a @ b"
  by (cases t; cases u)
     (auto simp: send_seq_def TCP_Send_def map_sum_def split: option.splits sum.splits dest!: Send_loop_out)

section \<open>Receiving\<close>

fun chunk_bytes :: "recv_ev \<Rightarrow> byte list" where
  "chunk_bytes (Chunk bs) = bs"
| "chunk_bytes RecvFail = []"

definition arrived :: "recv_ev list \<Rightarrow> byte list" where
  "arrived evs = concat (map chunk_bytes evs)"

definition healthy :: "recv_ev list \<Rightarrow> bool" where
  "healthy evs \<longleftrightarrow> list_all (\<lambda>e. chunk_bytes e \<noteq> []) evs"

lemma Recv_loop_exact:
  "healthy evs \<Longrightarrow> n \<le> length (arrived evs) \<Longrightarrow>
   \<exists>evs'. Recv_loop evs n acc = Some (int (length acc) + int n, acc @ take n (arrived evs), evs') \<and>
          healthy evs' \<and> arrived evs' = drop n (arrived evs)"
proof (induction evs n acc rule: Recv_loop.induct)
  case (4 bs evs n acc)
  show ?case
  proof (cases "length bs \<le> Suc n")
    case True
    with 4 show ?thesis by (auto simp: healthy_def arrived_def of_nat_diff)
  next
    case False
    with 4 show ?thesis by (auto simp: healthy_def arrived_def)
  qed
qed (auto simp: healthy_def arrived_def)

lemma TCP_Recv_exact:
  assumes "healthy evs" and "arrived evs = bs @ rest"
  shows "\<exists>evs'. TCP_Recv evs (int (length bs)) = Some (int (length bs), bs, evs') \<and>
          healthy evs' \<and> arrived evs' = rest"
  using Recv_loop_exact [OF assms(1), of "length bs" "[]"] assms(2) by (simp add: TCP_Recv_def)

lemma filled_full [simp]: "length bs = n \<Longrightarrow> filled mem n bs = bs"
  by (simp add: filled_def)

lemma filled_more: "n \<le> length bs \<Longrightarrow> filled mem n bs = bs"
  by (simp add: filled_def)

section \<open>Frames\<close>

lemma sint_small: "i \<le> INT32_MAX \<Longrightarrow> 0 \<le> i \<Longrightarrow> sint (word_of_int i :: 32 word) = i"
  by (simp add: sint_sbintrunc' signed_take_bit_int_eq_self)

lemma sint_fixed_size:
  assumes "int (length data) \<le> AITT_MESSAGE_MAX"
  shows "sint (fixed_size data) = (if data = [] then INT32_MAX else int (length data))"
  using assms sint_small [of "int (length data)"] sint_small [of INT32_MAX] by (simp add: fixed_size_def)

definition normal_frame :: "byte list \<Rightarrow> byte list" where
  "normal_frame data = int32_bytes (fixed_size data) @ data"

lemma RecvSizedDataNormal_frame:
  assumes "healthy evs" and "arrived evs = normal_frame data @ rest" and "int (length data) \<le> AITT_MESSAGE_MAX"
  shows "\<exists>evs'. RecvSizedDataNormal mem evs =
            Some (int (length data), if data = [] then None else Some data, evs') \<and>
            healthy evs' \<and> arrived evs' = rest"
proof -
  from TCP_Recv_exact [OF assms(1), of "int32_bytes (fixed_size data)" "data @ rest"] assms(2)
  obtain evs1 where h: "TCP_Recv evs 4 = Some (4, int32_bytes (fixed_size data), evs1)"
    "healthy evs1" "arrived evs1 = data @ rest" by (auto simp: normal_frame_def)
  from TCP_Recv_exact [OF h(2,3)] obtain evs2 where
    d: "TCP_Recv evs1 (int (length data)) = Some (int (length data), data, evs2)" "healthy evs2" "arrived evs2 = rest"
    by auto
  have n: "sint (bytes_int32 (int32_bytes (fixed_size data))) = (if data = [] then INT32_MAX else int (length data))"
    using bytes_int32_int32_bytes [of "fixed_size data" "[]"] sint_fixed_size [OF assms(3)] by simp
  show ?thesis
  proof (cases "data = []")
    case True
    with h n show ?thesis by (simp add: RecvSizedDataNormal_def)
  next
    case False
    with h d n assms(3) show ?thesis by (simp add: RecvSizedDataNormal_def Let_def)
  qed
qed

text \<open>On a secure connection the receiver's limit applies to the cryptogram.\<close>

definition fits :: "bool \<Rightarrow> byte list \<Rightarrow> bool" where
  "fits secure data \<longleftrightarrow>
     int (if secure then GetCryptogramSize (length data) else length data) \<le> AITT_MESSAGE_MAX"

definition secure_frame :: "(byte list \<Rightarrow> int \<times> byte list) \<Rightarrow> byte list \<Rightarrow> byte list" where
  "secure_frame Encrypt data =
     (if data = [] then snd (Encrypt (int32_bytes (fixed_size data)))
      else snd (Encrypt (int32_bytes (of_nat (GetCryptogramSize (length data))))) @ snd (Encrypt data))"

lemma GetCryptogramSize_pos: "length p < GetCryptogramSize (length p) \<and> 16 \<le> GetCryptogramSize (length p)"
  using mbed_padding_total [of "length p"] mbed_padding_bounds [of "length p"]
  by (simp add: GetCryptogramSize_def)

context encryptor
begin

lemma header_decrypts:
  assumes "good k" and "healthy evs" and "arrived evs = snd (enc k (int32_bytes w)) @ rest"
  shows "\<exists>evs1 n out. TCP_Recv evs (int (GetCryptogramSize 4)) =
              Some (int (GetCryptogramSize 4), snd (enc k (int32_bytes w)), evs1) \<and>
            healthy evs1 \<and> arrived evs1 = rest \<and>
            dec k (snd (enc k (int32_bytes w))) = Inr (n, out) \<and>
            bytes_int32 (filled mem 4 out) = w"
proof -
  have len: "length (snd (enc k (int32_bytes w))) = GetCryptogramSize 4" using enc_size [OF assms(1)] by simp
  obtain out where o: "dec k (snd (enc k (int32_bytes w))) = Inr (4, out)" "take 4 out = int32_bytes w"
    using dec_enc [OF assms(1), of "int32_bytes w"] by auto
  then have "out = int32_bytes w @ drop 4 out" by (metis append_take_drop_id)
  moreover from this have "4 \<le> length out" by (metis length_append length_int32_bytes le_add1)
  ultimately have "bytes_int32 (filled mem 4 out) = w"
    by (metis filled_more bytes_int32_int32_bytes)
  then show ?thesis
    using TCP_Recv_exact [OF assms(2,3)] len o(1) by auto
qed

lemma SendSizedDataSecure_out:
  assumes "good k" and "SendSizedDataSecure (enc k) data t = Some (Inr (), u)"
  shows "fst u = fst t @ secure_frame (enc k) data"
proof (cases "data = []")
  case True
  obtain h where h: "enc k (int32_bytes (fixed_size [])) = (int (length h), h)"
    using enc_ret [OF assms(1)] by (metis prod.collapse)
  from assms(2) True h have "send_seq h [] t = Some (Inr (), u)"
    by (simp add: SendSizedDataSecure_def)
  with True h show ?thesis by (auto simp: secure_frame_def dest!: send_seq_out)
next
  case False
  have d: "enc k p = (int (length (snd (enc k p))), snd (enc k p))" for p
    using enc_ret [OF assms(1)] by (simp add: prod_eq_iff)
  obtain c where c: "enc k data = (int (GetCryptogramSize (length data)), c)" "length c = GetCryptogramSize (length data)"
    using enc_pair [OF assms(1), of data] enc_size [OF assms(1), of data] by (cases "enc k data") auto
  obtain h where h: "enc k (int32_bytes (of_nat (GetCryptogramSize (length data)))) = (int (length h), h)"
    using d by metis
  from assms(2) False c h have "send_seq h c t = Some (Inr (), u)"
    by (simp add: SendSizedDataSecure_def)
  with False c h show ?thesis by (auto simp: secure_frame_def dest!: send_seq_out)
qed

lemma RecvSizedDataSecure_frame:
  assumes "good k" and "healthy evs" and "arrived evs = secure_frame (enc k) data @ rest" and "fits True data"
  shows "\<exists>evs' d. RecvSizedDataSecure mem (dec k) evs = Some (Inr (int (length data), d), evs') \<and>
            healthy evs' \<and> arrived evs' = rest \<and>
            (case d of None \<Rightarrow> data = [] | Some b \<Rightarrow> take (length data) b = data)"
proof (cases "data = []")
  case True
  then have "arrived evs = snd (enc k (int32_bytes (fixed_size data))) @ rest"
    using assms(3) by (simp add: secure_frame_def)
  from header_decrypts [OF assms(1,2) this, of mem] True sint_fixed_size [of data] show ?thesis
    by (auto simp: RecvSizedDataSecure_def Let_def)
next
  case False
  define n where "n = GetCryptogramSize (length data)"
  have n: "0 < n" "int n \<le> AITT_MESSAGE_MAX" "length (snd (enc k data)) = n"
    using assms(4) enc_size [OF assms(1), of data] GetCryptogramSize_pos [of data] by (simp_all add: n_def fits_def)
  from assms(3) False have "arrived evs = snd (enc k (int32_bytes (of_nat n))) @ (snd (enc k data) @ rest)"
    by (simp add: secure_frame_def n_def)
  from header_decrypts [OF assms(1,2) this, of mem] obtain evs1 m out where
    h: "TCP_Recv evs (int (GetCryptogramSize 4)) = Some (int (GetCryptogramSize 4), snd (enc k (int32_bytes (of_nat n))), evs1)"
      "healthy evs1" "arrived evs1 = snd (enc k data) @ rest"
      "dec k (snd (enc k (int32_bytes (of_nat n)))) = Inr (m, out)" "bytes_int32 (filled mem 4 out) = of_nat n"
    by auto
  have s: "sint (of_nat n :: 32 word) = int n" using n(2) sint_small [of "int n"] by simp
  from TCP_Recv_exact [OF h(2,3)] n(3) obtain evs2 where
    d: "TCP_Recv evs1 (int n) = Some (int n, snd (enc k data), evs2)" "healthy evs2" "arrived evs2 = rest" by auto
  obtain b where b: "dec k (snd (enc k data)) = Inr (int (length data), b)" "take (length data) b = data"
    using dec_enc [OF assms(1)] by blast
  show ?thesis using h d b n s by (simp add: RecvSizedDataSecure_def Let_def)
qed

lemma SendSizedData_out:
  assumes "secure \<Longrightarrow> good k" and "SendSizedData (enc k) secure data (int (length data)) t = Some (Inr (), u)"
  shows "fst u = fst t @ (if secure then secure_frame (enc k) data else normal_frame data)"
  using assms SendSizedDataSecure_out [of k data t u]
  by (auto simp: SendSizedData_def SendSizedDataNormal_def normal_frame_def dest!: send_seq_out split: if_splits)

lemma RecvSizedData_frame:
  assumes "secure \<Longrightarrow> good k" and "healthy evs" and "fits secure data"
    and "arrived evs = (if secure then secure_frame (enc k) data else normal_frame data) @ rest"
  shows "\<exists>evs' d. RecvSizedData mem (dec k) secure evs = Some (Inr (int (length data), d), evs') \<and>
            healthy evs' \<and> arrived evs' = rest \<and>
            (case d of None \<Rightarrow> data = [] | Some b \<Rightarrow> take (length data) b = data)"
proof (cases secure)
  case True
  with assms show ?thesis using RecvSizedDataSecure_frame [of k evs data rest mem]
    by (simp add: RecvSizedData_def)
next
  case False
  with assms show ?thesis using RecvSizedDataNormal_frame [of evs data rest mem]
    by (auto simp: RecvSizedData_def fits_def split: if_splits)
qed

end

section \<open>A whole conversation\<close>

text \<open>Messages sent one after the other, and received one after the other.\<close>

fun send_msgs ::
  "(byte list \<Rightarrow> int \<times> byte list) \<Rightarrow> bool \<Rightarrow> byte list list \<Rightarrow> tx \<Rightarrow> ((exn + unit) \<times> tx) option" where
  "send_msgs Encrypt secure [] t = Some (Inr (), t)"
| "send_msgs Encrypt secure (m # ms) t =
     (case SendSizedData Encrypt secure m (int (length m)) t of
        None \<Rightarrow> None
      | Some (Inl e, u) \<Rightarrow> Some (Inl e, u)
      | Some (Inr x, u) \<Rightarrow> send_msgs Encrypt secure ms u)"

definition message_of :: "int \<Rightarrow> byte list option \<Rightarrow> byte list" where
  "message_of r d = (case d of None \<Rightarrow> [] | Some b \<Rightarrow> take (nat r) b)"

fun recv_msgs ::
  "(nat \<Rightarrow> byte) \<Rightarrow> (byte list \<Rightarrow> exn + (int \<times> byte list)) \<Rightarrow> bool \<Rightarrow> nat \<Rightarrow> recv_ev list \<Rightarrow>
   ((exn + byte list list) \<times> recv_ev list) option" where
  "recv_msgs mem Decrypt secure 0 evs = Some (Inr [], evs)"
| "recv_msgs mem Decrypt secure (Suc n) evs =
     (case RecvSizedData mem Decrypt secure evs of
        None \<Rightarrow> None
      | Some (Inl e, evs') \<Rightarrow> Some (Inl e, evs')
      | Some (Inr (r, d), evs') \<Rightarrow>
          (case recv_msgs mem Decrypt secure n evs' of
             None \<Rightarrow> None
           | Some (Inl e, evs2) \<Rightarrow> Some (Inl e, evs2)
           | Some (Inr ms, evs2) \<Rightarrow> Some (Inr (message_of r d # ms), evs2)))"

context encryptor
begin

lemma send_msgs_out:
  assumes "secure \<Longrightarrow> good k"
  shows "send_msgs (enc k) secure ms t = Some (Inr (), u) \<Longrightarrow>
     fst u = fst t @ concat (map (\<lambda>m. if secure then secure_frame (enc k) m else normal_frame m) ms)"
proof (induction ms arbitrary: t)
  case (Cons m ms)
  then obtain v where "SendSizedData (enc k) secure m (int (length m)) t = Some (Inr (), v)"
    and "send_msgs (enc k) secure ms v = Some (Inr (), u)"
    by (auto split: option.splits sum.splits)
  with Cons.IH [of v] SendSizedData_out [OF assms, of secure m t v] show ?case by simp
qed simp

lemma recv_msgs_frames:
  assumes "secure \<Longrightarrow> good k"
  shows "\<forall>m \<in> set ms. fits secure m \<Longrightarrow> healthy evs \<Longrightarrow>
     arrived evs = concat (map (\<lambda>m. if secure then secure_frame (enc k) m else normal_frame m) ms) @ rest \<Longrightarrow>
     \<exists>evs'. recv_msgs mem (dec k) secure (length ms) evs = Some (Inr ms, evs') \<and> healthy evs' \<and> arrived evs' = rest"
proof (induction ms arbitrary: evs)
  case Nil
  then show ?case by simp
next
  case (Cons m ms)
  let ?frame = "\<lambda>m. if secure then secure_frame (enc k) m else normal_frame m"
  have "arrived evs = ?frame m @ (concat (map ?frame ms) @ rest)" using Cons.prems(3) by simp
  from RecvSizedData_frame [OF assms Cons.prems(2) _ this, of mem] Cons.prems(1) obtain evs1 d where
    r: "RecvSizedData mem (dec k) secure evs = Some (Inr (int (length m), d), evs1)" "healthy evs1"
      "arrived evs1 = concat (map ?frame ms) @ rest"
      "case d of None \<Rightarrow> m = [] | Some b \<Rightarrow> take (length m) b = m" by auto
  then have "message_of (int (length m)) d = m" by (auto simp: message_of_def split: option.splits)
  with Cons.IH [OF _ r(2,3)] Cons.prems(1) r(1) show ?case by auto
qed

lemma conversation:
  assumes "secure \<Longrightarrow> good k" and "\<forall>m \<in> set ms. fits secure m"
    and "send_msgs (enc k) secure ms ([], sevs) = Some (Inr (), (out, sevs'))"
    and "healthy revs" and "arrived revs = out @ rest"
  shows "\<exists>revs'. recv_msgs mem (dec k) secure (length ms) revs = Some (Inr ms, revs') \<and> arrived revs' = rest"
  using recv_msgs_frames [OF assms(1,2,4), of rest mem] send_msgs_out [OF assms(1,3)] assms(5) by auto

end

section \<open>Concrete parameters\<close>

definition sample_key :: AESEncryptor where
  "sample_key = aes_Init (replicate 32 7) (replicate 16 1) AESEncryptor_new"

definition plain_os :: os where
  "plain_os = \<lparr>os_rc = (\<lambda>t c. case c of S_socket \<Rightarrow> 5 | S_accept _ \<Rightarrow> 6 | S_calloc \<Rightarrow> 1 | S_inet_pton _ \<Rightarrow> 1 | _ \<Rightarrow> 0),
      os_sockname = (\<lambda>_ _. 4000), os_peername = (\<lambda>_ _. (''10.0.0.2'', 5000))\<rparr>"

definition pad_evp :: evp where
  "pad_evp = \<lparr>evp_ctx_new = True, evp_init = (\<lambda>_ _. True),
      evp_encrypt_update = (\<lambda>_ _ p. Some p),
      evp_encrypt_final = (\<lambda>_ _ p. Some (replicate (mbed_padding (length p)) (of_nat (mbed_padding (length p))))),
      evp_decrypt_update = (\<lambda>_ _ c. Some (take (length c - unat (last c)) c)),
      evp_decrypt_final = (\<lambda>_ _ c. Some [])\<rparr>"

lemma pad_evp_ok: "evp_ok pad_evp"
proof -
  have "last (p @ replicate (mbed_padding n) b) = b" for p and b :: byte and n
    using mbed_padding_bounds [of n] by simp
  moreover have "unat (of_nat (mbed_padding n) :: byte) = mbed_padding n" for n
    using mbed_padding_bounds [of n] by (simp add: unat_of_nat)
  ultimately show ?thesis by (simp add: evp_ok_def pad_evp_def mbed_padding_total)
qed

text \<open>
  The result of the second \<open>Recv\<close> is not looked at: when the peer closes in the middle of a
  message, the rest of the block is whatever the memory held.
\<close>

lemma disconnect_in_message_returns_memory:
  "RecvSizedDataNormal mem [Chunk [3, 0, 0, 0], Chunk [7], Chunk []] = Some (3, Some [7, mem 1, mem 2], [])"
proof -
  have "sint (bytes_int32 [3, 0, 0, 0]) = 3" by code_simp
  then show ?thesis
    by (simp add: RecvSizedDataNormal_def TCP_Recv_def numeral_eq_Suc filled_def upt_rec Let_def)
qed

text \<open>A connection uses the cipher of its connection data, an accepted one that of its server.\<close>

lemma TCP_connect_state:
  assumes "TCP_connect S host info t = (Inr tcp, u)"
  shows "tcp_addr tcp = (host, ci_port info) \<and> tcp_secure tcp = ci_secure info \<and>
     tcp_crypto tcp = (if ci_secure info then aes_Init (ci_key info) (ci_iv info) AESEncryptor_new else AESEncryptor_new)"
  using assms by (auto simp: TCP_connect_def TCP_fail_def SetupOptions_def act_simps split: if_splits)

lemma AcceptPeer_state:
  assumes "AcceptPeer S srv t = (Inr peer, u)"
  shows "tcp_secure peer = srv_secure srv \<and>
     tcp_crypto peer = (if srv_secure srv then aes_Init (srv_key srv) (srv_iv srv) AESEncryptor_new else AESEncryptor_new)"
  using assms
  by (auto simp: AcceptPeer_def TCP_accepted_def SetupOptions_def ConnectInfo_new_def act_simps split: if_splits)

section \<open>Properties\<close>

text \<open>C10. Messages survive the TCP connection: whatever portions \<open>send\<close> accepts, once the
  messages are sent and however the network cuts the bytes into segments, the receiver gets exactly
  those messages, in order, empty ones included, and reads no byte beyond them; on a plain
  connection and on one secured with Mbed TLS.\<close>

theorem tcp_conversation:
  assumes "secure \<Longrightarrow> cbc_ok C \<and> aes_key e \<noteq> []" and "\<forall>m \<in> set ms. fits secure m"
    and "send_msgs (mbed_Encrypt C e) secure ms ([], sevs) = Some (Inr (), (out, sevs'))"
    and "healthy revs" and "arrived revs = out @ rest"
  shows "\<exists>revs'. recv_msgs mem (mbed_Decrypt C e) secure (length ms) revs = Some (Inr ms, revs') \<and> arrived revs' = rest"
  using mbed.conversation [of secure "(C, e)" ms sevs out sevs' revs rest mem] assms by (simp add: mbed_good_def)

theorem tcp_conversation_witness:
  "\<exists>revs'. recv_msgs (\<lambda>_. 0) (mbed_Decrypt xor_cbc sample_key) True 2
     [Chunk (take 5 (fst (snd (the (send_msgs (mbed_Encrypt xor_cbc sample_key) True [[1, 2], []] ([], replicate 10 (Sent 13))))))),
      Chunk (drop 5 (fst (snd (the (send_msgs (mbed_Encrypt xor_cbc sample_key) True [[1, 2], []] ([], replicate 10 (Sent 13)))))))] =
     Some (Inr [[1, 2], []], revs')"
proof -
  define r where "r = send_msgs (mbed_Encrypt xor_cbc sample_key) True [[1, 2], []] ([], replicate 10 (Sent 13))"
  have r: "r \<noteq> None \<and> fst (the r) = Inr () \<and> 5 < length (fst (snd (the r)))" unfolding r_def by code_simp
  define out where "out = fst (snd (the r))"
  have sent: "send_msgs (mbed_Encrypt xor_cbc sample_key) True [[1, 2], []] ([], replicate 10 (Sent 13)) =
      Some (Inr (), (out, snd (snd (the r))))"
    using r unfolding out_def r_def [symmetric] by (cases r) (simp_all add: prod_eq_iff)
  have net: "healthy [Chunk (take 5 out), Chunk (drop 5 out)]"
    "arrived [Chunk (take 5 out), Chunk (drop 5 out)] = out @ []"
    using r by (auto simp: healthy_def arrived_def out_def)
  have small: "\<forall>m \<in> set [[1, 2], []]. fits True m" by (simp add: fits_def GetCryptogramSize_def)
  have key: "cbc_ok xor_cbc \<and> aes_key sample_key \<noteq> []"
    using xor_cbc_ok by (simp add: sample_key_def aes_Init_def AESEncryptor_new_def)
  from tcp_conversation [OF key small sent net, of "\<lambda>_. 0"] show ?thesis
    by (auto simp: out_def r_def numeral_2_eq_2 simp del: send_msgs.simps recv_msgs.simps)
qed

text \<open>The same holds for a connection secured with OpenSSL, whose padding is the library's.\<close>

lemma tcp_conversation_openssl:
  assumes "evp_ok V" and "aes_key e \<noteq> []" and "\<forall>m \<in> set ms. fits True m"
    and "send_msgs (ssl_Encrypt V e) True ms ([], sevs) = Some (Inr (), (out, sevs'))"
    and "healthy revs" and "arrived revs = out @ rest"
  shows "\<exists>revs'. recv_msgs mem (ssl_Decrypt V e) True (length ms) revs = Some (Inr ms, revs') \<and> arrived revs' = rest"
  using ssl.conversation [of True "(V, e)" ms sevs out sevs' revs rest mem] assms by (simp add: ssl_good_def)

text \<open>C11. \<open>Send\<close> returns: if every call of \<open>send\<close> takes at least one byte, at most as many
  calls as there are bytes put the whole data, and nothing else, on the wire.\<close>

theorem Send_terminates:
  assumes "length data \<le> length evs" and "\<forall>e \<in> set evs. \<exists>k. e = Sent (Suc k)"
  shows "\<exists>evs'. TCP_Send data (out, evs) = Some (Inr (int (length data)), (out @ data, evs'))"
  using Send_loop_completes [OF assms, of out] by (auto simp: TCP_Send_def)

theorem Send_terminates_witness:
  "\<exists>evs'. TCP_Send [1, 2, 3] ([9], [Sent 1, Sent 1, Sent 5]) = Some (Inr 3, ([9, 1, 2, 3], evs'))"
  using Send_terminates [of "[1, 2, 3]" "[Sent 1, Sent 1, Sent 5]" "[9]"] by (auto simp: numeral_eq_Suc)

text \<open>C12. No descriptor leaks from a failed connection or server: when the constructor throws and
  the socket had been created, the last system call closed it; when it does not throw, the object
  holds the descriptor and nothing was closed.\<close>

theorem socket_not_leaked:
  shows "(case TCP_connect S host info t of
            (Inl e, u) \<Rightarrow> S_socket \<in> set (drop (length t) u) \<longrightarrow> 0 \<le> os_rc S t S_socket \<longrightarrow>
                         last u = S_close (os_rc S t S_socket)
          | (Inr tcp, u) \<Rightarrow> tcp_handle tcp = os_rc S t S_socket \<and> 0 \<le> tcp_handle tcp \<and>
                          (\<forall>h. S_close h \<notin> set (drop (length t) u))) \<and>
         (case Server_ctor S gen host port secure t of
            (Inl e, u) \<Rightarrow> 0 \<le> os_rc S t S_socket \<longrightarrow> last u = S_close (os_rc S t S_socket)
          | (Inr (srv, port'), u) \<Rightarrow> srv_handle srv = os_rc S t S_socket \<and> 0 \<le> srv_handle srv \<and>
                          (\<forall>h. S_close h \<notin> set (drop (length t) u)))"
proof
  show "case TCP_connect S host info t of
            (Inl e, u) \<Rightarrow> S_socket \<in> set (drop (length t) u) \<longrightarrow> 0 \<le> os_rc S t S_socket \<longrightarrow>
                         last u = S_close (os_rc S t S_socket)
          | (Inr tcp, u) \<Rightarrow> tcp_handle tcp = os_rc S t S_socket \<and> 0 \<le> tcp_handle tcp \<and>
                          (\<forall>h. S_close h \<notin> set (drop (length t) u))"
    by (auto simp: TCP_connect_def TCP_fail_def SetupOptions_def act_simps)
  show "case Server_ctor S gen host port secure t of
            (Inl e, u) \<Rightarrow> 0 \<le> os_rc S t S_socket \<longrightarrow> last u = S_close (os_rc S t S_socket)
          | (Inr (srv, port'), u) \<Rightarrow> srv_handle srv = os_rc S t S_socket \<and> 0 \<le> srv_handle srv \<and>
                          (\<forall>h. S_close h \<notin> set (drop (length t) u))"
    by (auto simp: Server_ctor_def Server_fail_def act_simps)
qed

theorem socket_not_leaked_witness:
  "last (snd (TCP_connect (plain_os\<lparr>os_rc := (\<lambda>t c. case c of S_connect _ _ _ \<Rightarrow> - 1 | _ \<Rightarrow> os_rc plain_os t c)\<rparr>)
      ''10.0.0.9'' (ConnectInfo_new\<lparr>ci_port := 80\<rparr>) [])) = S_close 5"
proof -
  define S where "S = plain_os\<lparr>os_rc := (\<lambda>t c. case c of S_connect _ _ _ \<Rightarrow> - 1 | _ \<Rightarrow> os_rc plain_os t c)\<rparr>"
  define info where "info = ConnectInfo_new\<lparr>ci_port := 80\<rparr>"
  have "fst (TCP_connect S ''10.0.0.9'' info []) = Inl (RuntimeError ''TCP::TCP() Fail'') \<and>
      S_socket \<in> set (snd (TCP_connect S ''10.0.0.9'' info [])) \<and> os_rc S [] S_socket = 5"
    by (simp add: TCP_connect_def TCP_fail_def act_simps S_def info_def plain_os_def ConnectInfo_new_def)
  with socket_not_leaked [where S = S and host = "''10.0.0.9''" and info = info and t = "[]"] show ?thesis
    by (cases "TCP_connect S ''10.0.0.9'' info []") (auto simp: S_def info_def)
qed

end
