(* ===== verification/TCPModule_Model.thy ===== *)
theory TCPModule_Model
  imports TCP_Model AittDiscovery_Model
begin

text \<open>
  The TCP transport \<open>modules/tcp/Module.cc\<close>: a subscriber opens a server per topic and
  advertises its port (and key) through the discovery, a publisher keeps a table of the advertised
  subscribers and connects to each of them when it publishes.

  The operations act on the pair of the module and the discovery object.  A connection is used at
  the level of whole messages, which is what \<open>TCP_Model\<close> shows of \<open>SendSizedData\<close> and
  \<open>RecvSizedData\<close>: \<open>te_send\<close> says whether a send throws, and what a receive returns is an
  argument of the handler.  The watches of the main loop are a map from descriptors.
\<close>

record TCPServerData =
  tsd_cb_list :: "(ptr \<times> nat \<times> ptr) list"
  tsd_topic :: string
  tsd_client_list :: "int list"

datatype watch_data = AcceptWatch ptr | RecvWatch ptr TCP

datatype tcp_event = TcpDelivered nat AittMsg "byte list" ptr

record TCPModule =
  tm_secure :: bool
  tm_ip :: string
  tm_discovery_cb :: int
  publishTable :: "(string, (string, ConnectInfo \<times> TCP option) omap) omap"
  subscribeTable :: "(ptr, TCPServerData \<times> TCPServer) omap"
  subscribe_handles :: "(ptr, ptr) omap"
  clientTable :: "(string, string) omap"
  tm_watches :: "(int, watch_data) omap"
  tm_next_ptr :: ptr
  tm_trace :: trace
  tm_sent :: "(int \<times> byte list) list"
  tm_delivered :: "tcp_event list"

record tcp_env =
  te_os :: os
  te_gen :: "trace \<Rightarrow> nat \<Rightarrow> byte"
  te_send :: "(int \<times> byte list) list \<Rightarrow> int \<Rightarrow> bool"
  te_mq :: mq_env
  te_fb :: flexbuf

type_synonym tcp_world = "TCPModule \<times> AittDiscovery"

definition on_disc :: "(AittDiscovery, 'a) act \<Rightarrow> (tcp_world, 'a) act" where
  "on_disc = zoom snd (\<lambda>d w. (fst w, d))"

definition on_mod :: "(TCPModule, 'a) act \<Rightarrow> (tcp_world, 'a) act" where
  "on_mod = zoom fst (\<lambda>m w. (m, snd w))"

definition on_os :: "(trace, 'a) act \<Rightarrow> (TCPModule, 'a) act" where
  "on_os = zoom tm_trace (\<lambda>t s. s\<lparr>tm_trace := t\<rparr>)"

lemma on_disc_run [act_simps]: "on_disc m w = (case m (snd w) of (r, d) \<Rightarrow> (r, (fst w, d)))"
  by (simp add: on_disc_def act_simps)

lemma on_mod_run [act_simps]: "on_mod m w = (case m (fst w) of (r, s) \<Rightarrow> (r, (s, snd w)))"
  by (simp add: on_mod_def act_simps)

lemma on_os_run [act_simps]: "on_os m s = (case m (tm_trace s) of (r, t) \<Rightarrow> (r, s\<lparr>tm_trace := t\<rparr>))"
  by (simp add: on_os_def act_simps)

definition tcp_NAME :: "bool \<Rightarrow> string" where
  "tcp_NAME secure = (if secure then ''SECURE_TCP'' else ''TCP'')"

abbreviation (input) TCP_DISCOVERY_CB :: nat where "TCP_DISCOVERY_CB \<equiv> 4"

definition TCPModule_ctor :: "AittProtocol \<Rightarrow> string \<Rightarrow> (AittDiscovery, TCPModule) act" where
  "TCPModule_ctor type my_ip =
     (let secure = (type = AITT_TYPE_TCP_SECURE) in
      bnd (AddDiscoveryCB (tcp_NAME secure) TCP_DISCOVERY_CB) (\<lambda>cb.
      ret \<lparr>tm_secure = secure, tm_ip = my_ip, tm_discovery_cb = cb, publishTable = [],
           subscribeTable = [], subscribe_handles = [], clientTable = [], tm_watches = [],
           tm_next_ptr = 1, tm_trace = [], tm_sent = [], tm_delivered = []\<rparr>))"

section \<open>What is sent with a message\<close>

text \<open>\<open>fbb.UInt\<close> takes a \<open>uint64_t\<close>; \<open>SetSequence\<close> takes an \<open>int\<close>.\<close>

definition PackMsgInfo :: "AittMsg \<Rightarrow> bool \<Rightarrow> fb" where
  "PackMsgInfo msg is_reply =
     FbMap (
       (if is_reply
        then (if msg_reply_topic msg \<noteq> [] then [(''topic'', FbString (msg_reply_topic msg))] else [])
        else (if msg_topic msg \<noteq> [] then [(''topic'', FbString (msg_topic msg))] else [])
             @ (if msg_reply_topic msg \<noteq> [] then [(''reply_topic'', FbString (msg_reply_topic msg))] else []))
       @ (if msg_correlation msg \<noteq> [] then [(''correlation'', FbString (msg_correlation msg))] else [])
       @ (if GetSequence msg \<noteq> 0 then [(''sequence'', FbUInt (nat (GetSequence msg mod 2 ^ 64)))] else [])
       @ (if msg_end_sequence msg then [(''end_sequence'', FbBool (msg_end_sequence msg))] else []))"

definition UnpackMsgInfo :: "flexbuf \<Rightarrow> byte list \<Rightarrow> AittMsg \<Rightarrow> AittMsg" where
  "UnpackMsgInfo F data msg =
     (let root = fb_root F data;
          m1 = (case fb_lookup F root ''topic'' of FbString _ \<Rightarrow> SetTopic (fb_as_string F (fb_lookup F root ''topic'')) msg | _ \<Rightarrow> msg);
          m2 = (case fb_lookup F root ''reply_topic'' of FbString _ \<Rightarrow> SetResponseTopic (fb_as_string F (fb_lookup F root ''reply_topic'')) m1 | _ \<Rightarrow> m1);
          m3 = (case fb_lookup F root ''correlation'' of FbString _ \<Rightarrow> SetCorrelation (fb_as_string F (fb_lookup F root ''correlation'')) m2 | _ \<Rightarrow> m2);
          m4 = (case fb_lookup F root ''sequence'' of FbUInt _ \<Rightarrow> SetSequence (int (fb_as_uint F (fb_lookup F root ''sequence''))) m3 | _ \<Rightarrow> m3)
      in (case fb_lookup F root ''end_sequence'' of FbBool _ \<Rightarrow> SetEndSequence (fb_as_bool F (fb_lookup F root ''end_sequence'')) m4 | _ \<Rightarrow> m4))"

section \<open>Publishing\<close>

definition tcp_SendSizedData :: "tcp_env \<Rightarrow> TCP \<Rightarrow> byte list \<Rightarrow> (TCPModule, unit) act" where
  "tcp_SendSizedData E tcp data =
     (\<lambda>s. if te_send E (tm_sent s) (tcp_handle tcp)
          then (Inr (), s\<lparr>tm_sent := tm_sent s @ [(tcp_handle tcp, data)]\<rparr>)
          else (Inl (RuntimeError ''send() Fail''), s))"

text \<open>The connection of one entry of the table, made when there is none yet.\<close>

definition ensure_client :: "tcp_env \<Rightarrow> string \<Rightarrow> string \<Rightarrow> (TCPModule, TCP) act" where
  "ensure_client E topic clientId =
     (\<lambda>s. case map_of (publishTable s) topic of
        None \<Rightarrow> (Inl (UndefinedBehaviour ''no such topic''), s)
      | Some hosts \<Rightarrow>
          (case map_of hosts clientId of
             None \<Rightarrow> (Inl (UndefinedBehaviour ''no such client''), s)
           | Some (info, Some tcp) \<Rightarrow> (Inr tcp, s)
           | Some (info, None) \<Rightarrow>
               bnd (on_os (TCP_connect (te_os E) (case map_of (clientTable s) clientId of None \<Rightarrow> [] | Some h \<Rightarrow> h) info))
                 (\<lambda>tcp. sq (upd (\<lambda>s. s\<lparr>publishTable := omap_put topic (omap_put clientId (info, Some tcp) hosts) (publishTable s)\<rparr>))
                           (ret tcp)) s))"

definition publish_to :: "tcp_env \<Rightarrow> AittMsg \<Rightarrow> byte list \<Rightarrow> bool \<Rightarrow> string \<Rightarrow> string \<Rightarrow> (TCPModule, unit) act" where
  "publish_to E msg data is_reply topic clientId =
     bnd (ensure_client E topic clientId) (\<lambda>tcp.
     tryA (sq (tcp_SendSizedData E tcp (fb_finish (te_fb E) (PackMsgInfo msg is_reply)))
              (tcp_SendSizedData E tcp data))
          (\<lambda>_. ret ()))"

definition tcp_PublishFull :: "tcp_env \<Rightarrow> AittMsg \<Rightarrow> byte list \<Rightarrow> int \<Rightarrow> bool \<Rightarrow> (tcp_world, unit) act" where
  "tcp_PublishFull E msg data datalen is_reply =
     (if datalen < 0 then ret ()
      else (\<lambda>w. forA (publishTable (fst w)) (\<lambda>(topic, hosts).
             bnd (on_disc (disc_CompareTopic (te_mq E) topic (if is_reply then msg_reply_topic msg else msg_topic msg)))
               (\<lambda>b. whenA b (forA (map fst hosts) (\<lambda>clientId.
                      on_mod (publish_to E msg (take (nat datalen) data) is_reply topic clientId))))) w))"

definition tcp_Publish :: "tcp_env \<Rightarrow> string \<Rightarrow> byte list \<Rightarrow> int \<Rightarrow> (tcp_world, unit) act" where
  "tcp_Publish E topic data datalen = tcp_PublishFull E (SetTopic topic AittMsg_new) data datalen False"

definition tcp_PublishWithReply ::
  "tcp_env \<Rightarrow> string \<Rightarrow> byte list \<Rightarrow> int \<Rightarrow> string \<Rightarrow> string \<Rightarrow> (tcp_world, unit) act" where
  "tcp_PublishWithReply E topic data datalen reply_topic correlation =
     tcp_PublishFull E (SetCorrelation correlation (SetResponseTopic reply_topic (SetTopic topic AittMsg_new)))
       data datalen False"

definition tcp_SendReply :: "tcp_env \<Rightarrow> AittMsg option \<Rightarrow> byte list \<Rightarrow> int \<Rightarrow> (tcp_world, unit) act" where
  "tcp_SendReply E msg data datalen =
     (case msg of
        None \<Rightarrow> raise (RuntimeError ''Invalid message'')
      | Some m \<Rightarrow> tcp_PublishFull E m data datalen True)"

section \<open>Subscribing\<close>

fun server_infos :: "os \<Rightarrow> bool \<Rightarrow> (ptr, TCPServerData \<times> TCPServer) omap \<Rightarrow> (trace, (string \<times> fb) list) act" where
  "server_infos S secure [] = ret []"
| "server_infos S secure ((p, tsd, srv) # rest) =
     bnd (Server_GetPort S srv) (\<lambda>port.
     bnd (server_infos S secure rest) (\<lambda>infos.
     ret ((tsd_topic tsd,
           FbVector ([FbUInt (unat port), FbUInt (length (tsd_cb_list tsd))]
                     @ (if secure then [FbBlob (srv_key srv), FbBlob (srv_iv srv)] else []))) # infos)))"

definition tcp_UpdateDiscoveryMsg :: "tcp_env \<Rightarrow> (tcp_world, unit) act" where
  "tcp_UpdateDiscoveryMsg E =
     (\<lambda>w. bnd (on_mod (on_os (server_infos (te_os E) (tm_secure (fst w)) (subscribeTable (fst w))))) (\<lambda>infos.
          on_disc (UpdateDiscoveryMsg (te_mq E) (te_fb E) (tcp_NAME (tm_secure (fst w)))
             (fb_finish (te_fb E) (FbMap ((''host'', FbString (tm_ip (fst w))) # infos))))) w)"

text \<open>The first entry whose topic is the given one.\<close>

definition find_topic :: "string \<Rightarrow> (ptr, TCPServerData \<times> TCPServer) omap \<Rightarrow> (ptr \<times> TCPServerData \<times> TCPServer) option" where
  "find_topic topic table = List.find (\<lambda>e. tsd_topic (fst (snd e)) = topic) table"

definition AddWatch :: "int \<Rightarrow> watch_data \<Rightarrow> TCPModule \<Rightarrow> TCPModule" where
  "AddWatch fd d s = s\<lparr>tm_watches := omap_insert fd d (tm_watches s)\<rparr>"

definition RemoveWatch :: "int \<Rightarrow> TCPModule \<Rightarrow> watch_data option \<times> TCPModule" where
  "RemoveWatch fd s = (map_of (tm_watches s) fd, s\<lparr>tm_watches := omap_del fd (tm_watches s)\<rparr>)"

definition new_server :: "tcp_env \<Rightarrow> string \<Rightarrow> ptr \<times> nat \<times> ptr \<Rightarrow> (TCPModule, ptr) act" where
  "new_server E topic info =
     bnd (\<lambda>s. on_os (Server_ctor (te_os E) (te_gen E (tm_trace s)) ''0.0.0.0'' 0 (tm_secure s)) s) (\<lambda>(srv, port).
     (\<lambda>s. let p = tm_next_ptr s;
              tsd = \<lparr>tsd_cb_list = [info], tsd_topic = topic, tsd_client_list = []\<rparr>
          in (Inr p, (AddWatch (srv_handle srv) (AcceptWatch p) s)
                \<lparr>tm_next_ptr := p + 1, subscribeTable := omap_insert p (tsd, srv) (subscribeTable s)\<rparr>)))"

definition tcp_Subscribe :: "tcp_env \<Rightarrow> string \<Rightarrow> nat \<Rightarrow> ptr \<Rightarrow> (tcp_world, ptr) act" where
  "tcp_Subscribe E topic cb cbdata =
     bnd (on_mod (\<lambda>s. (Inr (tm_next_ptr s), s\<lparr>tm_next_ptr := tm_next_ptr s + 1\<rparr>))) (\<lambda>info_ptr.
     bnd (on_mod (\<lambda>s. case find_topic topic (subscribeTable s) of
            Some (p, tsd, srv) \<Rightarrow>
              (Inr p, s\<lparr>subscribeTable :=
                 omap_put p (tsd\<lparr>tsd_cb_list := tsd_cb_list tsd @ [(info_ptr, cb, cbdata)]\<rparr>, srv) (subscribeTable s)\<rparr>)
          | None \<Rightarrow> new_server E topic (info_ptr, cb, cbdata) s)) (\<lambda>listen_info.
     sq (tcp_UpdateDiscoveryMsg E)
     (sq (on_mod (upd (\<lambda>s. s\<lparr>subscribe_handles := omap_insert info_ptr listen_info (subscribe_handles s)\<rparr>)))
         (ret info_ptr))))"

text \<open>Deleting a watch's \<open>TCPData\<close> closes its connection.\<close>

definition delete_tcp_data :: "tcp_env \<Rightarrow> watch_data option \<Rightarrow> (TCPModule, unit) act" where
  "delete_tcp_data E d =
     (case d of Some (RecvWatch p tcp) \<Rightarrow> on_os (TCP_dtor (te_os E) tcp) | _ \<Rightarrow> ret ())"

definition remove_client :: "tcp_env \<Rightarrow> int \<Rightarrow> (TCPModule, unit) act" where
  "remove_client E fd = (\<lambda>s. case RemoveWatch fd s of (d, s') \<Rightarrow> delete_tcp_data E d s')"

definition tcp_Unsubscribe :: "tcp_env \<Rightarrow> ptr \<Rightarrow> (tcp_world, ptr) act" where
  "tcp_Unsubscribe E handlePtr =
     (\<lambda>(s, d).
        case map_of (subscribe_handles s) handlePtr of
          None \<Rightarrow> (Inr nullptr, (s, d))
        | Some listen_info \<Rightarrow>
            let s1 = s\<lparr>subscribe_handles := omap_del handlePtr (subscribe_handles s)\<rparr> in
            (case map_of (subscribeTable s) listen_info of
               None \<Rightarrow> (Inl (UndefinedBehaviour ''dangling listen_info''), (s1, d))
             | Some (tsd, srv) \<Rightarrow>
                 (case index_of handlePtr (map fst (tsd_cb_list tsd)) of
                    None \<Rightarrow> (Inl (UndefinedBehaviour ''dangling handle''), (s1, d))
                  | Some i \<Rightarrow>
                      let cbdata = snd (snd (tsd_cb_list tsd ! i)) in
                      if 1 < length (tsd_cb_list tsd)
                      then (Inr cbdata,
                            (s1\<lparr>subscribeTable := omap_put listen_info (tsd\<lparr>tsd_cb_list := erase_at i (tsd_cb_list tsd)\<rparr>, srv) (subscribeTable s)\<rparr>, d))
                      else sq (on_mod (forA (tsd_client_list tsd) (remove_client E)))
                          (sq (on_mod (upd (\<lambda>s. (snd (RemoveWatch (srv_handle srv) s))
                                       \<lparr>subscribeTable := omap_del listen_info (subscribeTable s)\<rparr>)))
                          (sq (on_mod (on_os (Server_dtor (te_os E) srv)))
                          (sq (tcp_UpdateDiscoveryMsg E) (ret cbdata)))) (s1, d))))"

section \<open>Hearing of the peers\<close>

definition UpdatePublishTable ::
  "string \<Rightarrow> string \<Rightarrow> ConnectInfo \<Rightarrow> TCPModule \<Rightarrow> TCPModule" where
  "UpdatePublishTable topic clientId info s =
     (case map_of (publishTable s) topic of
        None \<Rightarrow> s\<lparr>publishTable := omap_put topic (omap_put clientId (info, None) []) (publishTable s)\<rparr>
      | Some hosts \<Rightarrow>
          (case map_of hosts clientId of
             None \<Rightarrow> s\<lparr>publishTable := omap_put topic (omap_put clientId (info, None) hosts) (publishTable s)\<rparr>
           | Some (old, tcp) \<Rightarrow>
               if ci_port old = ci_port info
               then s\<lparr>publishTable := omap_put topic
                       (omap_put clientId (old\<lparr>ci_num_of_cb := ci_num_of_cb info\<rparr>, tcp) hosts) (publishTable s)\<rparr>
               else s\<lparr>publishTable := omap_put topic (omap_put clientId (info, None) hosts) (publishTable s)\<rparr>))"

abbreviation (input) CONN_INFO_PORT :: nat where "CONN_INFO_PORT \<equiv> 0"
abbreviation (input) CONN_INFO_NUM_OF_CB :: nat where "CONN_INFO_NUM_OF_CB \<equiv> 1"
abbreviation (input) CONN_INFO_KEY :: nat where "CONN_INFO_KEY \<equiv> 2"
abbreviation (input) CONN_INFO_IV :: nat where "CONN_INFO_IV \<equiv> 3"
abbreviation (input) CONN_INFO_MAX :: nat where "CONN_INFO_MAX \<equiv> 4"

text \<open>
  The connection data of one advertised topic; nothing when the vector of a secure peer has the
  wrong size, which ends the whole handler.
\<close>

definition read_connect_info :: "flexbuf \<Rightarrow> bool \<Rightarrow> fb \<Rightarrow> ConnectInfo option" where
  "read_connect_info F secure v =
     (let info = ConnectInfo_new
            \<lparr>ci_port := of_nat (fb_as_uint F (fb_index F v CONN_INFO_PORT)),
             ci_num_of_cb := int (fb_as_uint F (fb_index F v CONN_INFO_NUM_OF_CB) mod 65536)\<rparr>
      in if \<not> secure then Some info
         else if length (fb_as_vector F v) \<noteq> CONN_INFO_MAX then None
         else (let key = fb_as_blob F (fb_index F v CONN_INFO_KEY);
                   iv = fb_as_blob F (fb_index F v CONN_INFO_IV);
                   i1 = info\<lparr>ci_secure := True\<rparr>;
                   i2 = (if length key = AITT_TCP_ENCRYPTOR_KEY_LEN then i1\<lparr>ci_key := key\<rparr> else i1)
               in Some (if length iv = AITT_TCP_ENCRYPTOR_IV_LEN then i2\<lparr>ci_iv := iv\<rparr> else i2)))"

fun read_topics :: "flexbuf \<Rightarrow> fb \<Rightarrow> string \<Rightarrow> string list \<Rightarrow> TCPModule \<Rightarrow> TCPModule" where
  "read_topics F root clientId [] s = s"
| "read_topics F root clientId (topic # topics) s =
     (if topic = ''host'' then read_topics F root clientId topics s
      else (case read_connect_info F (tm_secure s) (fb_lookup F root topic) of
              None \<Rightarrow> s
            | Some info \<Rightarrow> read_topics F root clientId topics (UpdatePublishTable topic clientId info s)))"

definition tcp_DiscoveryMessageCallback ::
  "flexbuf \<Rightarrow> string \<Rightarrow> string \<Rightarrow> byte list \<Rightarrow> TCPModule \<Rightarrow> TCPModule" where
  "tcp_DiscoveryMessageCallback F clientId status msg s =
     (if status = WILL_LEAVE_NETWORK
      then s\<lparr>clientTable := omap_del clientId (clientTable s),
             publishTable := map (\<lambda>(topic, hosts). (topic, omap_del clientId hosts)) (publishTable s)\<rparr>
      else (let root = fb_root F msg;
                host = fb_as_string F (fb_lookup F root ''host'');
                s1 = s\<lparr>clientTable := omap_put clientId host (clientTable s)\<rparr>
            in read_topics F root clientId (fb_keys F root) s1))"

fun sum_of_cb :: "(string, ConnectInfo \<times> TCP option) omap \<Rightarrow> int" where
  "sum_of_cb [] = 0"
| "sum_of_cb ((c, info, tcp) # rest) = ci_num_of_cb info + sum_of_cb rest"

fun count_topics :: "mq_env \<Rightarrow> string \<Rightarrow> (string, (string, ConnectInfo \<times> TCP option) omap) omap \<Rightarrow> (AittDiscovery, int) act" where
  "count_topics E topic [] = ret 0"
| "count_topics E topic ((t, hosts) # rest) =
     bnd (disc_CompareTopic E t topic) (\<lambda>b.
     bnd (count_topics E topic rest) (\<lambda>n. ret (if b then sum_of_cb hosts + n else n)))"

definition tcp_CountSubscriber :: "tcp_env \<Rightarrow> string \<Rightarrow> (tcp_world, int) act" where
  "tcp_CountSubscriber E topic = (\<lambda>w. on_disc (count_topics (te_mq E) topic (publishTable (fst w))) w)"

section \<open>Serving the subscribers\<close>

definition AcceptConnection :: "tcp_env \<Rightarrow> ptr \<Rightarrow> (TCPModule, int) act" where
  "AcceptConnection E listen_info =
     (\<lambda>s. case map_of (subscribeTable s) listen_info of
        None \<Rightarrow> (Inr AITT_LOOP_EVENT_REMOVE, s)
      | Some (tsd, srv) \<Rightarrow>
          bnd (on_os (AcceptPeer (te_os E) srv)) (\<lambda>client.
          sq (upd (\<lambda>s. (AddWatch (tcp_handle client) (RecvWatch listen_info client) s)
                \<lparr>subscribeTable := omap_put listen_info
                   (tsd\<lparr>tsd_client_list := tsd_client_list tsd @ [tcp_handle client]\<rparr>, srv) (subscribeTable s)\<rparr>))
             (ret AITT_LOOP_EVENT_CONTINUE)) s)"

definition HandleClientDisconnect :: "tcp_env \<Rightarrow> int \<Rightarrow> (TCPModule, int) act" where
  "HandleClientDisconnect E handle =
     (\<lambda>s. case RemoveWatch handle s of
        (Some (RecvWatch parent tcp), s1) \<Rightarrow>
          (case map_of (subscribeTable s1) parent of
             None \<Rightarrow> (Inl (UndefinedBehaviour ''dangling parent''), s1)
           | Some (tsd, srv) \<Rightarrow>
               (case index_of handle (tsd_client_list tsd) of
                  None \<Rightarrow> (Inl (UndefinedBehaviour ''erase of end()''), s1)
                | Some i \<Rightarrow>
                    sq (on_os (TCP_dtor (te_os E) tcp)) (ret AITT_LOOP_EVENT_REMOVE)
                      (s1\<lparr>subscribeTable := omap_put parent
                            (tsd\<lparr>tsd_client_list := erase_at i (tsd_client_list tsd)\<rparr>, srv) (subscribeTable s1)\<rparr>)))
      | (_, s1) \<Rightarrow> (Inr AITT_LOOP_EVENT_REMOVE, s1))"

text \<open>\<open>recvd\<close> is what \<open>RecvSizedData\<close> returned and stored.\<close>

definition GetMsgInfo :: "tcp_env \<Rightarrow> TCP \<Rightarrow> int \<times> byte list option \<Rightarrow> (TCPModule, AittMsg) act" where
  "GetMsgInfo E tcp recvd =
     (if fst recvd = - ENOTCONN
      then sq (HandleClientDisconnect E (tcp_handle tcp)) (ret AittMsg_new)
      else (case snd recvd of
              None \<Rightarrow> ret AittMsg_new
            | Some data \<Rightarrow> ret (UnpackMsgInfo (te_fb E) (take (nat (fst recvd)) data) AittMsg_new)))"

text \<open>The callbacks run on a copy of the list, so they may subscribe and unsubscribe.\<close>

definition call_subscribers :: "ptr \<Rightarrow> AittMsg \<Rightarrow> byte list \<Rightarrow> (TCPModule, int) act" where
  "call_subscribers parent msg_info data =
     (\<lambda>s. case map_of (subscribeTable s) parent of
        None \<Rightarrow> (Inl (UndefinedBehaviour ''dangling parent''), s)
      | Some (tsd, srv) \<Rightarrow>
          (Inr AITT_LOOP_EVENT_CONTINUE,
           s\<lparr>tm_delivered := tm_delivered s @
               map (\<lambda>(p, cb, cbdata). TcpDelivered cb msg_info data cbdata) (tsd_cb_list tsd)\<rparr>))"

definition ReceiveData ::
  "tcp_env \<Rightarrow> loop_event \<Rightarrow> int \<Rightarrow> int \<times> byte list option \<Rightarrow> int \<times> byte list option \<Rightarrow> (TCPModule, int) act" where
  "ReceiveData E result handle recv1 recv2 =
     (\<lambda>s. case map_of (tm_watches s) handle of
        Some (RecvWatch parent tcp) \<Rightarrow>
          if result = HANGUP then HandleClientDisconnect E handle s
          else bnd (GetMsgInfo E tcp recv1) (\<lambda>msg_info.
            if msg_topic msg_info = [] then ret AITT_LOOP_EVENT_CONTINUE
            else if fst recv2 = - ENOTCONN then HandleClientDisconnect E handle
            else if fst recv2 < 0 then ret AITT_LOOP_EVENT_CONTINUE
            else call_subscribers parent msg_info (message_of (fst recv2) (snd recv2))) s
      | _ \<Rightarrow> (Inr AITT_LOOP_EVENT_REMOVE, s))"

definition TCPModule_dtor :: "(tcp_world, unit) act" where
  "TCPModule_dtor = (\<lambda>w. tryA (on_disc (RemoveDiscoveryCB (tm_discovery_cb (fst w)))) (\<lambda>_. ret ()) w)"

section \<open>Invariant of the tables\<close>

text \<open>
  Every handle belongs to a live server and is in its list of callbacks, no server is without a
  callback, no two servers have the same topic, and pointers are fresh.
\<close>

definition server_ok :: "ptr \<Rightarrow> TCPServerData \<Rightarrow> bool" where
  "server_ok nxt tsd \<longleftrightarrow> tsd_cb_list tsd \<noteq> [] \<and> distinct (map fst (tsd_cb_list tsd)) \<and>
     (\<forall>h \<in> fst ` set (tsd_cb_list tsd). 0 < h \<and> h < nxt)"

definition tables_ok ::
  "ptr \<Rightarrow> (ptr, TCPServerData \<times> TCPServer) omap \<Rightarrow> (ptr, ptr) omap \<Rightarrow> bool" where
  "tables_ok nxt T H \<longleftrightarrow> 0 < nxt \<and> omap_ok T \<and> omap_ok H \<and>
     (\<forall>l tsd srv. map_of T l = Some (tsd, srv) \<longrightarrow> 0 < l \<and> l < nxt \<and> server_ok nxt tsd) \<and>
     (\<forall>l l' tsd srv tsd' srv'. map_of T l = Some (tsd, srv) \<longrightarrow> map_of T l' = Some (tsd', srv') \<longrightarrow>
        tsd_topic tsd = tsd_topic tsd' \<longrightarrow> l = l') \<and>
     (\<forall>h l. map_of H h = Some l \<longrightarrow> 0 < h \<and> h < nxt \<and>
        (\<exists>tsd srv. map_of T l = Some (tsd, srv) \<and> h \<in> fst ` set (tsd_cb_list tsd)))"

definition tcp_ok :: "TCPModule \<Rightarrow> bool" where
  "tcp_ok s \<longleftrightarrow> tables_ok (tm_next_ptr s) (subscribeTable s) (subscribe_handles s)"

lemma server_ok_mono: "server_ok n tsd \<Longrightarrow> n \<le> m \<Longrightarrow> server_ok m tsd"
  by (auto simp: server_ok_def)

lemma tables_ok_mono: "tables_ok n T H \<Longrightarrow> n \<le> m \<Longrightarrow> tables_ok m T H"
  unfolding tables_ok_def by (meson server_ok_mono order_less_le_trans)

text \<open>Replacing the data of a server by data for the same topic that keeps the handles in use.\<close>

lemma tables_ok_replace:
  assumes ok: "tables_ok n T H" and l: "map_of T l = Some (tsd, srv)" and s: "server_ok n tsd'"
    and topic: "tsd_topic tsd' = tsd_topic tsd"
    and keep: "\<And>h. map_of H h = Some l \<Longrightarrow> h \<in> fst ` set (tsd_cb_list tsd')"
  shows "tables_ok n (omap_put l (tsd', srv) T) H"
proof -
  have inj: "l1 = l2" if "map_of T l1 = Some (a, x)" "map_of T l2 = Some (b, y)" "tsd_topic a = tsd_topic b"
    for l1 l2 a b x y using ok that unfolding tables_ok_def by blast
  show ?thesis
    using ok s l topic keep inj unfolding tables_ok_def by (auto split: if_splits)
qed

lemma tables_ok_add_server:
  assumes ok: "tables_ok n T H" and s: "server_ok (n + 1) tsd" and new: "find_topic (tsd_topic tsd) T = None"
  shows "tables_ok (n + 1) (omap_insert n (tsd, srv) T) H"
proof -
  have fresh: "map_of T n = None"
    using ok unfolding tables_ok_def by (metis less_irrefl not_None_eq surj_pair)
  have new': "tsd_topic a \<noteq> tsd_topic tsd" if "map_of T l = Some (a, x)" for l a x
    using new map_of_SomeD [OF that] by (auto simp: find_topic_def find_None_iff)
  have unused: "map_of H h \<noteq> Some n" for h
    using ok fresh unfolding tables_ok_def by fastforce
  show ?thesis
    using tables_ok_mono [OF ok, of "n + 1"] ok s fresh new' unused
    unfolding tables_ok_def by (auto simp: map_of_omap_insert split: if_splits) (metis new')+
qed

lemma tables_ok_remove_server:
  assumes ok: "tables_ok n T H" and unused: "\<And>h. map_of H h \<noteq> Some l"
  shows "tables_ok n (omap_del l T) H"
  using ok unused unfolding tables_ok_def by (auto split: if_splits)

lemma tables_ok_add_handle:
  assumes ok: "tables_ok n T H" and l: "map_of T l = Some (tsd, srv)" and h: "h \<in> fst ` set (tsd_cb_list tsd)"
  shows "tables_ok n T (omap_insert h l H)"
proof -
  have "0 < h \<and> h < n" using ok l h unfolding tables_ok_def server_ok_def by blast
  then show ?thesis using ok l h unfolding tables_ok_def by (auto simp: map_of_omap_insert split: if_splits)
qed

lemma tables_ok_del_handle: "tables_ok n T H \<Longrightarrow> tables_ok n T (omap_del h H)"
  unfolding tables_ok_def by (auto split: if_splits)

text \<open>The operating system, the discovery and the watches do not touch the tables.\<close>

definition same_tables :: "TCPModule \<Rightarrow> TCPModule \<Rightarrow> bool" where
  "same_tables s t \<longleftrightarrow> subscribeTable t = subscribeTable s \<and> subscribe_handles t = subscribe_handles s \<and>
     tm_next_ptr t = tm_next_ptr s \<and> publishTable t = publishTable s \<and> clientTable t = clientTable s \<and>
     tm_secure t = tm_secure s \<and> tm_delivered t = tm_delivered s"

lemma same_tables_refl: "same_tables s s"
  by (simp add: same_tables_def)

lemma same_tables_trans: "same_tables s t \<Longrightarrow> same_tables t u \<Longrightarrow> same_tables s u"
  by (simp add: same_tables_def)

lemma same_tables_on_os: "same_tables s (snd (on_os m s))"
  by (simp add: act_simps same_tables_def split: prod.split)

lemma same_tables_remove_client: "same_tables s (snd (remove_client E fd s))"
proof -
  have "same_tables s (s\<lparr>tm_watches := w\<rparr>)" for w by (simp add: same_tables_def)
  then show ?thesis
    using same_tables_on_os
    by (auto simp: remove_client_def RemoveWatch_def delete_tcp_data_def act_simps(1)
        intro: same_tables_trans split: option.split watch_data.split)
qed

lemma same_tables_forA:
  assumes "\<And>x s. same_tables s (snd (f x s))"
  shows "same_tables s (snd (forA xs f s))"
proof (induction xs arbitrary: s)
  case (Cons x xs)
  then show ?case using assms [of s x]
    by (auto simp: forA_Cons_run split: prod.splits sum.splits intro: same_tables_trans)
qed (simp add: act_simps same_tables_refl)

lemma UpdateDiscoveryMsg_same: "same_tables (fst w) (fst (snd (tcp_UpdateDiscoveryMsg E w)))"
proof -
  have "same_tables (fst w) (snd (on_os m (fst w)))" for m :: "(trace, (string \<times> fb) list) act"
    by (rule same_tables_on_os)
  then show ?thesis
    by (auto simp: tcp_UpdateDiscoveryMsg_def on_mod_run on_disc_run bnd_run split: prod.splits sum.splits)
       (metis snd_conv)+
qed

lemma tcp_ok_same: "same_tables s t \<Longrightarrow> tcp_ok t = tcp_ok s"
  by (simp add: same_tables_def tcp_ok_def)

section \<open>The transport as a table of subscriptions\<close>

definition handle_entry ::
  "(ptr, TCPServerData \<times> TCPServer) omap \<Rightarrow> (ptr, ptr) omap \<Rightarrow> ptr \<Rightarrow> (string \<times> nat \<times> ptr) option" where
  "handle_entry T H h =
     (case map_of H h of
        None \<Rightarrow> None
      | Some l \<Rightarrow> (case map_of T l of
                    None \<Rightarrow> None
                  | Some (tsd, srv) \<Rightarrow> map_option (Pair (tsd_topic tsd)) (map_of (tsd_cb_list tsd) h)))"

definition tcp_table :: "tcp_world \<Rightarrow> ptr \<Rightarrow> (string \<times> nat \<times> ptr) option" where
  "tcp_table w = handle_entry (subscribeTable (fst w)) (subscribe_handles (fst w))"

definition tcp_add :: "tcp_env \<Rightarrow> string \<times> nat \<times> ptr \<Rightarrow> (tcp_world, ptr) act" where
  "tcp_add E d = tcp_Subscribe E (fst d) (fst (snd d)) (snd (snd d))"

lemma same_tables_table: "same_tables (fst w) (fst v) \<Longrightarrow> tcp_table v = tcp_table w"
  by (simp add: same_tables_def tcp_table_def)

lemma tables_ok_fresh: "tables_ok n T H \<Longrightarrow> n \<le> h \<Longrightarrow> map_of H h = None"
  unfolding tables_ok_def by (meson leD not_None_eq)

text \<open>After a server has taken the callback \<open>h\<close>, the handle is entered.\<close>

lemma enter_handle:
  assumes "tables_ok m T' H" and "map_of T' p = Some (tsd, srv)" and "map_of (tsd_cb_list tsd) h = Some cbd"
    and "map_of H h = None"
  shows "tables_ok m T' (omap_insert h p H) \<and>
     handle_entry T' (omap_insert h p H) = (handle_entry T' H)(h \<mapsto> (tsd_topic tsd, cbd))"
proof -
  have "h \<in> fst ` set (tsd_cb_list tsd)" using assms(3) by (force dest: map_of_SomeD)
  moreover have "map_of (omap_insert h p H) = (map_of H)(h \<mapsto> p)"
    using assms(4) by (auto simp: map_of_omap_insert)
  ultimately show ?thesis
    using assms tables_ok_add_handle by (auto simp: handle_entry_def fun_eq_iff)
qed

lemma map_of_snoc: "map_of (xs @ [(k, v)]) h = (case map_of xs h of None \<Rightarrow> if h = k then Some v else None | Some x \<Rightarrow> Some x)"
  by (auto simp: map_add_def split: option.splits)

lemma append_callback:
  assumes ok: "tables_ok n T H" and l: "map_of T l = Some (tsd, srv)"
    and tsd': "tsd' = tsd\<lparr>tsd_cb_list := tsd_cb_list tsd @ [(n, cbd)]\<rparr>"
  shows "tables_ok (n + 1) (omap_put l (tsd', srv) T) H \<and>
     handle_entry (omap_put l (tsd', srv) T) H = handle_entry T H \<and> map_of (tsd_cb_list tsd') n = Some cbd"
proof -
  have s: "server_ok n tsd" "0 < n" using ok l unfolding tables_ok_def by blast+
  then have "n \<notin> fst ` set (tsd_cb_list tsd)" by (auto simp: server_ok_def)
  then have new: "map_of (tsd_cb_list tsd) n = None" by (simp add: map_of_eq_None_iff)
  have "server_ok (n + 1) tsd'" using s \<open>n \<notin> _\<close> by (auto simp: tsd' server_ok_def)
  moreover have "h \<in> fst ` set (tsd_cb_list tsd)" if "map_of H h = Some l" for h
    using ok that l unfolding tables_ok_def by fastforce
  ultimately have "tables_ok (n + 1) (omap_put l (tsd', srv) T) H"
    using tables_ok_replace [OF tables_ok_mono [OF ok] l, of "n + 1" tsd'] by (auto simp: tsd')
  moreover have "handle_entry (omap_put l (tsd', srv) T) H = handle_entry T H"
    using l tables_ok_fresh [OF ok, of n]
    by (auto simp: handle_entry_def fun_eq_iff tsd' map_of_snoc simp del: map_of_append split: option.splits)
  ultimately show ?thesis using new by (simp add: tsd' map_of_snoc del: map_of_append)
qed

lemma add_server:
  assumes ok: "tables_ok n T H" and new: "find_topic topic T = None"
    and tsd: "tsd = \<lparr>tsd_cb_list = [(n, cbd)], tsd_topic = topic, tsd_client_list = []\<rparr>"
  shows "tables_ok (n + 2) (omap_insert (n + 1) (tsd, srv) T) H \<and>
     handle_entry (omap_insert (n + 1) (tsd, srv) T) H = handle_entry T H \<and>
     map_of (omap_insert (n + 1) (tsd, srv) T) (n + 1) = Some (tsd, srv)"
proof -
  have "0 < n" using ok by (simp add: tables_ok_def)
  then have "server_ok (n + 2) tsd" by (simp add: tsd server_ok_def)
  then have t: "tables_ok (n + 2) (omap_insert (n + 1) (tsd, srv) T) H"
    using tables_ok_add_server [OF tables_ok_mono [OF ok, of "n + 1"], of tsd srv] new by (simp add: tsd)
  have f: "map_of T (n + 1) = None"
    using ok unfolding tables_ok_def by (metis add_lessD1 less_irrefl not_None_eq surj_pair)
  have u: "map_of H h \<noteq> Some (n + 1)" for h using ok f unfolding tables_ok_def by fastforce
  have "handle_entry (omap_insert (n + 1) (tsd, srv) T) H = handle_entry T H"
    using u f by (auto simp: handle_entry_def fun_eq_iff map_of_omap_insert split: option.splits)
  with t f show ?thesis by (auto simp: map_of_omap_insert)
qed

text \<open>The part of \<open>Subscribe\<close> before the handle is entered.\<close>

definition subscribe_listen :: "tcp_env \<Rightarrow> string \<Rightarrow> ptr \<times> nat \<times> ptr \<Rightarrow> (TCPModule, ptr) act" where
  "subscribe_listen E topic info =
     (\<lambda>s. case find_topic topic (subscribeTable s) of
            Some (p, tsd, srv) \<Rightarrow>
              (Inr p, s\<lparr>subscribeTable :=
                 omap_put p (tsd\<lparr>tsd_cb_list := tsd_cb_list tsd @ [info]\<rparr>, srv) (subscribeTable s)\<rparr>)
          | None \<Rightarrow> new_server E topic info s)"

lemma tcp_Subscribe_alt:
  "tcp_Subscribe E topic cb cbdata (s, d) =
     bnd (on_mod (subscribe_listen E topic (tm_next_ptr s, cb, cbdata))) (\<lambda>l.
     sq (tcp_UpdateDiscoveryMsg E)
     (sq (on_mod (upd (\<lambda>s'. s'\<lparr>subscribe_handles := omap_insert (tm_next_ptr s) l (subscribe_handles s')\<rparr>)))
         (ret (tm_next_ptr s)))) (s\<lparr>tm_next_ptr := tm_next_ptr s + 1\<rparr>, d)"
  by (simp add: tcp_Subscribe_def subscribe_listen_def bnd_run on_mod_run)

lemma find_topic_Some:
  assumes "omap_ok T" and "find_topic topic T = Some (p, tsd, srv)"
  shows "map_of T p = Some (tsd, srv) \<and> tsd_topic tsd = topic"
proof -
  obtain i where i: "i < length T" "T ! i = (p, tsd, srv)" "tsd_topic (fst (snd (T ! i))) = topic"
    using assms(2) unfolding find_topic_def find_Some_iff by metis
  then have "(p, tsd, srv) \<in> set T" by (metis nth_mem)
  with assms(1) i show ?thesis by (simp add: omap_mem_iff)
qed

lemma new_server_run:
  "new_server E topic info s =
     (case Server_ctor (te_os E) (te_gen E (tm_trace s)) ''0.0.0.0'' 0 (tm_secure s) (tm_trace s) of
        (Inl e, t) \<Rightarrow> (Inl e, s\<lparr>tm_trace := t\<rparr>)
      | (Inr (srv, port), t) \<Rightarrow>
          (Inr (tm_next_ptr s), (AddWatch (srv_handle srv) (AcceptWatch (tm_next_ptr s)) (s\<lparr>tm_trace := t\<rparr>))
             \<lparr>tm_next_ptr := tm_next_ptr s + 1,
              subscribeTable := omap_insert (tm_next_ptr s)
                (\<lparr>tsd_cb_list = [info], tsd_topic = topic, tsd_client_list = []\<rparr>, srv) (subscribeTable s)\<rparr>))"
  by (simp add: new_server_def bnd_run on_os_run Let_def split: prod.split sum.split)

lemma subscribe_listen_law:
  assumes ok: "tables_ok n T H" and s: "tm_next_ptr s = n + 1" "subscribeTable s = T" "subscribe_handles s = H"
    and run: "subscribe_listen E topic (n, cbd) s = (r, t)"
  shows "tcp_ok t \<and> subscribe_handles t = H \<and> handle_entry (subscribeTable t) H = handle_entry T H \<and>
     (\<forall>l. r = Inr l \<longrightarrow> (\<exists>tsd srv. map_of (subscribeTable t) l = Some (tsd, srv) \<and> tsd_topic tsd = topic \<and>
        map_of (tsd_cb_list tsd) n = Some cbd))"
proof (cases "find_topic topic T")
  case None
  show ?thesis
  proof (cases "Server_ctor (te_os E) (te_gen E (tm_trace s)) ''0.0.0.0'' 0 (tm_secure s) (tm_trace s)")
    case (Pair q u)
    show ?thesis
    proof (cases q)
      case (Inl e)
      with None Pair run s tables_ok_mono [OF ok, of "n + 1"] show ?thesis
        by (auto simp: subscribe_listen_def new_server_run tcp_ok_def)
    next
      case (Inr sp)
      obtain srv port where sp: "sp = (srv, port)" by (cases sp)
      with None Pair Inr run s add_server [OF ok None refl, of cbd srv] show ?thesis
        by (auto simp: subscribe_listen_def new_server_run tcp_ok_def AddWatch_def)
    qed
  qed
next
  case (Some e)
  obtain p tsd srv where e: "e = (p, tsd, srv)" by (cases e)
  have p: "map_of T p = Some (tsd, srv)" "tsd_topic tsd = topic"
    using find_topic_Some [of T topic p tsd srv] ok Some e by (auto simp: tables_ok_def)
  from append_callback [OF ok p(1) refl, of cbd] Some e run s p show ?thesis
    by (auto simp: subscribe_listen_def tcp_ok_def simp del: map_of_append)
qed

lemma tcp_Subscribe_law:
  assumes ok: "tcp_ok s" and run: "tcp_Subscribe E topic cb cbdata (s, d) = (r, w)"
  shows "tcp_ok (fst w) \<and>
     (case r of
        Inl e \<Rightarrow> tcp_table w = tcp_table (s, d)
      | Inr h \<Rightarrow> h \<noteq> 0 \<and> tcp_table (s, d) h = None \<and> tcp_table w = (tcp_table (s, d))(h \<mapsto> (topic, cb, cbdata)))"
proof -
  define n where "n = tm_next_ptr s"
  define s1 where "s1 = s\<lparr>tm_next_ptr := n + 1\<rparr>"
  have T: "tables_ok n (subscribeTable s) (subscribe_handles s)" using ok by (simp add: tcp_ok_def n_def)
  obtain q t where q: "subscribe_listen E topic (n, cb, cbdata) s1 = (q, t)" by fastforce
  note law = subscribe_listen_law [OF T _ _ _ q, unfolded s1_def, simplified]
  have fresh: "map_of (subscribe_handles s) n = None" "n \<noteq> 0"
    using tables_ok_fresh [OF T, of n] T by (simp_all add: tables_ok_def)
  then have none: "tcp_table (s, d) n = None" by (simp add: tcp_table_def handle_entry_def)
  show ?thesis
  proof (cases q)
    case (Inl e)
    with q run law show ?thesis
      by (auto simp: tcp_Subscribe_alt bnd_run on_mod_run n_def s1_def tcp_table_def)
  next
    case (Inr l)
    obtain x v where x: "tcp_UpdateDiscoveryMsg E (t, d) = (x, v)"
      by (cases "tcp_UpdateDiscoveryMsg E (t, d)")
    have same: "same_tables t (fst v)" using UpdateDiscoveryMsg_same [of "(t, d)" E] x by simp
    from law Inr obtain tsd srv where l: "map_of (subscribeTable t) l = Some (tsd, srv)" "tsd_topic tsd = topic"
      "map_of (tsd_cb_list tsd) n = Some (cb, cbdata)" and t: "tcp_ok t" "subscribe_handles t = subscribe_handles s"
      "handle_entry (subscribeTable t) (subscribe_handles s) = handle_entry (subscribeTable s) (subscribe_handles s)"
      by auto
    show ?thesis
    proof (cases x)
      case (Inl e)
      with q Inr x run same t tcp_ok_same [OF same] show ?thesis
        by (auto simp: tcp_Subscribe_alt bnd_run sq_run on_mod_run n_def s1_def tcp_table_def same_tables_def)
    next
      case (Inr u)
      with q \<open>q = Inr l\<close> x run
      have rw: "r = Inr n" "w = ((fst v)\<lparr>subscribe_handles := omap_insert n l (subscribe_handles (fst v))\<rparr>, snd v)"
        by (auto simp: tcp_Subscribe_alt bnd_run sq_run on_mod_run upd_run ret_run n_def s1_def)
      have "tables_ok (tm_next_ptr t) (subscribeTable t) (subscribe_handles s)" using t by (simp add: tcp_ok_def)
      from enter_handle [OF this l(1,3) fresh(1)] rw same t l(2) none fresh(2) show ?thesis
        by (simp add: tcp_ok_def tcp_table_def same_tables_def)
    qed
  qed
qed

lemma handle_entry_del: "handle_entry T (omap_del h H) = (handle_entry T H)(h := None)"
  by (auto simp: handle_entry_def fun_eq_iff)

lemma erase_callback:
  assumes ok: "tables_ok n T H" and l: "map_of H h = Some l" "map_of T l = Some (tsd, srv)"
    and i: "i < length (tsd_cb_list tsd)" "fst (tsd_cb_list tsd ! i) = h" and more: "1 < length (tsd_cb_list tsd)"
    and tsd': "tsd' = tsd\<lparr>tsd_cb_list := erase_at i (tsd_cb_list tsd)\<rparr>"
  shows "tables_ok n (omap_put l (tsd', srv) T) (omap_del h H) \<and>
     handle_entry (omap_put l (tsd', srv) T) (omap_del h H) = (handle_entry T H)(h := None)"
proof -
  have s: "server_ok n tsd" using ok l unfolding tables_ok_def by blast
  then have dist: "distinct (map fst (tsd_cb_list tsd))" by (simp add: server_ok_def)
  have set': "fst ` set (erase_at i (tsd_cb_list tsd)) = fst ` set (tsd_cb_list tsd) - {h}"
    using erase_at_distinct [OF dist, of i] i by (simp add: map_erase_at [symmetric])
  have "erase_at i (tsd_cb_list tsd) \<noteq> []"
    using length_erase_at [OF i(1)] more by (metis list.size(3) zero_less_diff less_irrefl)
  then have "server_ok n tsd'"
    using s set' dist by (auto simp: tsd' server_ok_def map_erase_at distinct_erase_at)
  moreover have "h' \<in> fst ` set (tsd_cb_list tsd')" if "map_of (omap_del h H) h' = Some l" for h'
  proof -
    have "h' \<noteq> h" "map_of H h' = Some l" using that by (auto split: if_splits)
    then have "h' \<in> fst ` set (tsd_cb_list tsd)" using ok l(2) unfolding tables_ok_def by fastforce
    with \<open>h' \<noteq> h\<close> show ?thesis by (simp add: tsd' set')
  qed
  ultimately have "tables_ok n (omap_put l (tsd', srv) T) (omap_del h H)"
    using tables_ok_replace [OF tables_ok_del_handle [OF ok] l(2), of tsd'] by (simp add: tsd')
  moreover have "map_of (erase_at i (tsd_cb_list tsd)) = (map_of (tsd_cb_list tsd))(h := None)"
    using map_of_erase_at [OF dist i(1)] i(2) by simp
  ultimately show ?thesis
    using l by (auto simp: handle_entry_def fun_eq_iff tsd' split: option.splits)
qed

lemma drop_server:
  assumes ok: "tables_ok n T H" and l: "map_of H h = Some l" "map_of T l = Some (tsd, srv)"
    and one: "\<not> 1 < length (tsd_cb_list tsd)"
  shows "tables_ok n (omap_del l T) (omap_del h H) \<and>
     handle_entry (omap_del l T) (omap_del h H) = (handle_entry T H)(h := None)"
proof -
  have mem: "h' \<in> fst ` set (tsd_cb_list tsd)" if "map_of H h' = Some l" for h'
    using ok that l(2) unfolding tables_ok_def by fastforce
  from mem [OF l(1)] one have single: "fst ` set (tsd_cb_list tsd) = {h}"
    by (cases "tsd_cb_list tsd") auto
  have unused: "map_of (omap_del h H) h' \<noteq> Some l" for h'
    using mem [of h'] single by (auto split: if_splits)
  have "tables_ok n (omap_del l T) (omap_del h H)"
    using tables_ok_remove_server [OF tables_ok_del_handle [OF ok] unused] .
  moreover have "map_of H h' \<noteq> Some l" if "h' \<noteq> h" for h' using unused [of h'] that by auto
  ultimately show ?thesis by (auto simp: handle_entry_def fun_eq_iff split: option.splits)
qed

text \<open>While a server is taken down, its entry is there or gone, and nothing else moves.\<close>

definition taking_down ::
  "ptr \<Rightarrow> (ptr, TCPServerData \<times> TCPServer) omap \<Rightarrow> (ptr, ptr) omap \<Rightarrow> ptr \<Rightarrow> tcp_world \<Rightarrow> bool" where
  "taking_down n T H l w \<longleftrightarrow> tm_next_ptr (fst w) = n \<and> subscribe_handles (fst w) = H \<and>
     (subscribeTable (fst w) = T \<or> subscribeTable (fst w) = omap_del l T)"

lemma taking_down_same: "same_tables (fst w) (fst v) \<Longrightarrow> taking_down n T H l w \<Longrightarrow> taking_down n T H l v"
  by (auto simp: taking_down_def same_tables_def)

lemma preserves_taking_down_mod:
  assumes "\<And>s. same_tables s (snd (m s))"
  shows "preserves (taking_down n T H l) (on_mod m)"
proof (rule preservesI)
  fix w assume "taking_down n T H l w"
  moreover have "same_tables (fst w) (fst (snd (on_mod m w)))"
    using assms [of "fst w"] by (cases "m (fst w)") (simp add: on_mod_run)
  ultimately show "taking_down n T H l (snd (on_mod m w))" by (rule taking_down_same [rotated])
qed

lemma preserves_take_down:
  "preserves (taking_down n T H l)
     (sq (on_mod (forA fds (remove_client E)))
     (sq (on_mod (upd (\<lambda>s. (snd (RemoveWatch fd s))\<lparr>subscribeTable := omap_del l (subscribeTable s)\<rparr>)))
     (sq (on_mod (on_os (Server_dtor (te_os E) srv)))
     (sq (tcp_UpdateDiscoveryMsg E) (ret x)))))"
proof -
  have "preserves (taking_down n T H l) (on_mod (forA fds (remove_client E)))"
    by (intro preserves_taking_down_mod same_tables_forA same_tables_remove_client)
  moreover have "omap_del l (omap_del l T) = omap_del l T" by (simp add: omap_del_def)
  then have "preserves (taking_down n T H l)
      (on_mod (upd (\<lambda>s. (snd (RemoveWatch fd s))\<lparr>subscribeTable := omap_del l (subscribeTable s)\<rparr>)))"
    by (intro preservesI) (auto simp: taking_down_def on_mod_run upd_run RemoveWatch_def)
  moreover have "preserves (taking_down n T H l) (on_mod (on_os (Server_dtor (te_os E) srv)))"
    by (intro preserves_taking_down_mod same_tables_on_os)
  moreover have "preserves (taking_down n T H l) (tcp_UpdateDiscoveryMsg E)"
    using UpdateDiscoveryMsg_same taking_down_same by (intro preservesI) blast
  ultimately show ?thesis by (intro preserves_sq preserves_ret)
qed

lemma tcp_Unsubscribe_law:
  assumes ok: "tcp_ok s" and tab: "tcp_table (s, d) h = Some (topic, cb, cbdata)"
    and run: "tcp_Unsubscribe E h (s, d) = (r, w)"
  shows "tcp_ok (fst w) \<and> tcp_table w = (tcp_table (s, d))(h := None) \<and> (\<forall>x. r = Inr x \<longrightarrow> x = cbdata)"
proof -
  define n T H where nTH: "n = tm_next_ptr s" "T = subscribeTable s" "H = subscribe_handles s"
  have T: "tables_ok n T H" using ok by (simp add: tcp_ok_def nTH)
  from tab obtain l tsd srv where l: "map_of H h = Some l" "map_of T l = Some (tsd, srv)"
    "map_of (tsd_cb_list tsd) h = Some (cb, cbdata)"
    by (auto simp: tcp_table_def handle_entry_def nTH split: option.splits)
  have "distinct (map fst (tsd_cb_list tsd))" using T l(2) unfolding tables_ok_def server_ok_def by blast
  from map_of_index [OF l(3) this] obtain i where
    i: "index_of h (map fst (tsd_cb_list tsd)) = Some i" "i < length (tsd_cb_list tsd)" "tsd_cb_list tsd ! i = (h, cb, cbdata)"
    by blast
  show ?thesis
  proof (cases "1 < length (tsd_cb_list tsd)")
    case True
    from erase_callback [OF T l(1,2) i(2) _ True refl] i l run True show ?thesis
      by (auto simp: tcp_Unsubscribe_def nTH Let_def tcp_ok_def tcp_table_def)
  next
    case False
    define s1 where "s1 = s\<lparr>subscribe_handles := omap_del h H\<rparr>"
    define body where "body = sq (on_mod (forA (tsd_client_list tsd) (remove_client E)))
     (sq (on_mod (upd (\<lambda>s. (snd (RemoveWatch (srv_handle srv) s))\<lparr>subscribeTable := omap_del l (subscribeTable s)\<rparr>)))
     (sq (on_mod (on_os (Server_dtor (te_os E) srv)))
     (sq (tcp_UpdateDiscoveryMsg E) (ret cbdata))))"
    have b: "body (s1, d) = (r, w)"
      using run l i False by (simp add: tcp_Unsubscribe_def nTH Let_def s1_def body_def)
    have start: "taking_down n T (omap_del h H) l (s1, d)" by (simp add: taking_down_def s1_def nTH)
    have "preserves (taking_down n T (omap_del h H) l) body" unfolding body_def by (rule preserves_take_down)
    from preservesD [OF this start] b have "taking_down n T (omap_del h H) l w" by simp
    moreover have "r = Inr x \<Longrightarrow> x = cbdata" for x
      using b by (auto simp: body_def sq_run ret_run split: prod.splits sum.splits)
    ultimately show ?thesis
      using drop_server [OF T l(1,2) False] tables_ok_del_handle [OF T, of h] handle_entry_del [of T h H]
      by (auto simp: taking_down_def tcp_ok_def tcp_table_def nTH)
  qed
qed

lemma tcp_Unsubscribe_unknown:
  assumes "tcp_ok s" and "tcp_table (s, d) h = None"
  shows "tcp_Unsubscribe E h (s, d) = (Inr nullptr, (s, d))"
proof -
  have "map_of (subscribe_handles s) h = None"
  proof (rule ccontr)
    assume "map_of (subscribe_handles s) h \<noteq> None"
    then obtain l where l: "map_of (subscribe_handles s) h = Some l" by blast
    with assms(1) obtain tsd srv where "map_of (subscribeTable s) l = Some (tsd, srv)" "h \<in> fst ` set (tsd_cb_list tsd)"
      unfolding tcp_ok_def tables_ok_def by blast
    with l assms(2) show False by (auto simp: tcp_table_def handle_entry_def map_of_eq_None_iff)
  qed
  then show ?thesis by (simp add: tcp_Unsubscribe_def)
qed

interpretation tcp_handles: handle_table "\<lambda>w. tcp_ok (fst w)" tcp_table "tcp_add E" "tcp_Unsubscribe E" "\<lambda>d. snd (snd d)"
  for E
proof
  fix s :: tcp_world and t d h e r
  show "tcp_ok (fst t) \<and> h \<noteq> 0 \<and> tcp_table s h = None \<and> tcp_table t = (tcp_table s)(h \<mapsto> d)"
    if "tcp_ok (fst s)" "tcp_add E d s = (Inr h, t)"
    using tcp_Subscribe_law [of "fst s" E "fst d" "fst (snd d)" "snd (snd d)" "snd s" "Inr h" t] that
    by (simp add: tcp_add_def)
  show "tcp_ok (fst t) \<and> tcp_table t = tcp_table s" if "tcp_ok (fst s)" "tcp_add E d s = (Inl e, t)"
    using tcp_Subscribe_law [of "fst s" E "fst d" "fst (snd d)" "snd (snd d)" "snd s" "Inl e" t] that
    by (simp add: tcp_add_def)
  show "tcp_ok (fst t) \<and> tcp_table t = (tcp_table s)(h := None) \<and> (\<forall>x. r = Inr x \<longrightarrow> x = snd (snd d))"
    if "tcp_ok (fst s)" "tcp_table s h = Some d" "tcp_Unsubscribe E h s = (r, t)"
    using tcp_Unsubscribe_law [of "fst s" "snd s" h "fst d" "fst (snd d)" "snd (snd d)" E r t] that by simp
  show "tcp_ok (fst t) \<and> tcp_table t = tcp_table s"
    if "tcp_ok (fst s)" "h \<noteq> 0" "tcp_table s h = None" "tcp_Unsubscribe E h s = (r, t)"
    using tcp_Unsubscribe_unknown [of "fst s" "snd s" h E] that by auto
qed

end
