(* ===== verification/ModuleManager_Model.thy ===== *)
theory ModuleManager_Model
  imports TCPModule_Model
begin

text \<open>
  Loading the transports and the stream modules: \<open>src/ModuleManager.cc\<close>, its build for Tizen RT
  \<open>src/ModuleManager_RT.cc\<close>, the placeholder \<open>src/NullTransport.cc\<close> and the entry point of a
  transport \<open>modules/transport_entry.cc\<close>.

  Which libraries can be opened, which define the entry point and what the constructor of a stream
  module does is given by the environment.  The libraries of the TCP transport construct the module
  of \<open>TCPModule_Model\<close>.  A stream is a number; the list of the deleted ones is kept.
\<close>

record mm_env =
  dl_open :: "string list \<Rightarrow> string \<Rightarrow> bool"
  dl_sym :: "string \<Rightarrow> bool"
  stream_new :: "int \<Rightarrow> string \<Rightarrow> AittStreamRole \<Rightarrow> exn + bool"

record ModuleManager =
  mm_ip :: string
  transport_handles :: "bool list"
  transports :: "TCPModule option list"
  streams_in_use :: "ptr list"
  stream_handles :: "bool list"
  custom_mqtt_handle :: bool
  mm_next_stream :: ptr
  mm_deleted :: "ptr list"
  mm_opened :: "string list"

type_synonym mm_world = "ModuleManager \<times> AittDiscovery"

abbreviation (input) TYPE_TCP :: nat where "TYPE_TCP \<equiv> 0"
abbreviation (input) TYPE_TCP_SECURE :: nat where "TYPE_TCP_SECURE \<equiv> 1"
abbreviation (input) TYPE_TRANSPORT_MAX :: nat where "TYPE_TRANSPORT_MAX \<equiv> 2"

section \<open>Opening libraries\<close>

definition GetTransportFileName :: "nat \<Rightarrow> string" where
  "GetTransportFileName type =
     (if type = TYPE_TCP \<or> type = TYPE_TCP_SECURE then ''libaitt-transport-tcp.so'' else ''Unknown'')"

definition GetStreamFileName :: "int \<Rightarrow> string" where
  "GetStreamFileName type =
     (if type = AITT_STREAM_TYPE_WEBRTC then ''libaitt-stream-webrtc.so''
      else if type = AITT_STREAM_TYPE_RTSP then ''libaitt-stream-rtsp.so'' else ''Unknown'')"

definition OpenModule :: "mm_env \<Rightarrow> string \<Rightarrow> (ModuleManager, unit) act" where
  "OpenModule E file =
     (\<lambda>m. let m1 = m\<lparr>mm_opened := mm_opened m @ [file]\<rparr>
          in if dl_open E (mm_opened m) file then (Inr (), m1) else (Inl (AittException SYSTEM_ERR), m1))"

definition OpenTransport :: "mm_env \<Rightarrow> nat \<Rightarrow> (ModuleManager, unit) act" where
  "OpenTransport E type =
     OpenModule E (GetTransportFileName (if type = TYPE_TCP_SECURE then TYPE_TCP else type))"

definition on_mm :: "(ModuleManager, 'a) act \<Rightarrow> (mm_world, 'a) act" where
  "on_mm = zoom fst (\<lambda>m w. (m, snd w))"

definition on_mm_disc :: "(AittDiscovery, 'a) act \<Rightarrow> (mm_world, 'a) act" where
  "on_mm_disc = zoom snd (\<lambda>d w. (fst w, d))"

lemma on_mm_run [act_simps]: "on_mm a w = (case a (fst w) of (r, m) \<Rightarrow> (r, (m, snd w)))"
  by (simp add: on_mm_def act_simps)

lemma on_mm_disc_run [act_simps]: "on_mm_disc a w = (case a (snd w) of (r, d) \<Rightarrow> (r, (fst w, d)))"
  by (simp add: on_mm_disc_def act_simps)

text \<open>The flag a transport is constructed for: the enumeration counts the shifts of \<open>AittProtocol\<close>.\<close>

definition transport_protocol :: "nat \<Rightarrow> AittProtocol" where
  "transport_protocol type = push_bit (type + 1) 1"

definition AITT_TRANSPORT_NEW :: "AittProtocol \<Rightarrow> string \<Rightarrow> (AittDiscovery, TCPModule) act" where
  "AITT_TRANSPORT_NEW type my_ip = TCPModule_ctor type my_ip"

definition LoadTransport :: "mm_env \<Rightarrow> nat \<Rightarrow> (mm_world, unit) act" where
  "LoadTransport E type =
     (\<lambda>w. case OpenTransport E type (fst w) of
        (Inl e, m) \<Rightarrow> (Inr (), (m, snd w))
      | (Inr u, m) \<Rightarrow>
          let m1 = m\<lparr>transport_handles := (transport_handles m)[type := True]\<rparr>
          in if \<not> dl_sym E (GetTransportFileName type) then (Inr (), (m1, snd w))
             else bnd (on_mm_disc (AITT_TRANSPORT_NEW (transport_protocol type) (mm_ip m1))) (\<lambda>tr.
                  on_mm (upd (\<lambda>m. m\<lparr>transports := (transports m)[type := Some tr]\<rparr>))) (m1, snd w))"

definition ModuleManager_ctor :: "mm_env \<Rightarrow> string \<Rightarrow> (AittDiscovery, ModuleManager) act" where
  "ModuleManager_ctor E my_ip =
     (\<lambda>d. case sq (forA [TYPE_TCP ..< TYPE_TRANSPORT_MAX] (\<lambda>i.
                   sq (on_mm (upd (\<lambda>m. m\<lparr>transport_handles := transport_handles m @ [False]\<rparr>))) (LoadTransport E i)))
                (forA [AITT_STREAM_TYPE_WEBRTC .. AITT_STREAM_TYPE_MAX - 1] (\<lambda>i.
                   on_mm (upd (\<lambda>m. m\<lparr>stream_handles := stream_handles m @ [False]\<rparr>))))
                (\<lparr>mm_ip = my_ip, transport_handles = [], transports = [None, None], streams_in_use = [], stream_handles = [],
                  custom_mqtt_handle = False, mm_next_stream = 1, mm_deleted = [], mm_opened = []\<rparr>, d) of
        (Inl e, (m, d1)) \<Rightarrow> (Inl e, d1)
      | (Inr u, (m, d1)) \<Rightarrow> (Inr m, d1))"

section \<open>The transports\<close>

text \<open>A reference to a transport: the loaded module of that index, or the null transport.\<close>

datatype transport = Loaded nat | Null_transport

definition Convert :: "AittProtocol \<Rightarrow> exn + nat" where
  "Convert type =
     (if type = AITT_TYPE_TCP then Inr TYPE_TCP
      else if type = AITT_TYPE_TCP_SECURE then Inr TYPE_TCP_SECURE
      else Inl (AittException NO_DATA_ERR))"

definition mm_Get :: "AittProtocol \<Rightarrow> (mm_world, transport) act" where
  "mm_Get protocol =
     (\<lambda>w. case Convert protocol of
        Inl e \<Rightarrow> (Inl e, w)
      | Inr type \<Rightarrow> (Inr (case transports (fst w) ! type of None \<Rightarrow> Null_transport | Some _ \<Rightarrow> Loaded type), w))"

definition null_Publish :: "string \<Rightarrow> byte list \<Rightarrow> int \<Rightarrow> (mm_world, unit) act" where
  "null_Publish topic data datalen = ret ()"

definition null_Subscribe :: "string \<Rightarrow> nat \<Rightarrow> ptr \<Rightarrow> (mm_world, ptr) act" where
  "null_Subscribe topic cb cbdata = ret nullptr"

definition null_Unsubscribe :: "ptr \<Rightarrow> (mm_world, ptr) act" where
  "null_Unsubscribe handle = ret nullptr"

definition null_PublishWithReply :: "string \<Rightarrow> byte list \<Rightarrow> int \<Rightarrow> string \<Rightarrow> string \<Rightarrow> (mm_world, unit) act" where
  "null_PublishWithReply topic data datalen reply_topic correlation = ret ()"

definition null_SendReply :: "AittMsg option \<Rightarrow> byte list \<Rightarrow> int \<Rightarrow> (mm_world, unit) act" where
  "null_SendReply msg data datalen = ret ()"

definition null_CountSubscriber :: "string \<Rightarrow> (mm_world, int) act" where
  "null_CountSubscriber topic = ret 0"

lemmas null_defs = null_Publish_def null_Subscribe_def null_Unsubscribe_def null_PublishWithReply_def
  null_SendReply_def null_CountSubscriber_def

text \<open>A virtual call on a transport.\<close>

definition on_transport :: "(tcp_world, 'a) act \<Rightarrow> (mm_world, 'a) act \<Rightarrow> transport \<Rightarrow> (mm_world, 'a) act" where
  "on_transport a null tr =
     (case tr of
        Null_transport \<Rightarrow> null
      | Loaded i \<Rightarrow> (\<lambda>w. case transports (fst w) ! i of
            None \<Rightarrow> (Inl (UndefinedBehaviour ''null transport''), w)
          | Some t \<Rightarrow> (case a (t, snd w) of
              (r, (t1, d1)) \<Rightarrow> (r, ((fst w)\<lparr>transports := (transports (fst w))[i := Some t1]\<rparr>, d1)))))"

definition on_Get :: "AittProtocol \<Rightarrow> (tcp_world, 'a) act \<Rightarrow> (mm_world, 'a) act \<Rightarrow> (mm_world, 'a) act" where
  "on_Get protocol a null = bnd (mm_Get protocol) (on_transport a null)"

section \<open>Streams and the custom broker\<close>

definition NewStreamModule :: "mm_env \<Rightarrow> int \<Rightarrow> string \<Rightarrow> AittStreamRole \<Rightarrow> (ModuleManager, ptr) act" where
  "NewStreamModule E type topic role =
     sq (\<lambda>m. if stream_handles m ! nat type then (Inr (), m)
             else sq (OpenModule E (GetStreamFileName type))
                     (upd (\<lambda>m. m\<lparr>stream_handles := (stream_handles m)[nat type := True]\<rparr>)) m)
     (\<lambda>m. if \<not> dl_sym E (GetStreamFileName type) then (Inl (AittException SYSTEM_ERR), m)
          else (case stream_new E type topic role of
                  Inl e \<Rightarrow> (Inl e, m)
                | Inr False \<Rightarrow> (Inl (AittException SYSTEM_ERR), m)
                | Inr True \<Rightarrow> (Inr (mm_next_stream m), m\<lparr>mm_next_stream := mm_next_stream m + 1\<rparr>)))"

text \<open>
  The library of a custom broker is not part of the sources: \<open>entry\<close> is its entry point, which
  returns an object or a null pointer.
\<close>

definition NewCustomMQ :: "mm_env \<Rightarrow> (string \<Rightarrow> AittOption \<Rightarrow> 'mq option) \<Rightarrow> string \<Rightarrow> AittOption \<Rightarrow> (ModuleManager, 'mq) act" where
  "NewCustomMQ E entry ident option =
     sq (\<lambda>m. if custom_mqtt_handle m then (Inr (), m)
             else sq (OpenModule E ''libaitt-st-broker.so'') (upd (\<lambda>m. m\<lparr>custom_mqtt_handle := True\<rparr>)) m)
     (if \<not> dl_sym E ''libaitt-st-broker.so'' then raise (AittException SYSTEM_ERR)
      else (case entry ident option of
              None \<Rightarrow> raise (AittException SYSTEM_ERR)
            | Some mq \<Rightarrow> ret mq))"

definition mm_CreateStream :: "mm_env \<Rightarrow> int \<Rightarrow> string \<Rightarrow> AittStreamRole \<Rightarrow> (ModuleManager, ptr) act" where
  "mm_CreateStream E type topic role =
     (if type < 0 \<or> AITT_STREAM_TYPE_MAX \<le> type then ret nullptr
      else tryA (bnd (NewStreamModule E type topic role) (\<lambda>stream.
                 sq (upd (\<lambda>m. m\<lparr>streams_in_use := streams_in_use m @ [stream]\<rparr>)) (ret stream)))
             (\<lambda>_. ret nullptr))"

definition mm_DestroyStream :: "ptr \<Rightarrow> ModuleManager \<Rightarrow> ModuleManager" where
  "mm_DestroyStream stream m =
     (case index_of stream (streams_in_use m) of
        None \<Rightarrow> m
      | Some i \<Rightarrow> m\<lparr>streams_in_use := erase_at i (streams_in_use m), mm_deleted := mm_deleted m @ [stream]\<rparr>)"

definition mm_DestroyStreamAll :: "ModuleManager \<Rightarrow> ModuleManager" where
  "mm_DestroyStreamAll m = m\<lparr>streams_in_use := [], mm_deleted := mm_deleted m @ streams_in_use m\<rparr>"

section \<open>The build for Tizen RT\<close>

definition rt_ModuleManager_ctor :: "string \<Rightarrow> (AittDiscovery, ModuleManager) act" where
  "rt_ModuleManager_ctor my_ip =
     bnd (TCPModule_ctor AITT_TYPE_TCP my_ip) (\<lambda>tcp.
     bnd (TCPModule_ctor AITT_TYPE_TCP_SECURE my_ip) (\<lambda>secure.
     ret \<lparr>mm_ip = my_ip, transport_handles = [], transports = [Some tcp, Some secure], streams_in_use = [], stream_handles = [],
          custom_mqtt_handle = False, mm_next_stream = 1, mm_deleted = [], mm_opened = []\<rparr>))"

definition rt_CreateStream :: "int \<Rightarrow> string \<Rightarrow> AittStreamRole \<Rightarrow> (ModuleManager, ptr) act" where
  "rt_CreateStream type topic role = raise (AittException NOT_SUPPORTED)"

definition rt_Convert :: "AittProtocol \<Rightarrow> exn + nat" where
  "rt_Convert type =
     (if type = AITT_TYPE_TCP then Inr TYPE_TCP
      else if type = AITT_TYPE_TCP_SECURE then Inr TYPE_TCP_SECURE
      else Inl (AittException NO_DATA_ERR))"

definition rt_Get :: "AittProtocol \<Rightarrow> (mm_world, transport) act" where
  "rt_Get protocol =
     (\<lambda>w. case rt_Convert protocol of
        Inl e \<Rightarrow> (Inl e, w)
      | Inr type \<Rightarrow> (Inr (case transports (fst w) ! type of None \<Rightarrow> Null_transport | Some _ \<Rightarrow> Loaded type), w))"

definition rt_DestroyStream :: "ptr \<Rightarrow> ModuleManager \<Rightarrow> ModuleManager" where
  "rt_DestroyStream stream m = m"

definition rt_DestroyStreamAll :: "ModuleManager \<Rightarrow> ModuleManager" where
  "rt_DestroyStreamAll m = m"

text \<open>
  The client that this build constructs for a custom broker is a stub without members: nothing is
  sent, no callback is kept, every handle is null and no topic matches.
\<close>

datatype CustomMQ = CustomMQ

definition rt_NewCustomMQ :: "string \<Rightarrow> AittOption \<Rightarrow> (ModuleManager, CustomMQ) act" where
  "rt_NewCustomMQ ident option = ret CustomMQ"

definition custom_SetConnectionCallback :: "nat option \<Rightarrow> (CustomMQ, unit) act" where
  "custom_SetConnectionCallback cb = ret ()"

definition custom_Connect :: "string \<Rightarrow> int \<Rightarrow> string \<Rightarrow> string \<Rightarrow> (CustomMQ, unit) act" where
  "custom_Connect host port username password = ret ()"

definition custom_SetWillInfo :: "string \<Rightarrow> byte list \<Rightarrow> int \<Rightarrow> bool \<Rightarrow> (CustomMQ, unit) act" where
  "custom_SetWillInfo topic msg qos retain = ret ()"

definition custom_Disconnect :: "(CustomMQ, unit) act" where
  "custom_Disconnect = ret ()"

definition custom_Publish :: "string \<Rightarrow> byte list \<Rightarrow> int \<Rightarrow> bool \<Rightarrow> (CustomMQ, unit) act" where
  "custom_Publish topic data qos retain = ret ()"

definition custom_PublishWithReply :: "string \<Rightarrow> byte list \<Rightarrow> int \<Rightarrow> bool \<Rightarrow> string \<Rightarrow> string \<Rightarrow> (CustomMQ, unit) act" where
  "custom_PublishWithReply topic data qos retain reply_topic correlation = ret ()"

definition custom_SendReply :: "AittMsg option \<Rightarrow> byte list \<Rightarrow> int \<Rightarrow> bool \<Rightarrow> (CustomMQ, unit) act" where
  "custom_SendReply msg data qos retain = ret ()"

definition custom_Subscribe :: "string \<Rightarrow> nat \<Rightarrow> ptr \<Rightarrow> int \<Rightarrow> (CustomMQ, ptr) act" where
  "custom_Subscribe topic cb user_data qos = ret nullptr"

definition custom_Unsubscribe :: "ptr \<Rightarrow> (CustomMQ, ptr) act" where
  "custom_Unsubscribe handle = ret nullptr"

definition custom_CompareTopic :: "string \<Rightarrow> string \<Rightarrow> bool" where
  "custom_CompareTopic left right = False"

text \<open>
  Unlike the handles of \<open>MosquittoMQ\<close>, those of the stub do not tell two subscriptions apart: it is no handle table,
  and unsubscribing does not give the user data back.
\<close>

lemma custom_Subscribe_no_handle:
  "bnd (custom_Subscribe topic cb user_data qos) custom_Unsubscribe c = (Inr nullptr, c)"
  "fst (custom_Subscribe t1 c1 u1 q1 c) = fst (custom_Subscribe t2 c2 u2 q2 c)"
  by (simp_all add: custom_Subscribe_def custom_Unsubscribe_def act_simps)

section \<open>Which transport a protocol gets\<close>

lemma TCPModule_ctor_run:
  "TCPModule_ctor type ip d =
     (Inr \<lparr>tm_secure = (type = AITT_TYPE_TCP_SECURE), tm_ip = ip, tm_discovery_cb = wrap32 (disc_next_id d + 1), publishTable = [],
           subscribeTable = [], subscribe_handles = [], clientTable = [], tm_watches = [], tm_next_ptr = 1, tm_trace = [],
           tm_sent = [], tm_delivered = []\<rparr>,
      d\<lparr>disc_next_id := wrap32 (disc_next_id d + 1),
        disc_callbacks := omap_insert (wrap32 (disc_next_id d + 1)) (tcp_NAME (type = AITT_TYPE_TCP_SECURE), TCP_DISCOVERY_CB) (disc_callbacks d)\<rparr>)"
  by (simp add: TCPModule_ctor_def AddDiscoveryCB_def Let_def act_simps)

definition loads :: "mm_env \<Rightarrow> bool" where
  "loads E \<longleftrightarrow> (\<forall>seen. dl_open E seen ''libaitt-transport-tcp.so'') \<and> dl_sym E ''libaitt-transport-tcp.so''"

lemma transport_protocol_eq [simp]:
  "transport_protocol 0 = AITT_TYPE_TCP" "transport_protocol (Suc 0) = AITT_TYPE_TCP_SECURE"
  by (simp_all add: transport_protocol_def)

text \<open>C20. Where the library of the TCP transport can be opened and has the entry point, the module
  manager that loads it holds the same transports, registered with the discovery object in the same
  way, as the build for Tizen RT that constructs them directly, and hands out the same one for every protocol.
\<close>

theorem loading_is_construction:
  assumes "loads E"
  shows "\<exists>m r d1. ModuleManager_ctor E ip d = (Inr m, d1) \<and> rt_ModuleManager_ctor ip d = (Inr r, d1) \<and>
    transports m = transports r \<and> transport_handles m = [True, True] \<and> stream_handles m = [False, False] \<and>
    (\<forall>protocol d2. fst (mm_Get protocol (m, d2)) = fst (rt_Get protocol (r, d2)))"
proof -
  have "[0..<2] = [0, 1::nat]" "[0..1::int] = [0, 1]" by (simp_all add: upt_rec upto.simps)
  with assms show ?thesis
    by (simp add: ModuleManager_ctor_def rt_ModuleManager_ctor_def LoadTransport_def OpenTransport_def OpenModule_def
        GetTransportFileName_def AITT_TRANSPORT_NEW_def TCPModule_ctor_run loads_def act_simps Let_def
        mm_Get_def rt_Get_def Convert_def rt_Convert_def)
qed

theorem loading_is_construction_witness:
  "\<exists>m r d1. ModuleManager_ctor \<lparr>dl_open = \<lambda>_ _. True, dl_sym = \<lambda>_. True, stream_new = \<lambda>_ _ _. Inr True\<rparr> ''ip'' (AittDiscovery_new ''me'') = (Inr m, d1) \<and>
     rt_ModuleManager_ctor ''ip'' (AittDiscovery_new ''me'') = (Inr r, d1) \<and> transports m = transports r"
  using loading_is_construction [of "\<lparr>dl_open = \<lambda>_ _. True, dl_sym = \<lambda>_. True, stream_new = \<lambda>_ _ _. Inr True\<rparr>" "''ip''" "AittDiscovery_new ''me''"]
  by (fastforce simp: loads_def)

text \<open>C21. Whatever can be opened, \<open>Get\<close> hands out for a TCP protocol a module that was constructed
  for exactly this protocol and for the address of the manager, or the null transport; for any other
  value it throws.
\<close>

theorem Get_matches_protocol:
  assumes "ModuleManager_ctor E ip d = (Inr m, d1)"
  shows "case fst (mm_Get protocol (m, d1)) of
     Inl e \<Rightarrow> e = AittException NO_DATA_ERR \<and> protocol \<notin> {AITT_TYPE_TCP, AITT_TYPE_TCP_SECURE}
   | Inr Null_transport \<Rightarrow> \<not> loads E \<and> protocol \<in> {AITT_TYPE_TCP, AITT_TYPE_TCP_SECURE}
   | Inr (Loaded i) \<Rightarrow> protocol = transport_protocol i \<and>
       (\<exists>t. transports m ! i = Some t \<and> tm_secure t = (protocol = AITT_TYPE_TCP_SECURE) \<and> tm_ip t = ip \<and> tcp_ok t)"
proof -
  have "[0..<2] = [0, 1::nat]" "[0..1::int] = [0, 1]" by (simp_all add: upt_rec upto.simps)
  with assms show ?thesis
    by (auto simp: ModuleManager_ctor_def LoadTransport_def OpenTransport_def OpenModule_def GetTransportFileName_def
        AITT_TRANSPORT_NEW_def TCPModule_ctor_run loads_def act_simps Let_def mm_Get_def Convert_def tcp_ok_def tables_ok_def
        split: if_splits)
qed

theorem Get_matches_protocol_witness:
  "\<exists>m d1. ModuleManager_ctor \<lparr>dl_open = \<lambda>seen _. seen \<noteq> [], dl_sym = \<lambda>_. True, stream_new = \<lambda>_ _ _. Inr True\<rparr> ''ip'' (AittDiscovery_new ''me'') = (Inr m, d1) \<and>
     fst (mm_Get AITT_TYPE_TCP (m, d1)) = Inr Null_transport \<and>
     (\<exists>t. transports m ! 1 = Some t \<and> tm_secure t \<and> tcp_ok t)"
proof -
  define E where "E = \<lparr>dl_open = \<lambda>seen _. seen \<noteq> [], dl_sym = \<lambda>_. True, stream_new = \<lambda>_ _ _. Inr True\<rparr>"
  have "[0..<2] = [0, 1::nat]" "[0..1::int] = [0, 1]" by (simp_all add: upt_rec upto.simps)
  then obtain m d1 where m: "ModuleManager_ctor E ''ip'' (AittDiscovery_new ''me'') = (Inr m, d1)"
    and g: "fst (mm_Get AITT_TYPE_TCP (m, d1)) = Inr Null_transport" "fst (mm_Get AITT_TYPE_TCP_SECURE (m, d1)) = Inr (Loaded 1)"
    by (simp add: E_def ModuleManager_ctor_def LoadTransport_def OpenTransport_def OpenModule_def GetTransportFileName_def
        AITT_TRANSPORT_NEW_def TCPModule_ctor_run act_simps Let_def mm_Get_def Convert_def)
  show ?thesis using Get_matches_protocol [OF m, of AITT_TYPE_TCP_SECURE] m g unfolding E_def by auto
qed

section \<open>Every stream is deleted once\<close>

definition streams_ok :: "ModuleManager \<Rightarrow> bool" where
  "streams_ok m \<longleftrightarrow> 0 < mm_next_stream m \<and> distinct (streams_in_use m @ mm_deleted m) \<and>
     set (streams_in_use m @ mm_deleted m) = {1 ..< mm_next_stream m}"

inductive mm_step :: "mm_env \<Rightarrow> ModuleManager \<Rightarrow> ModuleManager \<Rightarrow> bool" for E where
  create: "mm_step E m (snd (mm_CreateStream E type topic role m))"
| destroy: "mm_step E m (mm_DestroyStream stream m)"
| destroy_all: "mm_step E m (mm_DestroyStreamAll m)"

definition mm_init :: "mm_env \<Rightarrow> ModuleManager \<Rightarrow> bool" where
  "mm_init E m \<longleftrightarrow> (\<exists>ip d d1. ModuleManager_ctor E ip d = (Inr m, d1))"

definition same_streams :: "ModuleManager \<Rightarrow> ModuleManager \<Rightarrow> bool" where
  "same_streams m n \<longleftrightarrow> streams_in_use n = streams_in_use m \<and> mm_deleted n = mm_deleted m \<and> mm_next_stream n = mm_next_stream m"

lemma LoadTransport_streams: "preserves (\<lambda>w. same_streams m0 (fst w)) (LoadTransport E i)"
  by (rule preservesI)
     (auto simp: same_streams_def LoadTransport_def OpenTransport_def OpenModule_def AITT_TRANSPORT_NEW_def TCPModule_ctor_run
        act_simps Let_def split: prod.split)

lemma on_mm_streams:
  "(\<And>m. same_streams m (f m)) \<Longrightarrow> preserves (\<lambda>w. same_streams m0 (fst w)) (on_mm (upd f))"
  by (rule preservesI) (simp add: act_simps same_streams_def)

lemma mm_init_streams: "mm_init E m \<Longrightarrow> streams_ok m"
proof -
  assume "mm_init E m"
  then obtain ip d d1 where c: "ModuleManager_ctor E ip d = (Inr m, d1)" by (auto simp: mm_init_def)
  define m0 where "m0 = \<lparr>mm_ip = ip, transport_handles = [], transports = [None, None], streams_in_use = [], stream_handles = [],
                  custom_mqtt_handle = False, mm_next_stream = 1, mm_deleted = [], mm_opened = []\<rparr>"
  have "preserves (\<lambda>w. same_streams m0 (fst w))
      (sq (forA [TYPE_TCP ..< TYPE_TRANSPORT_MAX] (\<lambda>i.
                   sq (on_mm (upd (\<lambda>m. m\<lparr>transport_handles := transport_handles m @ [False]\<rparr>))) (LoadTransport E i)))
                (forA [AITT_STREAM_TYPE_WEBRTC .. AITT_STREAM_TYPE_MAX - 1] (\<lambda>i.
                   on_mm (upd (\<lambda>m. m\<lparr>stream_handles := stream_handles m @ [False]\<rparr>)))))"
    by (intro preserves_intros LoadTransport_streams on_mm_streams) (simp_all add: same_streams_def)
  from preservesD [OF this, of "(m0, d)"] have "same_streams m0 m"
    using c by (auto simp: ModuleManager_ctor_def m0_def same_streams_def split: prod.splits sum.splits)
  then show ?thesis by (simp add: streams_ok_def same_streams_def m0_def)
qed

lemma NewStreamModule_streams:
  assumes "NewStreamModule E type topic role m = (r, n)"
  shows "case r of Inl e \<Rightarrow> same_streams m n
    | Inr p \<Rightarrow> p = mm_next_stream m \<and> streams_in_use n = streams_in_use m \<and> mm_deleted n = mm_deleted m \<and> mm_next_stream n = mm_next_stream m + 1"
  using assms
  by (auto simp: NewStreamModule_def OpenModule_def act_simps Let_def same_streams_def split: if_splits sum.splits bool.splits)

lemma CreateStream_streams: "streams_ok m \<Longrightarrow> streams_ok (snd (mm_CreateStream E type topic role m))"
proof -
  assume ok: "streams_ok m"
  obtain r n where n: "NewStreamModule E type topic role m = (r, n)" by fastforce
  show ?thesis using ok NewStreamModule_streams [OF n] n
    by (cases r) (auto simp: mm_CreateStream_def act_simps streams_ok_def same_streams_def split: exn.splits)
qed

lemma DestroyStream_streams: "streams_ok m \<Longrightarrow> streams_ok (mm_DestroyStream p m)"
proof (cases "index_of p (streams_in_use m)")
  case (Some i)
  assume ok: "streams_ok m"
  from index_of_Some [OF Some] have "streams_in_use m = take i (streams_in_use m) @ p # drop (Suc i) (streams_in_use m)"
    by (metis id_take_nth_drop)
  then obtain xs ys where "streams_in_use m = xs @ p # ys" "erase_at i (streams_in_use m) = xs @ ys"
    by (metis erase_at_def)
  with Some ok show ?thesis by (auto simp: mm_DestroyStream_def streams_ok_def)
qed (simp add: mm_DestroyStream_def)

lemma DestroyStreamAll_streams: "streams_ok m \<Longrightarrow> streams_ok (mm_DestroyStreamAll m)"
  by (auto simp: mm_DestroyStreamAll_def streams_ok_def)

interpretation streams: invariant_system "mm_init E" "mm_step E" streams_ok for E
proof
  show "streams_ok m" if "mm_init E m" for m using that by (rule mm_init_streams)
  show "streams_ok n" if "streams_ok m" and "mm_step E m n" for m n
    using that(2,1) by cases (simp_all add: CreateStream_streams DestroyStream_streams DestroyStreamAll_streams)
qed



end
