(* ===== verification/AITT_Model.thy ===== *)
theory AITT_Model
  imports MQDiscovery_Model ModuleManager_Model
begin

text \<open>
  The library's public class and its implementation: \<open>src/AITT.cc\<close> and \<open>src/AITTImpl.cc\<close>.

  The object owns the MQTT client, the discovery object with its own client, the handler that
  advertises the MQTT subscriptions, the transports and the main loop.  Its operations act on one
  record that holds all of them.

  A \<open>SubscribeInfo\<close> on the heap is a number; the closure given to the MQTT client or to a
  transport captures it, so the closure is registered under the same number.  Calls of an
  application callback are recorded as events; what the application does in the callback is the
  next operation.  The main loop's idle queue holds the bound \<open>DetachedCB\<close> and
  \<open>ConnectionCB\<close> calls; \<open>PublishWithReplySync\<close> runs a loop of its own.
\<close>

section \<open>State\<close>

text \<open>
  The callbacks that reach \<open>DetachedCB\<close>: an application callback, or the lambda of
  \<open>PublishWithReply\<close> or of \<open>PublishWithReplySync\<close> around one (with the number of its loop).
\<close>

datatype user_cb = UserCb nat | ReplyCb nat | SyncCb nat nat

record sub_closure =
  cl_cb :: user_cb
  cl_protocol :: AittProtocol
  cl_loop :: "nat option"

datatype idle_task =
    Detached user_cb AittMsg "byte list" ptr
  | ConnectionTask nat ptr int

datatype app_event =
    AppMessage nat AittMsg "byte list" ptr
  | AppConnection nat ptr int

record sync_loop =
  sl_idle :: "idle_task list"
  sl_armed :: bool
  sl_timeout_ms :: int
  sl_is_timeout :: bool
  sl_quit :: bool

record Impl =
  im_discovery :: AittDiscovery
  im_idle :: "idle_task list"
  im_modules :: ModuleManager
  im_mdh :: MQDiscoveryHandler
  im_mq :: MosquittoMQ
  im_connection_cb :: "(nat \<times> ptr) option"
  subscribed_list :: "ptr list"
  im_infos :: "(ptr, AittProtocol \<times> ptr) omap"
  im_closures :: "(ptr, sub_closure) omap"
  im_next_info :: ptr
  im_id :: string
  mqtt_broker_ip :: string
  mqtt_broker_port :: int
  reply_id :: "16 word"
  im_syncs :: "(nat, sync_loop) omap"
  im_next_sync :: nat
  im_events :: "app_event list"

record impl_env =
  ie_mq :: mq_env
  ie_tcp :: tcp_env
  ie_mm :: mm_env
  ie_custom :: "string \<Rightarrow> AittOption \<Rightarrow> MosquittoMQ option"
  ie_timer_ok :: bool

text \<open>The environment and the encoder of the discovery object, which the transports share.\<close>

abbreviation ie_disc :: "impl_env \<Rightarrow> mq_env" where "ie_disc E \<equiv> te_mq (ie_tcp E)"
abbreviation ie_fb :: "impl_env \<Rightarrow> flexbuf" where "ie_fb E \<equiv> te_fb (ie_tcp E)"

definition im_on_mq :: "(MosquittoMQ, 'a) act \<Rightarrow> (Impl, 'a) act" where
  "im_on_mq = zoom im_mq (\<lambda>q s. s\<lparr>im_mq := q\<rparr>)"

definition im_on_disc :: "(AittDiscovery, 'a) act \<Rightarrow> (Impl, 'a) act" where
  "im_on_disc = zoom im_discovery (\<lambda>d s. s\<lparr>im_discovery := d\<rparr>)"

definition im_on_mm :: "(mm_world, 'a) act \<Rightarrow> (Impl, 'a) act" where
  "im_on_mm = zoom (\<lambda>s. (im_modules s, im_discovery s)) (\<lambda>w s. s\<lparr>im_modules := fst w, im_discovery := snd w\<rparr>)"

definition im_on_mdh :: "(mdh_world, 'a) act \<Rightarrow> (Impl, 'a) act" where
  "im_on_mdh = zoom (\<lambda>s. (im_mdh s, im_discovery s)) (\<lambda>w s. s\<lparr>im_mdh := fst w, im_discovery := snd w\<rparr>)"

lemma im_on_run [act_simps]:
  "im_on_mq a s = (case a (im_mq s) of (r, q) \<Rightarrow> (r, s\<lparr>im_mq := q\<rparr>))"
  "im_on_disc b s = (case b (im_discovery s) of (r, d) \<Rightarrow> (r, s\<lparr>im_discovery := d\<rparr>))"
  "im_on_mm c s = (case c (im_modules s, im_discovery s) of (r, w) \<Rightarrow> (r, s\<lparr>im_modules := fst w, im_discovery := snd w\<rparr>))"
  "im_on_mdh e s = (case e (im_mdh s, im_discovery s) of (r, w) \<Rightarrow> (r, s\<lparr>im_mdh := fst w, im_discovery := snd w\<rparr>))"
  by (simp_all add: im_on_mq_def im_on_disc_def im_on_mm_def im_on_mdh_def act_simps)

section \<open>Construction and connection\<close>

text \<open>
  The option with the clean session switched off that the code builds for the discovery client of a
  custom broker is not the one it passes.
\<close>

definition Impl_mqs :: "impl_env \<Rightarrow> string \<Rightarrow> AittOption \<Rightarrow> (ModuleManager, MosquittoMQ \<times> MosquittoMQ) act" where
  "Impl_mqs E ident option =
     (if opt_use_custom_broker option
      then bnd (NewCustomMQ (ie_mm E) (ie_custom E) ident option) (\<lambda>q.
           bnd (NewCustomMQ (ie_mm E) (ie_custom E) (ident @ ''d'') option) (\<lambda>d. ret (q, d)))
      else (\<lambda>m. case MosquittoMQ_ctor (ie_mq E) ident (opt_clean_session option) MosquittoMQ_init of
              (Inl e, _) \<Rightarrow> (Inl e, m)
            | (Inr _, q) \<Rightarrow>
                (case MosquittoMQ_ctor (ie_disc E) (ident @ ''d'') False MosquittoMQ_init of
                   (Inl e, _) \<Rightarrow> (Inl e, m)
                 | (Inr _, d) \<Rightarrow> (Inr (q, d), m))))"

definition Impl_ctor :: "impl_env \<Rightarrow> string \<Rightarrow> string \<Rightarrow> AittOption \<Rightarrow> exn + Impl" where
  "Impl_ctor E ident my_ip option =
     (case ModuleManager_ctor (ie_mm E) my_ip (AittDiscovery_new ident) of
        (Inl e, _) \<Rightarrow> Inl e
      | (Inr m, d) \<Rightarrow>
          (case MQDiscoveryHandler_ctor ident d of
             (Inl e, _) \<Rightarrow> Inl e
           | (Inr h, d1) \<Rightarrow>
               (case Impl_mqs E ident option m of
                  (Inl e, _) \<Rightarrow> Inl e
                | (Inr (q, dq), m1) \<Rightarrow>
                    Inr \<lparr>im_discovery = snd (disc_SetMQ dq d1), im_idle = [], im_modules = m1, im_mdh = h, im_mq = q,
                         im_connection_cb = None, subscribed_list = [], im_infos = [], im_closures = [], im_next_info = 1,
                         im_id = ident, mqtt_broker_ip = [], mqtt_broker_port = 0, reply_id = 0, im_syncs = [],
                         im_next_sync = 1, im_events = []\<rparr>)))"

definition impl_SetWillInfo :: "impl_env \<Rightarrow> string \<Rightarrow> byte list \<Rightarrow> int \<Rightarrow> bool \<Rightarrow> (Impl, unit) act" where
  "impl_SetWillInfo E topic data qos retain = im_on_mq (mq_SetWillInfo (ie_mq E) topic data qos retain)"

abbreviation (input) IMPL_CONNECTION_CB :: nat where "IMPL_CONNECTION_CB \<equiv> 5"

definition impl_SetConnectionCallback :: "nat option \<Rightarrow> ptr \<Rightarrow> (Impl, unit) act" where
  "impl_SetConnectionCallback cb user_data =
     (case cb of
        None \<Rightarrow> im_on_mq (mq_SetConnectionCallback None)
      | Some n \<Rightarrow> sq (im_on_mq (mq_SetConnectionCallback (Some IMPL_CONNECTION_CB)))
                     (upd (\<lambda>s. s\<lparr>im_connection_cb := Some (n, user_data)\<rparr>)))"

text \<open>The lambda set as the connection callback of the client: it queues \<open>ConnectionCB\<close>.\<close>

definition impl_on_connection :: "nat \<times> int \<Rightarrow> Impl \<Rightarrow> Impl" where
  "impl_on_connection c s =
     (case im_connection_cb s of
        None \<Rightarrow> s
      | Some (n, user_data) \<Rightarrow> s\<lparr>im_idle := im_idle s @ [ConnectionTask n user_data (snd c)]\<rparr>)"

definition impl_mq_connect :: "int \<Rightarrow> Impl \<Rightarrow> Impl" where
  "impl_mq_connect rc s =
     (case ConnectCallback rc (im_mq s) of None \<Rightarrow> s | Some c \<Rightarrow> impl_on_connection c s)"

definition impl_mq_disconnect :: "int \<Rightarrow> Impl \<Rightarrow> Impl" where
  "impl_mq_disconnect rc s =
     (case DisconnectCallback rc (im_mq s) of None \<Rightarrow> s | Some c \<Rightarrow> impl_on_connection c s)"

definition impl_Connect :: "impl_env \<Rightarrow> string \<Rightarrow> int \<Rightarrow> string \<Rightarrow> string \<Rightarrow> (Impl, unit) act" where
  "impl_Connect E host port username password =
     sq (tryA (sq (im_on_disc (disc_Start (ie_disc E) host port username password))
                  (im_on_mq (mq_Connect (ie_mq E) host port username password)))
           (\<lambda>e. sq (im_on_mq (mq_Disconnect (ie_mq E)))
               (sq (im_on_disc (disc_Stop (ie_disc E))) (raise e))))
        (upd (\<lambda>s. s\<lparr>mqtt_broker_ip := host, mqtt_broker_port := port\<rparr>))"

section \<open>Subscriptions\<close>

definition new_info :: "AittProtocol \<Rightarrow> (Impl, ptr) act" where
  "new_info protocol =
     (\<lambda>s. (Inr (im_next_info s),
           s\<lparr>im_next_info := im_next_info s + 1, im_infos := omap_put (im_next_info s) (protocol, nullptr) (im_infos s)\<rparr>))"

definition add_closure :: "ptr \<Rightarrow> sub_closure \<Rightarrow> (Impl, unit) act" where
  "add_closure info c = upd (\<lambda>s. s\<lparr>im_closures := omap_put info c (im_closures s)\<rparr>)"

definition SubscribeMQ :: "impl_env \<Rightarrow> ptr \<Rightarrow> nat option \<Rightarrow> string \<Rightarrow> user_cb \<Rightarrow> ptr \<Rightarrow> int \<Rightarrow> (Impl, ptr) act" where
  "SubscribeMQ E handle loop topic cb user_data qos =
     sq (add_closure handle \<lparr>cl_cb = cb, cl_protocol = AITT_TYPE_MQTT, cl_loop = loop\<rparr>)
     (bnd (im_on_mq (mq_Subscribe (ie_mq E) topic handle user_data qos)) (\<lambda>subscribe_handle.
      sq (im_on_mdh (mdh_Subscribe (ie_disc E) (ie_fb E) subscribe_handle topic)) (ret subscribe_handle)))"

definition SubscribeTCP :: "impl_env \<Rightarrow> ptr \<Rightarrow> AittProtocol \<Rightarrow> string \<Rightarrow> user_cb \<Rightarrow> ptr \<Rightarrow> (Impl, ptr) act" where
  "SubscribeTCP E handle protocol topic cb user_data =
     sq (add_closure handle \<lparr>cl_cb = cb, cl_protocol = protocol, cl_loop = None\<rparr>)
        (im_on_mm (on_Get protocol (tcp_Subscribe (ie_tcp E) topic handle user_data) (null_Subscribe topic handle user_data)))"

definition push_info :: "ptr \<Rightarrow> AittProtocol \<Rightarrow> ptr \<Rightarrow> (Impl, unit) act" where
  "push_info info protocol handle =
     upd (\<lambda>s. s\<lparr>im_infos := omap_put info (protocol, handle) (im_infos s), subscribed_list := subscribed_list s @ [info]\<rparr>)"

definition delete_info :: "ptr \<Rightarrow> (Impl, unit) act" where
  "delete_info info = upd (\<lambda>s. s\<lparr>im_infos := omap_del info (im_infos s)\<rparr>)"

definition impl_Subscribe :: "impl_env \<Rightarrow> string \<Rightarrow> user_cb \<Rightarrow> ptr \<Rightarrow> AittProtocol \<Rightarrow> int \<Rightarrow> (Impl, ptr) act" where
  "impl_Subscribe E topic cb user_data protocol qos =
     bnd (new_info protocol) (\<lambda>info.
     bnd (if protocol = AITT_TYPE_MQTT then SubscribeMQ E info None topic cb user_data qos
          else if protocol = AITT_TYPE_TCP \<or> protocol = AITT_TYPE_TCP_SECURE
          then SubscribeTCP E info protocol topic cb user_data
          else sq (delete_info info) (raise (AittException INVALID_ARG))) (\<lambda>handle.
     sq (push_info info protocol handle) (ret info)))"

text \<open>The part that \<open>Unsubscribe\<close> and \<open>UnsubscribeAll\<close> share: leaving the provider.\<close>

definition leave_provider :: "impl_env \<Rightarrow> AittProtocol \<Rightarrow> ptr \<Rightarrow> (Impl, ptr) act" where
  "leave_provider E protocol handle =
     (if protocol = AITT_TYPE_MQTT
      then bnd (im_on_mq (mq_Unsubscribe (ie_mq E) handle)) (\<lambda>user_data.
           sq (im_on_mdh (mdh_Unsubscribe (ie_disc E) (ie_fb E) handle)) (ret user_data))
      else if protocol = AITT_TYPE_TCP \<or> protocol = AITT_TYPE_TCP_SECURE
      then im_on_mm (on_Get protocol (tcp_Unsubscribe (ie_tcp E) handle) (null_Unsubscribe handle))
      else ret nullptr)"

definition impl_Unsubscribe :: "impl_env \<Rightarrow> ptr \<Rightarrow> (Impl, ptr) act" where
  "impl_Unsubscribe E subscribe_id =
     (\<lambda>s. case index_of subscribe_id (subscribed_list s) of
        None \<Rightarrow> (Inl (AittException NO_DATA_ERR), s)
      | Some i \<Rightarrow>
          (case map_of (im_infos s) subscribe_id of
             None \<Rightarrow> (Inl (UndefinedBehaviour ''info used after delete''), s)
           | Some (protocol, handle) \<Rightarrow>
               bnd (leave_provider E protocol handle) (\<lambda>user_data.
               sq (upd (\<lambda>s. s\<lparr>subscribed_list := erase_at i (subscribed_list s)\<rparr>))
               (sq (delete_info subscribe_id) (ret user_data))) s))"

definition UnsubscribeAll :: "impl_env \<Rightarrow> (Impl, unit) act" where
  "UnsubscribeAll E =
     (\<lambda>s. sq (forA (subscribed_list s) (\<lambda>info s.
                case map_of (im_infos s) info of
                  None \<Rightarrow> (Inl (UndefinedBehaviour ''info used after delete''), s)
                | Some (protocol, handle) \<Rightarrow> sq (leave_provider E protocol handle) (delete_info info) s))
            (upd (\<lambda>s. s\<lparr>subscribed_list := []\<rparr>)) s)"

definition impl_Disconnect :: "impl_env \<Rightarrow> (Impl, unit) act" where
  "impl_Disconnect E =
     sq (UnsubscribeAll E)
     (sq (upd (\<lambda>s. s\<lparr>im_modules := mm_DestroyStreamAll (im_modules s), mqtt_broker_ip := [], mqtt_broker_port := - 1\<rparr>))
     (sq (im_on_disc (disc_Stop (ie_disc E))) (im_on_mq (mq_Disconnect (ie_mq E)))))"

definition Impl_dtor :: "impl_env \<Rightarrow> (Impl, unit) act" where
  "Impl_dtor E =
     sq (\<lambda>s. whenA (mqtt_broker_ip s \<noteq> []) (tryA (impl_Disconnect E) (\<lambda>_. ret ())) s)
        (upd (\<lambda>s. s\<lparr>im_discovery := (im_discovery s)\<lparr>disc_mq := None\<rparr>\<rparr>))"

section \<open>Publishing\<close>

definition has_bits :: "AittProtocol \<Rightarrow> AittProtocol \<Rightarrow> bool" where
  "has_bits protocols p \<longleftrightarrow> and protocols p = p"

definition all_protocols :: AittProtocol where
  "all_protocols = or (or AITT_TYPE_MQTT AITT_TYPE_TCP) AITT_TYPE_TCP_SECURE"

definition impl_Publish ::
  "impl_env \<Rightarrow> string \<Rightarrow> byte list \<Rightarrow> int \<Rightarrow> AittProtocol \<Rightarrow> int \<Rightarrow> bool \<Rightarrow> (Impl, unit) act" where
  "impl_Publish E topic data datalen protocols qos retain =
     (\<lambda>s. if \<not> disc_is_running (im_discovery s) then (Inl (AittException INVALID_STATE), s)
          else if and protocols (not all_protocols) \<noteq> 0 then (Inl (AittException INVALID_ARG), s)
          else sq (whenA (has_bits protocols AITT_TYPE_MQTT) (im_on_mq (mq_Publish (ie_mq E) topic data qos retain)))
              (sq (whenA (has_bits protocols AITT_TYPE_TCP)
                     (im_on_mm (on_Get AITT_TYPE_TCP (tcp_Publish (ie_tcp E) topic data datalen) (null_Publish topic data datalen))))
                  (whenA (has_bits protocols AITT_TYPE_TCP_SECURE)
                     (im_on_mm (on_Get AITT_TYPE_TCP_SECURE (tcp_Publish (ie_tcp E) topic data datalen) (null_Publish topic data datalen))))) s)"

definition RESPONSE_POSTFIX :: string where "RESPONSE_POSTFIX = ''_AittRe_''"

definition reply_topic :: "string \<Rightarrow> 16 word \<Rightarrow> string" where
  "reply_topic topic n = topic @ RESPONSE_POSTFIX @ to_string (uint n)"

text \<open>Taking the next reply topic: \<open>reply_id++\<close> on an \<open>unsigned short\<close>.\<close>

definition next_reply_topic :: "string \<Rightarrow> (Impl, string) act" where
  "next_reply_topic topic = (\<lambda>s. (Inr (reply_topic topic (reply_id s)), s\<lparr>reply_id := reply_id s + 1\<rparr>))"

definition impl_PublishWithReply ::
  "impl_env \<Rightarrow> string \<Rightarrow> byte list \<Rightarrow> int \<Rightarrow> AittProtocol \<Rightarrow> int \<Rightarrow> bool \<Rightarrow> nat \<Rightarrow> ptr \<Rightarrow> string \<Rightarrow> (Impl, unit) act" where
  "impl_PublishWithReply E topic data datalen protocol qos retain cb user_data correlation =
     bnd (next_reply_topic topic) (\<lambda>replyTopic.
     bnd (impl_Subscribe E replyTopic (ReplyCb cb) user_data protocol qos) (\<lambda>i.
     if protocol = AITT_TYPE_MQTT
     then im_on_mq (mq_PublishWithReply (ie_mq E) topic data qos retain replyTopic correlation)
     else if protocol = AITT_TYPE_TCP \<or> protocol = AITT_TYPE_TCP_SECURE
     then im_on_mm (on_Get protocol (tcp_PublishWithReply (ie_tcp E) topic data datalen replyTopic correlation)
            (null_PublishWithReply topic data datalen replyTopic correlation))
     else sq (impl_Unsubscribe E i) (raise (AittException INVALID_ARG))))"

text \<open>The message object that is passed in is changed: the new one is returned.\<close>

definition reply_msg :: "bool \<Rightarrow> AittMsg \<Rightarrow> AittMsg" where
  "reply_msg end_seq msg =
     SetEndSequence end_seq (if \<not> end_seq \<or> GetSequence msg \<noteq> 0 then IncreaseSequence msg else msg)"

definition impl_SendReply :: "impl_env \<Rightarrow> AittMsg option \<Rightarrow> byte list \<Rightarrow> int \<Rightarrow> bool \<Rightarrow> (Impl, AittMsg option) act" where
  "impl_SendReply E msg data datalen end_seq =
     (case msg of
        None \<Rightarrow> ret None
      | Some m0 \<Rightarrow>
          let m = reply_msg end_seq m0 in
          sq (if msg_protocol m = AITT_TYPE_MQTT
              then im_on_mq (mq_SendReply (ie_mq E) m data AITT_QOS_AT_MOST_ONCE False)
              else if msg_protocol m = AITT_TYPE_TCP \<or> msg_protocol m = AITT_TYPE_TCP_SECURE
              then im_on_mm (on_Get (msg_protocol m) (tcp_SendReply (ie_tcp E) (Some m) data datalen) (null_SendReply (Some m) data datalen))
              else ret ())
             (ret (Some m)))"

section \<open>Deliveries\<close>

definition app_event :: "app_event \<Rightarrow> (Impl, unit) act" where
  "app_event e = upd (\<lambda>s. s\<lparr>im_events := im_events s @ [e]\<rparr>)"

text \<open>\<open>catch (AittException &e)\<close> around \<open>Unsubscribe\<close>.\<close>

definition try_Unsubscribe :: "impl_env \<Rightarrow> ptr \<Rightarrow> (Impl, unit) act" where
  "try_Unsubscribe E i =
     tryA (sq (impl_Unsubscribe E i) (ret ())) (\<lambda>e. case e of AittException _ \<Rightarrow> ret () | _ \<Rightarrow> raise e)"

definition sync_upd :: "nat \<Rightarrow> (sync_loop \<Rightarrow> sync_loop) \<Rightarrow> (Impl, unit) act" where
  "sync_upd k f =
     (\<lambda>s. case map_of (im_syncs s) k of
        None \<Rightarrow> (Inl (UndefinedBehaviour ''loop used after delete''), s)
      | Some l \<Rightarrow> (Inr (), s\<lparr>im_syncs := omap_put k (f l) (im_syncs s)\<rparr>))"

definition HandleTimeout :: "impl_env \<Rightarrow> sync_loop \<Rightarrow> sync_loop" where
  "HandleTimeout E l = l\<lparr>sl_armed := (0 < sl_timeout_ms l \<and> ie_timer_ok E)\<rparr>"

fun run_user_cb :: "impl_env \<Rightarrow> user_cb \<Rightarrow> AittMsg \<Rightarrow> byte list \<Rightarrow> ptr \<Rightarrow> (Impl, unit) act" where
  "run_user_cb E (UserCb n) msg data user_data = app_event (AppMessage n msg data user_data)"
| "run_user_cb E (ReplyCb n) msg data user_data =
     sq (whenA (msg_end_sequence msg) (try_Unsubscribe E (msg_id msg)))
        (app_event (AppMessage n msg data user_data))"
| "run_user_cb E (SyncCb n k) msg data user_data =
     sq (if msg_end_sequence msg
         then sq (try_Unsubscribe E (msg_id msg)) (sync_upd k (\<lambda>l. l\<lparr>sl_quit := True\<rparr>))
         else sync_upd k (\<lambda>l. if sl_armed l then HandleTimeout E l else l))
        (app_event (AppMessage n msg data user_data))"

definition ConnectionCB :: "nat \<Rightarrow> ptr \<Rightarrow> int \<Rightarrow> (Impl, unit) act" where
  "ConnectionCB cb user_data status = app_event (AppConnection cb user_data status)"

definition DetachedCB :: "impl_env \<Rightarrow> user_cb \<Rightarrow> AittMsg \<Rightarrow> byte list \<Rightarrow> ptr \<Rightarrow> (Impl, unit) act" where
  "DetachedCB E cb msg data user_data = run_user_cb E cb msg data user_data"

fun run_task :: "impl_env \<Rightarrow> idle_task \<Rightarrow> (Impl, unit) act" where
  "run_task E (Detached cb msg data user_data) = DetachedCB E cb msg data user_data"
| "run_task E (ConnectionTask n user_data status) = ConnectionCB n user_data status"

text \<open>The main loop takes the first idle callback; both kinds ask to be removed.\<close>

definition impl_idle :: "impl_env \<Rightarrow> (Impl, unit) act" where
  "impl_idle E =
     (\<lambda>s. case im_idle s of
        [] \<Rightarrow> (Inr (), s)
      | t # ts \<Rightarrow> sq (run_task E t) (upd (\<lambda>s. s\<lparr>im_idle := tl (im_idle s)\<rparr>)) s)"

text \<open>
  The lambda of \<open>SubscribeMQ\<close>: it copies the payload, stores the subscription in the message and
  queues \<open>DetachedCB\<close> in the loop it captured.
\<close>

definition mq_closure :: "ptr \<Rightarrow> AittMsg \<Rightarrow> byte list \<Rightarrow> ptr \<Rightarrow> (Impl, unit) act" where
  "mq_closure info msg data user_data =
     (\<lambda>s. case map_of (im_closures s) info of
        None \<Rightarrow> (Inr (), s)
      | Some c \<Rightarrow>
          let task = Detached (cl_cb c) (SetID info msg) data user_data in
          (case cl_loop c of
             None \<Rightarrow> (Inr (), s\<lparr>im_idle := im_idle s @ [task]\<rparr>)
           | Some k \<Rightarrow> sync_upd k (\<lambda>l. l\<lparr>sl_idle := sl_idle l @ [task]\<rparr>) s))"

definition run_delivery :: "(ptr \<times> SubscribeData) list \<Rightarrow> mq_event \<Rightarrow> (Impl, unit) act" where
  "run_delivery subs e =
     (case e of Delivered h msg data user_data \<Rightarrow>
        (case map_of subs h of
           None \<Rightarrow> ret ()
         | Some sd \<Rightarrow> mq_closure (sd_cb sd) msg data user_data))"

text \<open>
  A message from the broker.  The closures of this class do nothing to the client while it delivers,
  so they run after \<open>MessageCB\<close> has called them in the model.  \<open>MessageCB\<close> always returns.
\<close>

definition queueing :: "mq_env \<Rightarrow> mq_env" where
  "queueing E = E\<lparr>env_cb := \<lambda>_ _ _. []\<rparr>"

definition impl_mq_message :: "impl_env \<Rightarrow> string \<Rightarrow> byte list \<Rightarrow> mprop list option \<Rightarrow> (Impl, unit) act" where
  "impl_mq_message E topic payload props =
     (\<lambda>s. case MessageCB (queueing (ie_mq E)) topic payload props (im_mq s) of
        None \<Rightarrow> (Inl (UndefinedBehaviour ''does not return''), s)
      | Some (r, q) \<Rightarrow>
          sq (forA (drop (length (mq_events (im_mq s))) (mq_events q)) (run_delivery (subscribers q)))
             (\<lambda>s. (r, s)) (s\<lparr>im_mq := q\<rparr>))"

text \<open>The lambda of \<open>SubscribeTCP\<close>, called by the transport in the thread of its loop.\<close>

definition tcp_closure :: "impl_env \<Rightarrow> tcp_event \<Rightarrow> (Impl, unit) act" where
  "tcp_closure E e =
     (case e of TcpDelivered info msg data user_data \<Rightarrow>
        (\<lambda>s. case map_of (im_closures s) info of
           None \<Rightarrow> (Inr (), s)
         | Some c \<Rightarrow> run_user_cb E (cl_cb c) (SetProtocol (cl_protocol c) (SetID info msg)) data user_data s))"

definition impl_tcp_receive ::
  "impl_env \<Rightarrow> AittProtocol \<Rightarrow> loop_event \<Rightarrow> int \<Rightarrow> int \<times> byte list option \<Rightarrow> int \<times> byte list option \<Rightarrow> (Impl, int) act" where
  "impl_tcp_receive E protocol result fd recv1 recv2 =
     bnd (im_on_mm (on_Get protocol
            (\<lambda>w. bnd (on_mod (ReceiveData (ie_tcp E) result fd recv1 recv2)) (\<lambda>r.
                 on_mod (\<lambda>t. (Inr (r, drop (length (tm_delivered (fst w))) (tm_delivered t)), t))) w)
            (ret (AITT_LOOP_EVENT_REMOVE, [])))) (\<lambda>(r, es).
     sq (forA es (tcp_closure E)) (ret r))"

section \<open>PublishWithReplySync\<close>

text \<open>
  What can happen while the caller waits in its loop: a message arrives at the client, the loop runs
  an idle callback, the timer expires.
\<close>

datatype sync_event = SyncMessage string "byte list" "mprop list option" | SyncIdle | SyncTimer

definition sync_idle :: "impl_env \<Rightarrow> nat \<Rightarrow> (Impl, unit) act" where
  "sync_idle E k =
     (\<lambda>s. case map_of (im_syncs s) k of
        None \<Rightarrow> (Inl (UndefinedBehaviour ''loop used after delete''), s)
      | Some l \<Rightarrow>
          (case sl_idle l of
             [] \<Rightarrow> (Inr (), s)
           | t # ts \<Rightarrow> sq (run_task E t) (sync_upd k (\<lambda>l. l\<lparr>sl_idle := tl (sl_idle l)\<rparr>)) s))"

definition sync_timer :: "nat \<Rightarrow> (Impl, unit) act" where
  "sync_timer k = sync_upd k (\<lambda>l. if sl_armed l then l\<lparr>sl_quit := True, sl_is_timeout := True, sl_armed := False\<rparr> else l)"

fun sync_step :: "impl_env \<Rightarrow> nat \<Rightarrow> sync_event \<Rightarrow> (Impl, unit) act" where
  "sync_step E k (SyncMessage topic payload props) = impl_mq_message E topic payload props"
| "sync_step E k SyncIdle = sync_idle E k"
| "sync_step E k SyncTimer = sync_timer k"

text \<open>\<open>sync_loop->Run()\<close> and what follows; \<open>None\<close> while it still waits.\<close>

fun sync_wait :: "impl_env \<Rightarrow> nat \<Rightarrow> sync_event list \<Rightarrow> (Impl, int option) act" where
  "sync_wait E k evs =
     (\<lambda>s. case map_of (im_syncs s) k of
        None \<Rightarrow> (Inl (UndefinedBehaviour ''loop used after delete''), s)
      | Some l \<Rightarrow>
          if sl_quit l
          then (Inr (Some (if sl_is_timeout l then error_code AITT_ERROR_TIMED_OUT else 0)),
                s\<lparr>im_syncs := omap_del k (im_syncs s)\<rparr>)
          else (case evs of
                  [] \<Rightarrow> (Inr None, s)
                | ev # rest \<Rightarrow> sq (sync_step E k ev) (sync_wait E k rest) s))"

declare sync_wait.simps [simp del]

definition new_sync_loop :: "int \<Rightarrow> (Impl, nat) act" where
  "new_sync_loop timeout_ms =
     (\<lambda>s. (Inr (im_next_sync s),
           s\<lparr>im_next_sync := im_next_sync s + 1,
             im_syncs := omap_put (im_next_sync s)
               \<lparr>sl_idle = [], sl_armed = False, sl_timeout_ms = timeout_ms, sl_is_timeout = False, sl_quit = False\<rparr> (im_syncs s)\<rparr>))"

definition sync_start ::
  "impl_env \<Rightarrow> string \<Rightarrow> byte list \<Rightarrow> int \<Rightarrow> nat \<Rightarrow> ptr \<Rightarrow> string \<Rightarrow> int \<Rightarrow> (Impl, nat) act" where
  "sync_start E topic data qos cb user_data correlation timeout_ms =
     bnd (next_reply_topic topic) (\<lambda>replyTopic.
     bnd (new_sync_loop timeout_ms) (\<lambda>k.
     bnd (new_info AITT_TYPE_MQTT) (\<lambda>info.
     bnd (SubscribeMQ E info (Some k) replyTopic (SyncCb cb k) user_data qos) (\<lambda>handle.
     sq (push_info info AITT_TYPE_MQTT handle)
     (sq (im_on_mq (mq_PublishWithReply (ie_mq E) topic data qos False replyTopic correlation))
     (sq (whenA (timeout_ms \<noteq> 0) (sync_upd k (HandleTimeout E))) (ret k)))))))"

definition impl_PublishWithReplySync ::
  "impl_env \<Rightarrow> string \<Rightarrow> byte list \<Rightarrow> AittProtocol \<Rightarrow> int \<Rightarrow> bool \<Rightarrow> nat \<Rightarrow> ptr \<Rightarrow> string \<Rightarrow> int \<Rightarrow> sync_event list \<Rightarrow> (Impl, int option) act" where
  "impl_PublishWithReplySync E topic data protocol qos retain cb user_data correlation timeout_ms evs =
     (if protocol \<noteq> AITT_TYPE_MQTT then ret (Some (- 1))
      else bnd (sync_start E topic data qos cb user_data correlation timeout_ms) (\<lambda>k. sync_wait E k evs))"

section \<open>Streams and counting\<close>

definition impl_CreateStream :: "impl_env \<Rightarrow> int \<Rightarrow> string \<Rightarrow> AittStreamRole \<Rightarrow> (Impl, ptr) act" where
  "impl_CreateStream E type topic role =
     bnd (im_on_mm (on_mm (mm_CreateStream (ie_mm E) type topic role))) (\<lambda>stream.
     sq (im_on_disc (disc_Restart (ie_disc E))) (ret stream))"

definition impl_DestroyStream :: "ptr \<Rightarrow> Impl \<Rightarrow> Impl" where
  "impl_DestroyStream stream s = s\<lparr>im_modules := mm_DestroyStream stream (im_modules s)\<rparr>"

definition impl_CountSubscriber :: "impl_env \<Rightarrow> string \<Rightarrow> AittProtocol \<Rightarrow> (Impl, int) act" where
  "impl_CountSubscriber E topic protocols =
     (if CHR ''+'' \<in> set topic \<or> CHR ''#'' \<in> set topic then ret (error_code AITT_ERROR_NOT_SUPPORTED)
      else bnd (if and protocols AITT_TYPE_MQTT \<noteq> 0
                then bnd (im_on_mdh (CountSubscriber (ie_disc E) topic)) (\<lambda>n. ret (int n)) else ret 0) (\<lambda>a.
           bnd (if and protocols AITT_TYPE_TCP \<noteq> 0
                then im_on_mm (on_Get AITT_TYPE_TCP (tcp_CountSubscriber (ie_tcp E) topic) (null_CountSubscriber topic)) else ret 0) (\<lambda>b.
           bnd (if and protocols AITT_TYPE_TCP_SECURE \<noteq> 0
                then im_on_mm (on_Get AITT_TYPE_TCP_SECURE (tcp_CountSubscriber (ie_tcp E) topic) (null_CountSubscriber topic)) else ret 0) (\<lambda>c.
           ret (a + b + c)))))"

section \<open>The public class\<close>

record AITT = pImpl :: "Impl option"

text \<open>A forwarded call; before \<open>Ready\<close> the pointer to the implementation is null.\<close>

definition forward :: "(Impl, 'a) act \<Rightarrow> (AITT, 'a) act" where
  "forward a =
     (\<lambda>s. case pImpl s of
        None \<Rightarrow> (Inl (UndefinedBehaviour ''null pImpl''), s)
      | Some i \<Rightarrow> (case a i of (r, j) \<Rightarrow> (r, s\<lparr>pImpl := Some j\<rparr>)))"

definition AITT_MUST_CALL_READY :: string where "AITT_MUST_CALL_READY = ''Must Call Ready() First''"

definition AITT_notice :: "string \<Rightarrow> exn + AITT" where
  "AITT_notice notice =
     (if notice = [] \<or> notice \<noteq> AITT_MUST_CALL_READY then Inl (AittException INVALID_ARG) else Inr \<lparr>pImpl = None\<rparr>)"

definition character_set :: string where
  "character_set = ''abcdefghijklmnopqrstuvwxyzABCDEFGHIJKLMNOPQRSTUVWXYZ1234567890''"

text \<open>The generated identifier: sixteen draws, of which the last is not used.\<close>

definition generated_id :: "(nat \<Rightarrow> nat) \<Rightarrow> string" where
  "generated_id gen = ''aitt-'' @ take 15 (map (\<lambda>i. character_set ! gen i) [0 ..< 16])"

definition AITT_Ready :: "impl_env \<Rightarrow> (nat \<Rightarrow> nat) \<Rightarrow> string \<Rightarrow> string \<Rightarrow> AittOption \<Rightarrow> (AITT, unit) act" where
  "AITT_Ready E gen ident ip_addr option =
     (\<lambda>s. if pImpl s \<noteq> None then (Inl (AittException ALREADY), s)
          else (case Impl_ctor E (if ident = [] then generated_id gen else ident)
                       (if ip_addr = [] then ''127.0.0.1'' else ip_addr) option of
                  Inl e \<Rightarrow> (Inl e, s)
                | Inr i \<Rightarrow> (Inr (), s\<lparr>pImpl := Some i\<rparr>)))"

definition AITT_new :: "impl_env \<Rightarrow> (nat \<Rightarrow> nat) \<Rightarrow> string \<Rightarrow> string \<Rightarrow> AittOption \<Rightarrow> exn + AITT" where
  "AITT_new E gen ident ip_addr option =
     (case AITT_Ready E gen ident ip_addr option \<lparr>pImpl = None\<rparr> of (Inl e, _) \<Rightarrow> Inl e | (Inr _, s) \<Rightarrow> Inr s)"

definition bad_size :: "int \<Rightarrow> bool" where
  "bad_size datalen \<longleftrightarrow> datalen < 0 \<or> AITT_PAYLOAD_MAX < datalen"

definition AITT_Publish :: "impl_env \<Rightarrow> string \<Rightarrow> byte list \<Rightarrow> int \<Rightarrow> AittProtocol \<Rightarrow> int \<Rightarrow> bool \<Rightarrow> (AITT, unit) act" where
  "AITT_Publish E topic data datalen protocols qos retain =
     (if bad_size datalen then raise (AittException INVALID_ARG)
      else forward (impl_Publish E topic (take (nat datalen) data) datalen protocols qos retain))"

definition AITT_PublishWithReply ::
  "impl_env \<Rightarrow> string \<Rightarrow> byte list \<Rightarrow> int \<Rightarrow> AittProtocol \<Rightarrow> int \<Rightarrow> bool \<Rightarrow> nat \<Rightarrow> ptr \<Rightarrow> string \<Rightarrow> (AITT, unit) act" where
  "AITT_PublishWithReply E topic data datalen protocol qos retain cb cbdata correlation =
     (if bad_size datalen then raise (AittException INVALID_ARG)
      else forward (impl_PublishWithReply E topic (take (nat datalen) data) datalen protocol qos retain cb cbdata correlation))"

definition AITT_PublishWithReplySync ::
  "impl_env \<Rightarrow> string \<Rightarrow> byte list \<Rightarrow> int \<Rightarrow> AittProtocol \<Rightarrow> int \<Rightarrow> bool \<Rightarrow> nat \<Rightarrow> ptr \<Rightarrow> string \<Rightarrow> int \<Rightarrow> sync_event list \<Rightarrow>
   (AITT, int option) act" where
  "AITT_PublishWithReplySync E topic data datalen protocol qos retain cb cbdata correlation timeout_ms evs =
     (if bad_size datalen then raise (AittException INVALID_ARG)
      else forward (impl_PublishWithReplySync E topic (take (nat datalen) data) protocol qos retain cb cbdata correlation timeout_ms evs))"

definition AITT_SendReply :: "impl_env \<Rightarrow> AittMsg option \<Rightarrow> byte list \<Rightarrow> int \<Rightarrow> bool \<Rightarrow> (AITT, AittMsg option) act" where
  "AITT_SendReply E msg data datalen end_seq =
     (if bad_size datalen then raise (AittException INVALID_ARG)
      else forward (impl_SendReply E msg (take (nat datalen) data) datalen end_seq))"

definition AITT_Subscribe :: "impl_env \<Rightarrow> string \<Rightarrow> nat \<Rightarrow> ptr \<Rightarrow> AittProtocol \<Rightarrow> int \<Rightarrow> (AITT, ptr) act" where
  "AITT_Subscribe E topic cb cbdata protocols qos = forward (impl_Subscribe E topic (UserCb cb) cbdata protocols qos)"

definition AITT_Unsubscribe :: "impl_env \<Rightarrow> ptr \<Rightarrow> (AITT, ptr) act" where
  "AITT_Unsubscribe E handle = forward (impl_Unsubscribe E handle)"

definition AITT_SetWillInfo :: "impl_env \<Rightarrow> string \<Rightarrow> byte list \<Rightarrow> int \<Rightarrow> bool \<Rightarrow> (AITT, unit) act" where
  "AITT_SetWillInfo E topic data qos retain = forward (impl_SetWillInfo E topic data qos retain)"

definition AITT_SetConnectionCallback :: "nat option \<Rightarrow> ptr \<Rightarrow> (AITT, unit) act" where
  "AITT_SetConnectionCallback cb user_data = forward (impl_SetConnectionCallback cb user_data)"

definition AITT_Connect :: "impl_env \<Rightarrow> string \<Rightarrow> int \<Rightarrow> string \<Rightarrow> string \<Rightarrow> (AITT, unit) act" where
  "AITT_Connect E host port username password = forward (impl_Connect E host port username password)"

definition AITT_Disconnect :: "impl_env \<Rightarrow> (AITT, unit) act" where
  "AITT_Disconnect E = forward (impl_Disconnect E)"

definition AITT_CreateStream :: "impl_env \<Rightarrow> int \<Rightarrow> string \<Rightarrow> AittStreamRole \<Rightarrow> (AITT, ptr) act" where
  "AITT_CreateStream E type topic role = forward (impl_CreateStream E type topic role)"

definition AITT_DestroyStream :: "ptr \<Rightarrow> (AITT, unit) act" where
  "AITT_DestroyStream stream = forward (upd (impl_DestroyStream stream))"

definition AITT_CountSubscriber :: "impl_env \<Rightarrow> string \<Rightarrow> AittProtocol \<Rightarrow> (AITT, int) act" where
  "AITT_CountSubscriber E topic protocols = forward (impl_CountSubscriber E topic protocols)"

end
