(* ===== verification/TCPModule_Props.thy ===== *)
theory TCPModule_Props
  imports TCPModule_Model
begin

text \<open>
  What the TCP transport promises: the message data survives packing, publishing reaches every
  known subscriber, an advertisement tells the peers how to connect, and the tables stay consistent
  under every operation.
\<close>

section \<open>Message data\<close>

lemma PackMsgInfo_wf: "fb_wf (PackMsgInfo msg is_reply)"
  by (simp add: PackMsgInfo_def)

lemma word32_of_mod64: "(word_of_int (i mod 18446744073709551616) :: 32 word) = word_of_int i"
proof -
  have "take_bit 32 (i mod 18446744073709551616) = take_bit 32 i"
    using take_bit_take_bit [of 32 64 i] by (simp add: take_bit_eq_mod)
  then show ?thesis by (simp add: word_of_int_eq_iff)
qed

lemma sequence_word:
  "(word_of_int (int (nat (sint w mod 18446744073709551616))) :: 32 word) = w"
  by (simp add: word32_of_mod64)

lemma lookup_packed:
  assumes "flexbuf_ok F"
  shows "fb_lookup F (fb_root F (fb_finish F (PackMsgInfo msg is_reply))) k =
     (case map_of (case PackMsgInfo msg is_reply of FbMap kvs \<Rightarrow> kvs | _ \<Rightarrow> []) k of
        None \<Rightarrow> FbNull | Some v \<Rightarrow> fb_norm v)"
proof -
  obtain kvs where kvs: "PackMsgInfo msg is_reply = FbMap kvs" by (simp add: PackMsgInfo_def)
  have "distinct (map fst kvs)" using PackMsgInfo_wf [of msg is_reply] kvs by simp
  with kvs flexbuf_okD(1) [OF assms PackMsgInfo_wf, of msg is_reply] fb_lookup_norm [OF assms]
  show ?thesis by simp
qed

text \<open>The five entries, each present only when its value is not the default.\<close>

lemma lookup_packed_entries:
  fixes msg :: AittMsg and is_reply :: bool and F :: flexbuf
  assumes F: "flexbuf_ok F"
  defines "root \<equiv> fb_root F (fb_finish F (PackMsgInfo msg is_reply))"
  shows "fb_lookup F root ''topic'' =
      (if (if is_reply then msg_reply_topic msg else msg_topic msg) = [] then FbNull
       else FbString (if is_reply then msg_reply_topic msg else msg_topic msg))"
    and "fb_lookup F root ''reply_topic'' =
      (if is_reply \<or> msg_reply_topic msg = [] then FbNull else FbString (msg_reply_topic msg))"
    and "fb_lookup F root ''correlation'' =
      (if msg_correlation msg = [] then FbNull else FbString (msg_correlation msg))"
    and "fb_lookup F root ''sequence'' =
      (if msg_sequence msg = 0 then FbNull else FbUInt (nat (sint (msg_sequence msg) mod 18446744073709551616)))"
    and "fb_lookup F root ''end_sequence'' = (if msg_end_sequence msg then FbBool True else FbNull)"
  unfolding root_def lookup_packed [OF F]
  by (simp_all add: PackMsgInfo_def GetSequence_def signed_eq_0_iff)

text \<open>An entry left out stands for the value the message has anyway.\<close>

lemma unpack_entry:
  assumes F: "flexbuf_ok F"
  shows "(case (if c then FbNull else FbString t) of
      FbString _ \<Rightarrow> SetTopic (fb_as_string F (if c then FbNull else FbString t)) m | _ \<Rightarrow> m) =
      (if c then m else SetTopic t m)"
    and "(case (if c then FbNull else FbString t) of
      FbString _ \<Rightarrow> SetResponseTopic (fb_as_string F (if c then FbNull else FbString t)) m | _ \<Rightarrow> m) =
      (if c then m else SetResponseTopic t m)"
    and "(case (if c then FbNull else FbString t) of
      FbString _ \<Rightarrow> SetCorrelation (fb_as_string F (if c then FbNull else FbString t)) m | _ \<Rightarrow> m) =
      (if c then m else SetCorrelation t m)"
    and "(case (if c then FbNull else FbUInt n) of
      FbUInt _ \<Rightarrow> SetSequence (int (fb_as_uint F (if c then FbNull else FbUInt n))) m | _ \<Rightarrow> m) =
      (if c then m else SetSequence (int n) m)"
    and "(case (if c then FbBool b else FbNull) of
      FbBool _ \<Rightarrow> SetEndSequence (fb_as_bool F (if c then FbBool b else FbNull)) m | _ \<Rightarrow> m) =
      (if c then SetEndSequence b m else m)"
  using flexbuf_okD(5,8,9) [OF F] by simp_all

lemma UnpackMsgInfo_packed:
  assumes F: "flexbuf_ok F"
  shows "UnpackMsgInfo F (fb_finish F (PackMsgInfo msg is_reply)) AittMsg_new =
     \<lparr>msg_topic = (if is_reply then msg_reply_topic msg else msg_topic msg),
      msg_correlation = msg_correlation msg,
      msg_reply_topic = (if is_reply then [] else msg_reply_topic msg),
      msg_sequence = msg_sequence msg, msg_end_sequence = True, msg_id = nullptr,
      msg_protocol = AITT_TYPE_MQTT\<rparr>"
proof -
  define t where "t = (if is_reply then msg_reply_topic msg else msg_topic msg)"
  define q where "q = (if is_reply then [] else msg_reply_topic msg)"
  have q: "(is_reply \<or> msg_reply_topic msg = []) = (q = [])" "q \<noteq> [] \<Longrightarrow> msg_reply_topic msg = q"
    by (auto simp: q_def)
  define m1 where "m1 = AittMsg_new\<lparr>msg_topic := t\<rparr>"
  define m2 where "m2 = m1\<lparr>msg_reply_topic := q\<rparr>"
  define m3 where "m3 = m2\<lparr>msg_correlation := msg_correlation msg\<rparr>"
  define m4 where "m4 = m3\<lparr>msg_sequence := msg_sequence msg\<rparr>"
  have steps: "(if t = [] then AittMsg_new else SetTopic t AittMsg_new) = m1"
    "(if q = [] then m1 else SetResponseTopic (msg_reply_topic msg) m1) = m2"
    "(if msg_correlation msg = [] then m2 else SetCorrelation (msg_correlation msg) m2) = m3"
    "(if msg_sequence msg = 0 then m3
      else SetSequence (int (nat (sint (msg_sequence msg) mod 18446744073709551616))) m3) = m4"
    "(if msg_end_sequence msg then SetEndSequence True m4 else m4) = m4"
    using q(2) by (auto simp: m1_def m2_def m3_def m4_def AittMsg_defs word32_of_mod64)
  have "UnpackMsgInfo F (fb_finish F (PackMsgInfo msg is_reply)) AittMsg_new = m4"
    unfolding UnpackMsgInfo_def Let_def lookup_packed_entries [OF F] unpack_entry [OF F]
      t_def [symmetric] q(1) steps ..
  then show ?thesis by (simp add: m1_def m2_def m3_def m4_def t_def q_def AittMsg_new_def)
qed

section \<open>Publishing\<close>

definition published ::
  "tcp_env \<Rightarrow> (int \<Rightarrow> bool) \<Rightarrow> AittMsg \<Rightarrow> byte list \<Rightarrow> bool \<Rightarrow> (string, ConnectInfo \<times> TCP option) omap \<Rightarrow>
   (int \<times> byte list) list" where
  "published E up msg data is_reply hosts =
     concat (map (\<lambda>e. case snd (snd e) of
          None \<Rightarrow> []
        | Some tcp \<Rightarrow> if up (tcp_handle tcp)
                      then [(tcp_handle tcp, fb_finish (te_fb E) (PackMsgInfo msg is_reply)), (tcp_handle tcp, data)]
                      else []) hosts)"

lemma publish_to_connected:
  assumes "te_send E = (\<lambda>_. up)" and "map_of (publishTable s) topic = Some hosts"
    and "map_of hosts c = Some (info, Some tcp)"
  shows "publish_to E msg data is_reply topic c s =
     (Inr (), s\<lparr>tm_sent := tm_sent s @ published E up msg data is_reply [(c, info, Some tcp)]\<rparr>)"
proof -
  have "s\<lparr>tm_sent := tm_sent s\<rparr> = s" by simp
  then show ?thesis
    using assms by (simp add: publish_to_def ensure_client_def tcp_SendSizedData_def act_simps published_def)
qed

lemma publish_hosts:
  assumes send: "te_send E = (\<lambda>_. up)" and topic: "map_of (publishTable (fst w)) topic = Some hosts"
    and conn: "\<forall>e \<in> set es. map_of hosts (fst e) = Some (snd e) \<and> snd (snd e) \<noteq> None"
  shows "forA (map fst es) (\<lambda>c. on_mod (publish_to E msg data is_reply topic c)) w =
     (Inr (), ((fst w)\<lparr>tm_sent := tm_sent (fst w) @ published E up msg data is_reply es\<rparr>, snd w))"
  using conn topic
proof (induction es arbitrary: w)
  case Nil
  then show ?case by (simp add: act_simps published_def)
next
  case (Cons e es)
  obtain c info tcp where e: "e = (c, info, Some tcp)" using Cons.prems(1) by (cases e) auto
  have "map_of hosts c = Some (info, Some tcp)" using Cons.prems(1) e by simp
  from publish_to_connected [OF send Cons.prems(2) this, of msg data is_reply] Cons.IH Cons.prems e
  show ?case by (simp add: forA_Cons_run on_mod_run published_def)
qed

lemma publish_topics:
  assumes send: "te_send E = (\<lambda>_. up)" and mq: "disc_mq (snd w) \<noteq> None"
    and tab: "\<forall>e \<in> set es. map_of (publishTable (fst w)) (fst e) = Some (snd e) \<and> omap_ok (snd e) \<and>
       (CompareTopic (te_mq E) (fst e) t \<longrightarrow> (\<forall>h \<in> set (snd e). snd (snd h) \<noteq> None))"
  shows "forA es (\<lambda>(topic, hosts).
             bnd (on_disc (disc_CompareTopic (te_mq E) topic t))
               (\<lambda>b. whenA b (forA (map fst hosts) (\<lambda>c. on_mod (publish_to E msg data is_reply topic c))))) w =
     (Inr (), ((fst w)\<lparr>tm_sent := tm_sent (fst w) @ concat (map (published E up msg data is_reply \<circ> snd)
        (filter (\<lambda>e. CompareTopic (te_mq E) (fst e) t) es))\<rparr>, snd w))"
  using mq tab
proof (induction es arbitrary: w)
  case Nil
  then show ?case by (simp add: act_simps)
next
  case (Cons e es)
  obtain topic hosts where e: "e = (topic, hosts)" by (cases e)
  have cmp: "on_disc (disc_CompareTopic (te_mq E) topic t) w = (Inr (CompareTopic (te_mq E) topic t), w)"
    using Cons.prems(1) by (auto simp: act_simps disc_CompareTopic_def disc_mq_idem)
  show ?case
  proof (cases "CompareTopic (te_mq E) topic t")
    case True
    have "\<forall>h \<in> set hosts. map_of hosts (fst h) = Some (snd h) \<and> snd (snd h) \<noteq> None"
      using Cons.prems(2) e True omap_mem_iff [of hosts] by auto
    from publish_hosts [OF send _ this, of w topic msg data is_reply] Cons e True cmp
    show ?thesis by (simp add: forA_Cons_run bnd_run whenA_run)
  next
    case False
    with Cons e cmp show ?thesis by (simp add: forA_Cons_run bnd_run whenA_run)
  qed
qed

section \<open>Advertising\<close>

definition known :: "TCPModule \<Rightarrow> string \<Rightarrow> string \<Rightarrow> (ConnectInfo \<times> TCP option) option" where
  "known s topic c = (case map_of (publishTable s) topic of None \<Rightarrow> None | Some hosts \<Rightarrow> map_of hosts c)"

lemma known_UpdatePublishTable:
  "known (UpdatePublishTable topic c info s) t k =
     (if t = topic \<and> k = c
      then Some (case known s topic c of
                   Some (old, tcp) \<Rightarrow> if ci_port old = ci_port info then (old\<lparr>ci_num_of_cb := ci_num_of_cb info\<rparr>, tcp) else (info, None)
                 | None \<Rightarrow> (info, None))
      else known s t k)"
  by (auto simp: known_def UpdatePublishTable_def split: option.splits)

lemma UpdatePublishTable_secure [simp]: "tm_secure (UpdatePublishTable topic c info s) = tm_secure s"
  by (simp add: UpdatePublishTable_def split: option.split prod.split)

lemma UpdatePublishTable_clients [simp]: "clientTable (UpdatePublishTable topic c info s) = clientTable s"
  by (simp add: UpdatePublishTable_def split: option.split prod.split)

lemma read_topics_clients [simp]: "clientTable (read_topics F root c topics s) = clientTable s"
  by (induction F root c topics s rule: read_topics.induct) (auto split: option.splits)

lemma read_topics_other:
  "topic \<notin> set topics \<or> k \<noteq> c \<Longrightarrow> known (read_topics F root c topics s) topic k = known s topic k"
  by (induction F root c topics s rule: read_topics.induct)
     (auto simp: known_UpdatePublishTable split: option.splits)

text \<open>A client that was not known gets exactly the advertised data for each of its topics.\<close>

lemma read_topics_new:
  assumes "distinct topics" and "\<forall>t \<in> set topics. t \<noteq> ''host'' \<longrightarrow> read_connect_info F (tm_secure s) (fb_lookup F root t) \<noteq> None"
    and "topic \<in> set topics" and "topic \<noteq> ''host''" and "known s topic c = None"
  shows "known (read_topics F root c topics s) topic c =
     Some (the (read_connect_info F (tm_secure s) (fb_lookup F root topic)), None)"
  using assms
proof (induction F root c topics s rule: read_topics.induct)
  case (2 F root c t topics s)
  show ?case
  proof (cases "t = ''host''")
    case True
    with 2 show ?thesis by auto
  next
    case False
    with "2.prems"(2) obtain info where info: "read_connect_info F (tm_secure s) (fb_lookup F root t) = Some info" by auto
    show ?thesis
    proof (cases "t = topic")
      case True
      with False info 2 show ?thesis by (simp add: read_topics_other known_UpdatePublishTable)
    next
      case neq: False
      with False info 2 show ?thesis by (simp add: known_UpdatePublishTable)
    qed
  qed
qed simp

definition connect_vector :: "bool \<Rightarrow> port \<Rightarrow> TCPServerData \<Rightarrow> TCPServer \<Rightarrow> fb" where
  "connect_vector secure port tsd srv =
     FbVector ([FbUInt (unat port), FbUInt (length (tsd_cb_list tsd))]
               @ (if secure then [FbBlob (srv_key srv), FbBlob (srv_iv srv)] else []))"

lemma server_infos_run:
  assumes "\<And>t h. os_sockname S t h = ports h"
  shows "server_infos S secure T t = (Inr infos, u) \<Longrightarrow>
     infos = map (\<lambda>e. (tsd_topic (fst (snd e)), connect_vector secure (ports (srv_handle (snd (snd e)))) (fst (snd e)) (snd (snd e)))) T"
proof (induction T arbitrary: t infos u)
  case (Cons e T)
  obtain p tsd srv where e: "e = (p, tsd, srv)" by (cases e)
  from Cons.prems e obtain port t1 rest where
    "Server_GetPort S srv t = (Inr port, t1)" "server_infos S secure T t1 = (Inr rest, u)"
    and i: "infos = (tsd_topic tsd, connect_vector secure port tsd srv) # rest"
    by (auto simp: bnd_run ret_run connect_vector_def split: prod.splits sum.splits)
  moreover from this(1) assms have "port = ports (srv_handle srv)"
    by (auto simp: Server_GetPort_def act_simps split: if_splits)
  ultimately show ?case using Cons.IH e by auto
qed (simp add: ret_run)

lemma tables_topics_distinct:
  assumes "tables_ok n T H"
  shows "distinct (map (\<lambda>e. tsd_topic (fst (snd e))) T)"
proof -
  have ok: "omap_ok T" using assms by (simp add: tables_ok_def)
  have "e = e'" if "e \<in> set T" "e' \<in> set T" "tsd_topic (fst (snd e)) = tsd_topic (fst (snd e'))" for e e'
  proof -
    have m: "map_of T (fst e) = Some (snd e)" "map_of T (fst e') = Some (snd e')"
      using that(1,2) omap_mem_iff [OF ok, of "fst e" "snd e"] omap_mem_iff [OF ok, of "fst e'" "snd e'"] by auto
    obtain tsd srv tsd' srv' where sv: "snd e = (tsd, srv)" "snd e' = (tsd', srv')" by fastforce
    then have "fst e = fst e'" using assms m that(3) unfolding tables_ok_def by auto
    with m show ?thesis by (simp add: prod_eq_iff)
  qed
  then show ?thesis using ok by (auto simp: distinct_map inj_on_def dest: omap_ok_distinct)
qed

lemma read_connect_vector:
  assumes F: "flexbuf_ok F" and n: "length (tsd_cb_list tsd) < 65536"
    and k: "secure \<Longrightarrow> length (srv_key srv) = 32 \<and> length (srv_iv srv) = 16"
  shows "\<exists>info. read_connect_info F secure (connect_vector secure port tsd srv) = Some info \<and>
     ci_port info = port \<and> ci_num_of_cb info = int (length (tsd_cb_list tsd)) \<and> ci_secure info = secure \<and>
     (secure \<longrightarrow> ci_key info = srv_key srv \<and> ci_iv info = srv_iv srv)"
proof -
  have p: "of_nat (unat port) = port" by simp
  show ?thesis
  proof (cases secure)
    case True
    with k show ?thesis using n p
      by (simp add: read_connect_info_def connect_vector_def fb_index_def flexbuf_okD [OF F] Let_def
          ConnectInfo_new_def)
  next
    case False
    then show ?thesis using n p
      by (simp add: read_connect_info_def connect_vector_def fb_index_def flexbuf_okD [OF F] Let_def
          ConnectInfo_new_def)
  qed
qed

lemma connect_vector_norm [simp]: "fb_norm (connect_vector secure port tsd srv) = connect_vector secure port tsd srv"
  by (simp add: connect_vector_def)

lemma advertised_root:
  assumes F: "flexbuf_ok F" and d: "distinct (''host'' # map topic T)"
    and root: "root = fb_root F (fb_finish F (FbMap ((''host'', FbString ip) #
        map (\<lambda>e. (topic e, connect_vector secure (port e) (tsd e) (srv e))) T)))"
  shows "fb_lookup F root ''host'' = FbString ip"
    and "e \<in> set T \<Longrightarrow> fb_lookup F root (topic e) = connect_vector secure (port e) (tsd e) (srv e)"
    and "set (fb_keys F root) = insert ''host'' (topic ` set T)" and "distinct (fb_keys F root)"
proof -
  define kvs where "kvs = (''host'', FbString ip) # map (\<lambda>e. (topic e, connect_vector secure (port e) (tsd e) (srv e))) T"
  have dist: "distinct (map fst kvs)" using d by (simp add: kvs_def comp_def)
  have "fb_wf (FbMap kvs)"
    using dist by (auto simp: list_all_iff kvs_def connect_vector_def)
  then have r: "root = fb_norm (FbMap kvs)" using flexbuf_okD(1) [OF F] root by (simp add: kvs_def)
  show "fb_lookup F root ''host'' = FbString ip"
    unfolding r by (subst fb_lookup_norm [OF F dist]) (simp add: kvs_def)
  show "fb_lookup F root (topic e) = connect_vector secure (port e) (tsd e) (srv e)" if "e \<in> set T"
  proof -
    have "(topic e, connect_vector secure (port e) (tsd e) (srv e)) \<in> set kvs" using that by (auto simp: kvs_def)
    then have "map_of kvs (topic e) = Some (connect_vector secure (port e) (tsd e) (srv e))"
      using dist by simp
    then show ?thesis unfolding r by (subst fb_lookup_norm [OF F dist]) simp
  qed
  define L where "L = map (\<lambda>kv. (fst kv, fb_norm (snd kv))) kvs"
  have keys: "fb_keys F root = map fst (sort_key fst L)"
    unfolding r fb_keys_def fb_norm.simps flexbuf_okD(3) [OF F] L_def ..
  have dL: "distinct (map fst L)" using dist by (simp add: L_def comp_def)
  have "set (fb_keys F root) = fst ` set L" by (simp add: keys)
  also have "\<dots> = insert ''host'' (topic ` set T)" by (simp add: L_def kvs_def image_image)
  finally show "set (fb_keys F root) = insert ''host'' (topic ` set T)" .
  show "distinct (fb_keys F root)" using dL by (simp add: keys distinct_map)
qed

section \<open>The tables under every operation\<close>

lemma tcp_ok_client_list:
  assumes "tcp_ok s" and "map_of (subscribeTable s) l = Some (tsd, srv)"
  shows "tcp_ok (s\<lparr>subscribeTable := omap_put l (tsd\<lparr>tsd_client_list := c\<rparr>, srv) (subscribeTable s)\<rparr>)"
proof -
  have T: "tables_ok (tm_next_ptr s) (subscribeTable s) (subscribe_handles s)" using assms(1) by (simp add: tcp_ok_def)
  have "server_ok (tm_next_ptr s) tsd" using T assms(2) unfolding tables_ok_def by blast
  moreover have "h \<in> fst ` set (tsd_cb_list tsd)" if "map_of (subscribe_handles s) h = Some l" for h
    using T that assms(2) unfolding tables_ok_def by fastforce
  ultimately show ?thesis
    using tables_ok_replace [OF T assms(2), of "tsd\<lparr>tsd_client_list := c\<rparr>"]
    by (simp add: tcp_ok_def server_ok_def)
qed

lemma tcp_ok_fields [simp]:
  "tcp_ok (s\<lparr>tm_trace := x\<rparr>) = tcp_ok s" "tcp_ok (s\<lparr>tm_watches := y\<rparr>) = tcp_ok s"
  "tcp_ok (s\<lparr>tm_delivered := z\<rparr>) = tcp_ok s" "tcp_ok (s\<lparr>publishTable := p\<rparr>) = tcp_ok s"
  "tcp_ok (s\<lparr>clientTable := c\<rparr>) = tcp_ok s"
  by (simp_all add: tcp_ok_def)

lemma AcceptConnection_ok: "preserves tcp_ok (AcceptConnection E l)"
proof (rule preservesI)
  fix s assume ok: "tcp_ok s"
  show "tcp_ok (snd (AcceptConnection E l s))"
  proof (cases "map_of (subscribeTable s) l")
    case None
    with ok show ?thesis by (simp add: AcceptConnection_def)
  next
    case (Some e)
    obtain tsd srv where e: "e = (tsd, srv)" by (cases e)
    have "tcp_ok ((s\<lparr>tm_trace := y, tm_watches := x\<rparr>)\<lparr>subscribeTable :=
        omap_put l (tsd\<lparr>tsd_client_list := c\<rparr>, srv) (subscribeTable s)\<rparr>)" for x y c
      using tcp_ok_client_list [of "s\<lparr>tm_trace := y, tm_watches := x\<rparr>" l tsd srv c] ok Some e by simp
    with ok Some e show ?thesis
      by (auto simp: AcceptConnection_def act_simps AddWatch_def split: prod.splits sum.splits)
  qed
qed

lemma HandleClientDisconnect_ok: "preserves tcp_ok (HandleClientDisconnect E fd)"
proof (rule preservesI)
  fix s assume ok: "tcp_ok s"
  have "tcp_ok ((s\<lparr>tm_watches := x\<rparr>)\<lparr>subscribeTable := omap_put l (tsd\<lparr>tsd_client_list := c\<rparr>, srv) (subscribeTable s), tm_trace := y\<rparr>)"
    if "map_of (subscribeTable s) l = Some (tsd, srv)" for l tsd srv x y c
    using tcp_ok_client_list [of "s\<lparr>tm_watches := x\<rparr>" l tsd srv c] ok that by simp
  with ok show "tcp_ok (snd (HandleClientDisconnect E fd s))"
    by (auto simp: HandleClientDisconnect_def RemoveWatch_def act_simps split: option.splits watch_data.splits prod.splits sum.splits)
qed

lemma GetMsgInfo_ok: "preserves tcp_ok (GetMsgInfo E tcp recvd)"
  unfolding GetMsgInfo_def
  by (auto intro!: preserves_intros HandleClientDisconnect_ok split: option.split)

lemma call_subscribers_ok: "preserves tcp_ok (call_subscribers parent m data)"
  by (auto simp: preserves_def call_subscribers_def split: option.splits)

lemma ReceiveData_ok: "preserves tcp_ok (ReceiveData E ev fd r1 r2)"
proof (rule preservesI)
  fix s assume ok: "tcp_ok s"
  show "tcp_ok (snd (ReceiveData E ev fd r1 r2 s))"
  proof (cases "\<exists>parent tcp. map_of (tm_watches s) fd = Some (RecvWatch parent tcp)")
    case True
    then obtain parent tcp where w: "map_of (tm_watches s) fd = Some (RecvWatch parent tcp)" by blast
    define body where "body = bnd (GetMsgInfo E tcp r1) (\<lambda>msg_info.
            if msg_topic msg_info = [] then ret AITT_LOOP_EVENT_CONTINUE
            else if fst r2 = - ENOTCONN then HandleClientDisconnect E fd
            else if fst r2 < 0 then ret AITT_LOOP_EVENT_CONTINUE
            else call_subscribers parent msg_info (message_of (fst r2) (snd r2)))"
    have "preserves tcp_ok body" unfolding body_def
      by (intro preserves_intros GetMsgInfo_ok HandleClientDisconnect_ok call_subscribers_ok)
    from preservesD [OF this ok] preservesD [OF HandleClientDisconnect_ok ok] w show ?thesis
      by (simp add: ReceiveData_def body_def)
  next
    case False
    with ok show ?thesis by (auto simp: ReceiveData_def split: option.split watch_data.split)
  qed
qed

lemma read_topics_ok: "tcp_ok (read_topics F root c topics s) = tcp_ok s"
proof (induction F root c topics s rule: read_topics.induct)
  case (2 F root c topic topics s)
  have "tcp_ok (UpdatePublishTable topic c info s) = tcp_ok s" for info
    by (simp add: UpdatePublishTable_def split: option.split prod.split)
  with 2 show ?case by (auto split: option.splits)
qed simp

lemma tcp_DiscoveryMessageCallback_ok: "tcp_ok (tcp_DiscoveryMessageCallback F c st m s) = tcp_ok s"
  by (simp add: tcp_DiscoveryMessageCallback_def Let_def read_topics_ok)

inductive tcp_step :: "tcp_env \<Rightarrow> tcp_world \<Rightarrow> tcp_world \<Rightarrow> bool" for E where
  step_subscribe: "tcp_step E w (snd (tcp_Subscribe E topic cb cbdata w))"
| step_unsubscribe: "tcp_table w h \<noteq> None \<Longrightarrow> tcp_step E w (snd (tcp_Unsubscribe E h w))"
| step_unknown: "tcp_table w h = None \<Longrightarrow> tcp_step E w (snd (tcp_Unsubscribe E h w))"
| step_accept: "tcp_step E (s, d) (snd (AcceptConnection E l s), d)"
| step_receive: "tcp_step E (s, d) (snd (ReceiveData E ev fd r1 r2 s), d)"
| step_discovery: "tcp_step E (s, d) (tcp_DiscoveryMessageCallback F c status m s, d)"

definition tcp_init :: "tcp_world \<Rightarrow> bool" where
  "tcp_init w \<longleftrightarrow> (\<exists>type ip d0. TCPModule_ctor type ip d0 = (Inr (fst w), snd w))"

lemma tcp_ok_step: "tcp_ok (fst w) \<Longrightarrow> tcp_step E w v \<Longrightarrow> tcp_ok (fst v)"
proof -
  assume ok: "tcp_ok (fst w)" and "tcp_step E w v"
  from this(2) show ?thesis
  proof cases
    case (step_subscribe topic cb cbdata)
    with ok tcp_Subscribe_law [of "fst w" E topic cb cbdata "snd w" "fst (tcp_Subscribe E topic cb cbdata w)"]
    show ?thesis by (simp add: prod_eq_iff)
  next
    case (step_unsubscribe h)
    then obtain topic cb cbdata where "tcp_table (fst w, snd w) h = Some (topic, cb, cbdata)" by auto
    with step_unsubscribe ok tcp_Unsubscribe_law [of "fst w" "snd w" h topic cb cbdata E "fst (tcp_Unsubscribe E h w)" v]
    show ?thesis by (simp add: prod_eq_iff)
  next
    case (step_unknown h)
    with ok tcp_Unsubscribe_unknown [of "fst w" "snd w" h E] show ?thesis by simp
  qed (use ok in \<open>auto simp: tcp_DiscoveryMessageCallback_ok intro: preservesD [OF AcceptConnection_ok] preservesD [OF ReceiveData_ok]\<close>)
qed

interpretation tcp: invariant_system tcp_init "tcp_step E" "\<lambda>w. tcp_ok (fst w)" for E
proof
  fix w :: tcp_world assume "tcp_init w"
  then show "tcp_ok (fst w)"
    by (cases w) (auto simp: tcp_init_def TCPModule_ctor_def act_simps Let_def AddDiscoveryCB_def tcp_ok_def tables_ok_def)
qed (rule tcp_ok_step)

section \<open>What a peer knows after an advertisement\<close>

lemma advertisement_known:
  assumes F: "flexbuf_ok (te_fb E)" and ok: "tcp_ok a" and "omap_ok (discovery_map d)"
    and ports: "\<And>t h. os_sockname (te_os E) t h = ports h"
    and wf: "\<forall>(p, tsd, srv) \<in> set (subscribeTable a). tsd_topic tsd \<noteq> ''host'' \<and> length (tsd_cb_list tsd) < 65536 \<and>
       length (srv_key srv) = 32 \<and> length (srv_iv srv) = 16"
    and run: "tcp_UpdateDiscoveryMsg E (a, d) = (Inr (), (a', d'))"
    and blob: "map_of (discovery_map d') (tcp_NAME (tm_secure a)) = Some blob"
    and b: "tm_secure b = tm_secure a" "b' = tcp_DiscoveryMessageCallback (te_fb E) ident ''connected'' blob b"
    and entry: "map_of (subscribeTable a) l = Some (tsd, srv)" and new: "known b (tsd_topic tsd) ident = None"
  shows "map_of (clientTable b') ident = Some (tm_ip a) \<and>
     (\<exists>info. known b' (tsd_topic tsd) ident = Some (info, None) \<and> ci_port info = ports (srv_handle srv) \<and>
        ci_num_of_cb info = int (length (tsd_cb_list tsd)) \<and> ci_secure info = tm_secure a \<and>
        (tm_secure a \<longrightarrow> ci_key info = srv_key srv \<and> ci_iv info = srv_iv srv))"
proof -
  define T where "T = subscribeTable a"
  let ?topic = "\<lambda>e :: ptr \<times> TCPServerData \<times> TCPServer. tsd_topic (fst (snd e))"
  let ?cv = "\<lambda>e. connect_vector (tm_secure a) (ports (srv_handle (snd (snd e)))) (fst (snd e)) (snd (snd e))"
  define F where "F = te_fb E"
  have F: "flexbuf_ok F" using assms(1) by (simp add: F_def)
  from run obtain infos t1 where si: "server_infos (te_os E) (tm_secure a) T (tm_trace a) = (Inr infos, t1)"
    and upd: "snd (UpdateDiscoveryMsg (te_mq E) F (tcp_NAME (tm_secure a)) (fb_finish F (FbMap ((''host'', FbString (tm_ip a)) # infos))) d) = d'"
    by (auto simp: tcp_UpdateDiscoveryMsg_def act_simps T_def F_def split: prod.splits sum.splits)
  have infos: "infos = map (\<lambda>e. (?topic e, ?cv e)) T" using server_infos_run [OF ports si] .
  have "blob = fb_finish F (FbMap ((''host'', FbString (tm_ip a)) # infos))"
    using blob upd by (auto simp: UpdateDiscoveryMsg_def PublishDiscoveryMsg_def act_simps split: option.splits prod.splits)
  define root where "root = fb_root F blob"
  have d: "distinct (''host'' # map ?topic T)"
    using tables_topics_distinct [of "tm_next_ptr a" T] ok wf by (force simp: tcp_ok_def T_def)
  note root = advertised_root [OF F d, of root "tm_ip a" "tm_secure a" "\<lambda>e. ports (srv_handle (snd (snd e)))" "\<lambda>e. fst (snd e)" "\<lambda>e. snd (snd e)"]
  have r: "root = fb_root F (fb_finish F (FbMap ((''host'', FbString (tm_ip a)) # map (\<lambda>e. (?topic e, ?cv e)) T)))"
    using \<open>blob = _\<close> infos by (simp add: root_def)
  have cinfo: "\<exists>info. read_connect_info F (tm_secure a) (fb_lookup F root (?topic e)) = Some info \<and>
      ci_port info = ports (srv_handle (snd (snd e))) \<and> ci_num_of_cb info = int (length (tsd_cb_list (fst (snd e)))) \<and>
      ci_secure info = tm_secure a \<and> (tm_secure a \<longrightarrow> ci_key info = srv_key (snd (snd e)) \<and> ci_iv info = srv_iv (snd (snd e)))"
    if "e \<in> set T" for e
    using read_connect_vector [OF F, of "fst (snd e)" "tm_secure a" "snd (snd e)"] wf that root(2) [OF r that]
    by (auto simp: T_def split_beta)
  have mem: "(l, tsd, srv) \<in> set T" using entry by (auto simp: T_def dest: map_of_SomeD)
  define b1 where "b1 = b\<lparr>clientTable := omap_put ident (tm_ip a) (clientTable b)\<rparr>"
  have b': "b' = read_topics F root ident (fb_keys F root) b1"
    using b(2) root(1) [OF r] flexbuf_okD(5) [OF F]
    by (simp add: tcp_DiscoveryMessageCallback_def WILL_LEAVE_NETWORK_def Let_def b1_def root_def F_def)
  have all: "\<forall>t \<in> set (fb_keys F root). t \<noteq> ''host'' \<longrightarrow> read_connect_info F (tm_secure b1) (fb_lookup F root t) \<noteq> None"
    using root(3) [OF r] cinfo b(1) by (force simp: b1_def)
  have "known b' (tsd_topic tsd) ident = Some (the (read_connect_info F (tm_secure b1) (fb_lookup F root (tsd_topic tsd))), None)"
    unfolding b' using root(3) [OF r] mem wf new
    by (intro read_topics_new [OF root(4) [OF r] all]) (force simp: T_def b1_def known_def)+
  moreover have "map_of (clientTable b') ident = Some (tm_ip a)" by (simp add: b' b1_def)
  ultimately show ?thesis using cinfo [OF mem] b(1) by (auto simp: b1_def)
qed

section \<open>Concrete parameters\<close>

definition sample_tcp_env :: tcp_env where
  "sample_tcp_env = \<lparr>te_os = plain_os, te_gen = (\<lambda>_. of_nat), te_send = (\<lambda>_ h. h \<noteq> 8),
     te_mq = plain_env (\<lambda>_ _ _. []), te_fb = sample_flexbuf\<rparr>"

definition sample_tcp :: "int \<Rightarrow> TCP" where
  "sample_tcp h = \<lparr>tcp_handle = h, tcp_addr = (''10.0.0.2'', 4000), tcp_secure = False, tcp_crypto = AESEncryptor_new\<rparr>"

definition sample_module :: TCPModule where
  "sample_module = \<lparr>tm_secure = False, tm_ip = ''10.0.0.1'', tm_discovery_cb = 1,
     publishTable = [(''t'', [(''a'', ConnectInfo_new, Some (sample_tcp 7)), (''b'', ConnectInfo_new, Some (sample_tcp 8)),
                             (''c'', ConnectInfo_new, Some (sample_tcp 9))])],
     subscribeTable = [], subscribe_handles = [], clientTable = [], tm_watches = [], tm_next_ptr = 1, tm_trace = [],
     tm_sent = [], tm_delivered = []\<rparr>"

definition sample_discovery :: AittDiscovery where
  "sample_discovery = (AittDiscovery_new ''me'')\<lparr>disc_mq := Some MosquittoMQ_init\<rparr>"

definition sample_server :: TCPServer where
  "sample_server = \<lparr>srv_handle = 5, srv_secure = False, srv_key = replicate 32 0, srv_iv = replicate 16 0\<rparr>"

definition sample_subscriber :: TCPModule where
  "sample_subscriber = sample_module\<lparr>publishTable := [],
     subscribeTable := [(2, \<lparr>tsd_cb_list = [(1, 3, 30)], tsd_topic = ''t'', tsd_client_list = []\<rparr>, sample_server)],
     subscribe_handles := [(1, 2)], tm_next_ptr := 3\<rparr>"

text \<open>
  Two ways the count of subscribers goes wrong.  A handler of an advertisement only looks at the
  topics it contains: the entry of a topic that is no longer advertised stays.  And giving back one
  of several subscriptions of a topic publishes no advertisement.
\<close>

lemma unadvertised_topic_stays:
  assumes "topic \<notin> set (fb_keys F (fb_root F m))" and "status \<noteq> ''disconnected''"
  shows "known (tcp_DiscoveryMessageCallback F c status m s) topic c = known s topic c"
  using assms
  by (simp add: tcp_DiscoveryMessageCallback_def WILL_LEAVE_NETWORK_def Let_def read_topics_other) (simp add: known_def)

lemma partial_unsubscribe_not_advertised:
  assumes "map_of (subscribe_handles s) h = Some l" and "map_of (subscribeTable s) l = Some (tsd, srv)"
    and "1 < length (tsd_cb_list tsd)" and "tcp_Unsubscribe E h (s, d) = (r, (s', d'))"
  shows "d' = d"
  using assms by (auto simp: tcp_Unsubscribe_def Let_def split: option.splits)

section \<open>Properties\<close>

text \<open>C13. The data of a message survives packing: what \<open>UnpackMsgInfo\<close> reads from the buffer
  of \<open>PackMsgInfo\<close> has the topic, the response topic, the correlation and the 32-bit sequence
  number of the message (a reply carries its response topic as the topic).  The end mark is the
  exception: a mark that is off is not packed, and the reader's default is on.\<close>

theorem msg_info_roundtrip:
  assumes "flexbuf_ok F"
  shows "UnpackMsgInfo F (fb_finish F (PackMsgInfo msg False)) AittMsg_new =
           msg\<lparr>msg_end_sequence := True, msg_id := nullptr, msg_protocol := AITT_TYPE_MQTT\<rparr> \<and>
         UnpackMsgInfo F (fb_finish F (PackMsgInfo msg True)) AittMsg_new =
           msg\<lparr>msg_topic := msg_reply_topic msg, msg_reply_topic := [], msg_end_sequence := True,
               msg_id := nullptr, msg_protocol := AITT_TYPE_MQTT\<rparr>"
  using UnpackMsgInfo_packed [OF assms, of msg] by simp

theorem msg_info_roundtrip_witness:
  "UnpackMsgInfo sample_flexbuf (fb_finish sample_flexbuf (PackMsgInfo
      (SetEndSequence False (SetSequence (- 3) (SetResponseTopic ''r'' (SetTopic ''t'' AittMsg_new)))) True)) AittMsg_new =
     SetSequence (- 3) (SetTopic ''r'' AittMsg_new)"
  using msg_info_roundtrip [OF sample_flexbuf_ok,
      of "SetEndSequence False (SetSequence (- 3) (SetResponseTopic ''r'' (SetTopic ''t'' AittMsg_new)))"]
  by (simp add: AittMsg_defs)



text \<open>C15. The tables stay consistent: whatever the application subscribes and unsubscribes, whatever
  connections are accepted, lost and read, and whatever peers announce, every handle the module has
  given out and not taken back belongs to a live server that has its callback in its list, and two
  servers never have the same topic.\<close>

theorem tcp_tables_consistent:
  assumes "reachable tcp_init (tcp_step E) (s, d)"
  shows "(\<forall>h l. map_of (subscribe_handles s) h = Some l \<longrightarrow>
       (\<exists>tsd srv. map_of (subscribeTable s) l = Some (tsd, srv) \<and> h \<in> fst ` set (tsd_cb_list tsd))) \<and>
     distinct (map (\<lambda>e. tsd_topic (fst (snd e))) (subscribeTable s))"
proof -
  have ok: "tables_ok (tm_next_ptr s) (subscribeTable s) (subscribe_handles s)"
    using tcp.reachable_inv [OF assms] by (simp add: tcp_ok_def)
  then show ?thesis
    using tables_topics_distinct [OF ok] unfolding tables_ok_def by auto
qed

theorem tcp_tables_consistent_witness:
  "\<exists>s d. reachable tcp_init (tcp_step sample_tcp_env) (s, d) \<and> subscribe_handles s = [(1, 2)] \<and>
     (\<exists>tsd srv. map_of (subscribeTable s) 2 = Some (tsd, srv) \<and> 1 \<in> fst ` set (tsd_cb_list tsd))"
proof -
  define w where "w = (sample_module\<lparr>publishTable := []\<rparr>, snd (TCPModule_ctor AITT_TYPE_TCP ''10.0.0.1'' sample_discovery))"
  have "tcp_init w"
    unfolding tcp_init_def
    by (rule exI [of _ AITT_TYPE_TCP], rule exI [of _ "''10.0.0.1''"], rule exI [of _ sample_discovery])
       (simp add: w_def TCPModule_ctor_def act_simps AddDiscoveryCB_def Let_def sample_module_def sample_discovery_def
        AittDiscovery_new_def wrap32_def)
  then have "reachable tcp_init (tcp_step sample_tcp_env) w" by (rule reachable_init)
  then have r: "reachable tcp_init (tcp_step sample_tcp_env) (snd (tcp_Subscribe sample_tcp_env ''t'' 3 30 w))"
    by (rule reachable_step) (rule step_subscribe)
  define s d where sd: "s = fst (snd (tcp_Subscribe sample_tcp_env ''t'' 3 30 w))"
    "d = snd (snd (tcp_Subscribe sample_tcp_env ''t'' 3 30 w))"
  have h: "subscribe_handles s = [(1, 2)]"
    by (simp add: sd w_def TCPModule_ctor_def act_simps AddDiscoveryCB_def Let_def sample_module_def
        sample_discovery_def AittDiscovery_new_def tcp_Subscribe_def find_topic_def new_server_def sample_tcp_env_def
        Server_ctor_def plain_os_def AddWatch_def tcp_UpdateDiscoveryMsg_def Server_GetPort_def omap_insert_def
        UpdateDiscoveryMsg_def PublishDiscoveryMsg_def mq_Publish_def plain_env_def)
  from r have r: "reachable tcp_init (tcp_step sample_tcp_env) (s, d)" by (simp add: sd)
  from tcp_tables_consistent [OF r] h r show ?thesis by auto
qed

text \<open>A TCP subscription can be given back: after \<open>Subscribe\<close>, \<open>Unsubscribe\<close> of the
  returned handle restores the table of subscriptions (every other handle keeps its topic, callback
  and user data) and, unless advertising the change fails, returns the user data.\<close>

lemma tcp_Subscribe_Unsubscribe:
  assumes "tcp_ok (fst w)" and "tcp_Subscribe E topic cb cbdata w = (Inr h, v)"
    and "tcp_Unsubscribe E h v = (r, u)"
  shows "tcp_ok (fst u) \<and> tcp_table v h = Some (topic, cb, cbdata) \<and> tcp_table u = tcp_table w \<and>
     (\<forall>x. r = Inr x \<longrightarrow> x = cbdata)"
  using tcp_handles.add_del [of w E "(topic, cb, cbdata)" h v r u]
    tcp_handles.add_law [of w E "(topic, cb, cbdata)" h v] assms
  by (simp add: tcp_add_def)

end
