(* ===== verification/AITT_Props.thy ===== *)
theory AITT_Props
  imports AITT_Model TCPModule_Props
begin

text \<open>
  Properties of the public class: its subscriptions are a table of handles over those of its
  providers, messages reach the callbacks of the matching subscriptions once and in order, replies
  are numbered and the last one ends the subscription, a synchronous request ends with the last
  reply or the timeout.
\<close>

section \<open>Subscriptions are a table of handles\<close>

text \<open>What a provider knows under a handle: topic, closure and user data.\<close>

definition tcp_of :: "Impl \<Rightarrow> nat \<Rightarrow> TCPModule" where
  "tcp_of s k = the (transports (im_modules s) ! k)"

definition tcp_entry :: "TCPModule \<Rightarrow> ptr \<Rightarrow> (string \<times> nat \<times> ptr) option" where
  "tcp_entry m = handle_entry (subscribeTable m) (subscribe_handles m)"

lemma tcp_table_entry: "tcp_table w = tcp_entry (fst w)"
  by (simp add: tcp_table_def tcp_entry_def)

definition prov :: "Impl \<Rightarrow> AittProtocol \<Rightarrow> ptr \<Rightarrow> (string \<times> nat \<times> ptr) option" where
  "prov s p h =
     (if p = AITT_TYPE_MQTT then map_option (\<lambda>d. (sd_topic d, sd_cb d, sd_user_data d)) (mq_table (im_mq s) h)
      else if p = AITT_TYPE_TCP then tcp_entry (tcp_of s 0) h
      else if p = AITT_TYPE_TCP_SECURE then tcp_entry (tcp_of s 1) h
      else None)"

text \<open>The next handle a provider will give.\<close>

definition nxt :: "Impl \<Rightarrow> AittProtocol \<Rightarrow> ptr" where
  "nxt s p =
     (if p = AITT_TYPE_MQTT then mq_next_ptr (im_mq s)
      else if p = AITT_TYPE_TCP then tm_next_ptr (tcp_of s 0) else tm_next_ptr (tcp_of s 1))"

definition providers_ok :: "Impl \<Rightarrow> bool" where
  "providers_ok s \<longleftrightarrow> mq_idle (im_mq s) \<and>
     (\<exists>a b. transports (im_modules s) = [Some a, Some b] \<and> tcp_ok a \<and> tcp_ok b)"

definition same_infos :: "Impl \<Rightarrow> Impl \<Rightarrow> bool" where
  "same_infos s t \<longleftrightarrow> subscribed_list t = subscribed_list s \<and> im_infos t = im_infos s \<and> im_next_info t = im_next_info s"

text \<open>A call on a loaded transport changes this module and the discovery object only.\<close>

lemma on_Get_run:
  assumes "transports (im_modules s) = [Some a, Some b]" and "p = AITT_TYPE_TCP \<or> p = AITT_TYPE_TCP_SECURE"
    and "f (if p = AITT_TYPE_TCP then a else b, im_discovery s) = (r, (m, d))"
  shows "im_on_mm (on_Get p f g) s =
     (r, s\<lparr>im_modules := (im_modules s)\<lparr>transports := if p = AITT_TYPE_TCP then [Some m, Some b] else [Some a, Some m]\<rparr>,
           im_discovery := d\<rparr>)"
  using assms by (auto simp: act_simps on_Get_def mm_Get_def Convert_def on_transport_def)

lemma mq_Unsubscribe_null: "mq_Unsubscribe E 0 = ret 0"
  by (simp add: mq_Unsubscribe_def)

lemma mq_Subscribe_next:
  "mq_Subscribe E topic cb ud qos q = (r, q') \<Longrightarrow> mq_next_ptr q \<le> mq_next_ptr q' \<and>
     (\<forall>h. r = Inr h \<longrightarrow> h = mq_next_ptr q \<and> h < mq_next_ptr q')"
  by (auto simp: mq_Subscribe_def act_simps Let_def split: if_splits)

lemma mq_Unsubscribe_next: "mq_Unsubscribe E h q = (r, q') \<Longrightarrow> mq_next_ptr q' = mq_next_ptr q"
  by (auto simp: mq_Unsubscribe_def act_simps Let_def split: if_splits option.splits)

lemma preserves_on_mod: "preserves I m \<Longrightarrow> preserves (\<lambda>w. I (fst w)) (on_mod m)"
  unfolding on_mod_def by (rule preserves_zoom) auto

lemma tcp_UpdateDiscoveryMsg_next: "preserves (\<lambda>w. n \<le> tm_next_ptr (fst w)) (tcp_UpdateDiscoveryMsg E)"
  using UpdateDiscoveryMsg_same by (intro preservesI) (simp add: same_tables_def)

lemma subscribe_listen_next: "preserves (\<lambda>s. n \<le> tm_next_ptr s) (subscribe_listen E topic info)"
  by (rule preservesI) (auto simp: subscribe_listen_def new_server_run AddWatch_def split: option.split prod.split sum.split)

lemma tcp_Subscribe_next:
  assumes "tcp_Subscribe E topic cb ud (m, d) = (r, w)"
  shows "tm_next_ptr m \<le> tm_next_ptr (fst w) \<and> (\<forall>h. r = Inr h \<longrightarrow> h = tm_next_ptr m \<and> h < tm_next_ptr (fst w))"
proof -
  let ?n = "Suc (tm_next_ptr m)"
  let ?body = "bnd (on_mod (subscribe_listen E topic (tm_next_ptr m, cb, ud))) (\<lambda>l.
     sq (tcp_UpdateDiscoveryMsg E)
     (sq (on_mod (upd (\<lambda>s'. s'\<lparr>subscribe_handles := omap_insert (tm_next_ptr m) l (subscribe_handles s')\<rparr>)))
         (ret (tm_next_ptr m))))"
  have run: "?body (m\<lparr>tm_next_ptr := Suc (tm_next_ptr m)\<rparr>, d) = (r, w)" using assms by (simp add: tcp_Subscribe_alt)
  have "preserves (\<lambda>w. ?n \<le> tm_next_ptr (fst w)) ?body"
    by (intro preserves_intros tcp_UpdateDiscoveryMsg_next preserves_on_mod subscribe_listen_next) simp
  from preservesD [OF this, of "(m\<lparr>tm_next_ptr := Suc (tm_next_ptr m)\<rparr>, d)"] have "?n \<le> tm_next_ptr (fst w)" by (simp add: run)
  moreover have "r = Inr h \<Longrightarrow> h = tm_next_ptr m" for h
    using run by (auto simp: act_simps split: prod.splits sum.splits)
  ultimately show ?thesis by auto
qed

lemma tcp_Unsubscribe_next:
  assumes "tcp_Unsubscribe E h (m, d) = (r, w)"
  shows "tm_next_ptr m \<le> tm_next_ptr (fst w)"
proof -
  let ?m1 = "m\<lparr>subscribe_handles := omap_del h (subscribe_handles m)\<rparr>"
  have "tm_next_ptr (fst (snd ((sq (on_mod (forA fds (remove_client E)))
     (sq (on_mod (upd (\<lambda>s. (snd (RemoveWatch fd s))\<lparr>subscribeTable := omap_del l (subscribeTable s)\<rparr>)))
     (sq (on_mod (on_os (Server_dtor (te_os E) srv)))
     (sq (tcp_UpdateDiscoveryMsg E) (ret x))))) (?m1, d)))) = tm_next_ptr m" for fds fd l srv x
    using preservesD [OF preserves_take_down [of "tm_next_ptr m" "subscribeTable ?m1" "subscribe_handles ?m1" l fds E fd srv x], of "(?m1, d)"]
    by (simp add: taking_down_def)
  then have "tm_next_ptr (fst (snd (tcp_Unsubscribe E h (m, d)))) = tm_next_ptr m"
    by (auto simp: tcp_Unsubscribe_def Let_def split: option.split prod.split)
  with assms show ?thesis by simp
qed

text \<open>The contract that the providers keep for joining.\<close>

definition joins :: "AittProtocol \<Rightarrow> ptr \<Rightarrow> string \<Rightarrow> sub_closure \<Rightarrow> ptr \<Rightarrow> Impl \<Rightarrow> exn + ptr \<Rightarrow> Impl \<Rightarrow> bool" where
  "joins p info topic c ud s r t \<longleftrightarrow> providers_ok t \<and> same_infos s t \<and>
     im_closures t = omap_put info c (im_closures s) \<and>
     (\<forall>q. q \<noteq> p \<longrightarrow> prov t q = prov s q) \<and> (\<forall>q. nxt s q \<le> nxt t q) \<and>
     nxt s p \<noteq> 0 \<and> prov s p (nxt s p) = None \<and> (\<forall>h. r = Inr h \<longrightarrow> h = nxt s p \<and> h < nxt t p) \<and>
     (prov t p = (prov s p)(nxt s p \<mapsto> (topic, info, ud)) \<or> prov t p = prov s p \<and> (\<exists>e. r = Inl e))"

lemma nxt_fresh:
  assumes "providers_ok s" and "p = AITT_TYPE_MQTT \<or> p = AITT_TYPE_TCP \<or> p = AITT_TYPE_TCP_SECURE"
  shows "nxt s p \<noteq> 0 \<and> prov s p (nxt s p) = None"
proof -
  have "mq_table q (mq_next_ptr q) = None \<and> mq_next_ptr q \<noteq> 0" if "mq_idle q" for q
    using that by (force simp: mq_idle_def mq_ok_defs mq_table_def map_of_eq_None_iff)
  moreover have "tcp_entry m (tm_next_ptr m) = None \<and> tm_next_ptr m \<noteq> 0" if "tcp_ok m" for m
    using that by (auto simp: tcp_ok_def tables_ok_def tcp_entry_def handle_entry_def split: option.splits)
  ultimately show ?thesis using assms by (auto simp: providers_ok_def nxt_def prov_def tcp_of_def)
qed

lemma SubscribeMQ_joins:
  assumes "providers_ok s" and "SubscribeMQ E info loop topic cb ud qos s = (r, t)"
  shows "joins AITT_TYPE_MQTT info topic \<lparr>cl_cb = cb, cl_protocol = AITT_TYPE_MQTT, cl_loop = loop\<rparr> ud s r t"
proof -
  define d where "d = \<lparr>sd_topic = topic, sd_cb = info, sd_user_data = ud\<rparr>"
  have i: "mq_idle (im_mq s)" using assms(1) by (simp add: providers_ok_def)
  obtain x q where m: "mq_add (ie_mq E) qos d (im_mq s) = (x, q)" by fastforce
  then have run: "mq_Subscribe (ie_mq E) topic info ud qos (im_mq s) = (x, q)" by (simp add: mq_add_def d_def)
  note n = nxt_fresh [OF assms(1), of AITT_TYPE_MQTT] mq_Subscribe_next [OF run]
  show ?thesis
  proof (cases x)
    case (Inl e)
    with mq_handles.add_error [OF i] m have "mq_idle q" "mq_table q = mq_table (im_mq s)" by auto
    with Inl n assms run show ?thesis
      by (auto simp: joins_def SubscribeMQ_def add_closure_def act_simps providers_ok_def same_infos_def prov_def fun_eq_iff
          tcp_of_def nxt_def)
  next
    case (Inr h)
    with mq_handles.add_law [OF i] m have "mq_idle q" "h \<noteq> 0" "mq_table (im_mq s) h = None" "mq_table q = (mq_table (im_mq s))(h \<mapsto> d)"
      by auto
    with Inr n assms run show ?thesis
      by (cases "mdh_Subscribe (ie_disc E) (ie_fb E) h topic (im_mdh s, im_discovery s)")
         (auto simp: joins_def SubscribeMQ_def add_closure_def act_simps providers_ok_def same_infos_def prov_def fun_eq_iff
           tcp_of_def nxt_def d_def split: sum.splits)
  qed
qed

lemma SubscribeTCP_joins:
  assumes "providers_ok s" and p: "p = AITT_TYPE_TCP \<or> p = AITT_TYPE_TCP_SECURE"
    and "SubscribeTCP E info p topic cb ud s = (r, t)"
  shows "joins p info topic \<lparr>cl_cb = cb, cl_protocol = p, cl_loop = None\<rparr> ud s r t"
proof -
  define s1 where "s1 = s\<lparr>im_closures := omap_put info \<lparr>cl_cb = cb, cl_protocol = p, cl_loop = None\<rparr> (im_closures s)\<rparr>"
  obtain a b where ab: "transports (im_modules s1) = [Some a, Some b]" "tcp_ok a" "tcp_ok b"
    using assms(1) by (auto simp: providers_ok_def s1_def)
  define m where "m = (if p = AITT_TYPE_TCP then a else b)"
  obtain x m1 d1 where x: "tcp_Subscribe (ie_tcp E) topic info ud (m, im_discovery s1) = (x, (m1, d1))" by (metis surj_pair)
  have law: "tcp_ok m1" "case x of Inl e \<Rightarrow> tcp_entry m1 = tcp_entry m
      | Inr h \<Rightarrow> h \<noteq> 0 \<and> tcp_entry m h = None \<and> tcp_entry m1 = (tcp_entry m)(h \<mapsto> (topic, info, ud))"
    using tcp_Subscribe_law [OF _ x] ab(2,3) by (auto simp: m_def tcp_table_entry split: sum.splits)
  have "t = s1\<lparr>im_modules := (im_modules s1)\<lparr>transports := if p = AITT_TYPE_TCP then [Some m1, Some b] else [Some a, Some m1]\<rparr>,
           im_discovery := d1\<rparr>" "r = x"
    using assms(3) on_Get_run [OF ab(1) p, of "tcp_Subscribe (ie_tcp E) topic info ud", OF x [unfolded m_def], of "null_Subscribe topic info ud"]
    by (simp_all add: SubscribeTCP_def add_closure_def act_simps s1_def [symmetric])
  with ab law p assms(1) tcp_Subscribe_next [OF x] nxt_fresh [OF assms(1), of p] show ?thesis
    by (auto simp: joins_def s1_def m_def providers_ok_def same_infos_def prov_def tcp_of_def nxt_def fun_eq_iff split: sum.splits if_splits)
qed

lemma leave_provider_law:
  assumes "providers_ok s" and "leave_provider E p h s = (r, t)"
  shows "providers_ok t \<and> same_infos s t \<and> im_closures t = im_closures s \<and> (\<forall>q. q \<noteq> p \<longrightarrow> prov t q = prov s q) \<and>
     (\<forall>q. nxt s q \<le> nxt t q) \<and>
     (case prov s p h of
        None \<Rightarrow> h \<noteq> 0 \<longrightarrow> prov t p = prov s p
      | Some (topic, n, ud) \<Rightarrow> prov t p = (prov s p)(h := None) \<and> (\<forall>x. r = Inr x \<longrightarrow> x = ud))"
proof -
  obtain a b where ab: "transports (im_modules s) = [Some a, Some b]" "tcp_ok a" "tcp_ok b"
    using assms(1) by (auto simp: providers_ok_def)
  have i: "mq_idle (im_mq s)" using assms(1) by (simp add: providers_ok_def)
  consider "p = AITT_TYPE_MQTT" | "p = AITT_TYPE_TCP \<or> p = AITT_TYPE_TCP_SECURE"
    | "p \<noteq> AITT_TYPE_MQTT" "p \<noteq> AITT_TYPE_TCP" "p \<noteq> AITT_TYPE_TCP_SECURE" by blast
  then show ?thesis
  proof cases
    case 1
    obtain x q where x: "mq_Unsubscribe (ie_mq E) h (im_mq s) = (x, q)" by fastforce
    have l: "mq_idle q" "case mq_table (im_mq s) h of None \<Rightarrow> h \<noteq> 0 \<longrightarrow> mq_table q = mq_table (im_mq s)
        | Some d \<Rightarrow> mq_table q = (mq_table (im_mq s))(h := None) \<and> (\<forall>y. x = Inr y \<longrightarrow> y = sd_user_data d)"
      using mq_handles.del_law [OF i _ x] mq_handles.del_unknown [OF i _ _ x] i x
      by (cases "h = 0"; auto simp: mq_Unsubscribe_null act_simps split: option.splits)+
    obtain y w where y: "mdh_Unsubscribe (ie_disc E) (ie_fb E) h (im_mdh s, im_discovery s) = (y, w)" by (metis surj_pair)
    show ?thesis
      using assms(2) 1 x y l ab mq_Unsubscribe_next [OF x]
      by (auto simp: nxt_def leave_provider_def act_simps providers_ok_def same_infos_def prov_def tcp_of_def fun_eq_iff
          split: sum.splits option.splits)
  next
    case 2
    define m where "m = (if p = AITT_TYPE_TCP then a else b)"
    obtain x m1 d1 where x: "tcp_Unsubscribe (ie_tcp E) h (m, im_discovery s) = (x, (m1, d1))" by (metis surj_pair)
    have ok: "tcp_ok (fst (m, im_discovery s))" using ab by (simp add: m_def)
    have law: "tcp_ok m1" "case tcp_entry m h of None \<Rightarrow> h \<noteq> 0 \<longrightarrow> tcp_entry m1 = tcp_entry m
        | Some d \<Rightarrow> tcp_entry m1 = (tcp_entry m)(h := None) \<and> (\<forall>y. x = Inr y \<longrightarrow> y = snd (snd d))"
      using tcp_handles.del_law [OF ok _ x] tcp_handles.del_unknown [OF ok _ _ x]
        tcp_Unsubscribe_unknown [of m "im_discovery s" h "ie_tcp E"] ok x
      by (cases "tcp_entry m h"; auto simp: tcp_table_entry)+
    have "t = s\<lparr>im_modules := (im_modules s)\<lparr>transports := if p = AITT_TYPE_TCP then [Some m1, Some b] else [Some a, Some m1]\<rparr>,
             im_discovery := d1\<rparr>" "r = x"
      using assms(2) 2 on_Get_run [OF ab(1) 2, of "tcp_Unsubscribe (ie_tcp E) h", OF x [unfolded m_def], of "null_Unsubscribe h"]
      by (auto simp: leave_provider_def)
    with ab law 2 assms(1) tcp_Unsubscribe_next [OF x] show ?thesis
      by (auto simp: nxt_def m_def providers_ok_def same_infos_def prov_def tcp_of_def fun_eq_iff split: sum.splits if_splits option.splits)
  next
    case 3
    with assms show ?thesis by (auto simp: leave_provider_def act_simps prov_def same_infos_def)
  qed
qed

text \<open>
  A subscription of the public class: its topic, callback, user data and protocol.  It exists while
  its info is in the list and the provider knows the handle for it.
\<close>

definition impl_entry :: "Impl \<Rightarrow> ptr \<Rightarrow> AittProtocol \<times> ptr \<Rightarrow> (string \<times> user_cb \<times> ptr \<times> AittProtocol) option" where
  "impl_entry s i ph =
     (case prov s (fst ph) (snd ph) of
        None \<Rightarrow> None
      | Some (topic, n, ud) \<Rightarrow>
          if n = i then map_option (\<lambda>c. (topic, cl_cb c, ud, fst ph)) (map_of (im_closures s) i) else None)"

lemma impl_entry_cong: "prov t = prov s \<Longrightarrow> im_closures t = im_closures s \<Longrightarrow> impl_entry t = impl_entry s"
  by (intro ext) (simp add: impl_entry_def split: option.split)

definition impl_table :: "Impl \<Rightarrow> ptr \<Rightarrow> (string \<times> user_cb \<times> ptr \<times> AittProtocol) option" where
  "impl_table s i = (if i \<in> set (subscribed_list s) then Option.bind (map_of (im_infos s) i) (impl_entry s i) else None)"

definition infos_ok :: "Impl \<Rightarrow> bool" where
  "infos_ok s \<longleftrightarrow> 0 < im_next_info s \<and> distinct (subscribed_list s) \<and>
     (\<forall>i \<in> set (subscribed_list s). 0 < i \<and> i < im_next_info s \<and> (\<exists>p h. map_of (im_infos s) i = Some (p, h) \<and> h \<noteq> 0 \<and> h < nxt s p \<and>
        (\<forall>topic n ud. prov s p h = Some (topic, n, ud) \<longrightarrow> n = i)))"

definition impl_ok :: "Impl \<Rightarrow> bool" where
  "impl_ok s \<longleftrightarrow> providers_ok s \<and> infos_ok s"

definition impl_add :: "impl_env \<Rightarrow> int \<Rightarrow> string \<times> user_cb \<times> ptr \<times> AittProtocol \<Rightarrow> (Impl, ptr) act" where
  "impl_add E qos d = impl_Subscribe E (fst d) (fst (snd d)) (fst (snd (snd d))) (snd (snd (snd d))) qos"

lemma impl_Subscribe_run:
  assumes "providers_ok s" and "impl_add E qos (topic, cb, ud, p) s = (r, t)"
    and "s0 = s\<lparr>im_next_info := im_next_info s + 1, im_infos := omap_put (im_next_info s) (p, 0) (im_infos s)\<rparr>"
  shows "(\<exists>x u. joins p (im_next_info s) topic \<lparr>cl_cb = cb, cl_protocol = p, cl_loop = None\<rparr> ud s0 x u \<and>
      (case x of Inl e \<Rightarrow> r = Inl e \<and> t = u
       | Inr h \<Rightarrow> r = Inr (im_next_info s) \<and>
           t = u\<lparr>im_infos := omap_put (im_next_info s) (p, h) (im_infos u), subscribed_list := subscribed_list u @ [im_next_info s]\<rparr>)) \<or>
    (\<exists>e. r = Inl e \<and> t = s0\<lparr>im_infos := omap_del (im_next_info s) (im_infos s0)\<rparr>)"
proof -
  have ok: "providers_ok s0" using assms(1,3) by (simp add: providers_ok_def)
  have s0: "s\<lparr>im_next_info := Suc (im_next_info s), im_infos := omap_put (im_next_info s) (p, 0) (im_infos s)\<rparr> = s0"
    using assms(3) by simp
  consider "p = AITT_TYPE_MQTT" | "p = AITT_TYPE_TCP \<or> p = AITT_TYPE_TCP_SECURE"
    | "p \<noteq> AITT_TYPE_MQTT" "p \<noteq> AITT_TYPE_TCP" "p \<noteq> AITT_TYPE_TCP_SECURE" by blast
  then show ?thesis
  proof cases
    case 1
    obtain x u where x: "SubscribeMQ E (im_next_info s) None topic cb ud qos s0 = (x, u)" by fastforce
    with 1 assms(2) SubscribeMQ_joins [OF ok x] show ?thesis
      by (intro disjI1 exI [of _ x] exI [of _ u])
         (auto simp: impl_add_def impl_Subscribe_def new_info_def push_info_def act_simps s0 [unfolded 1] split: sum.splits)
  next
    case 2
    obtain x u where x: "SubscribeTCP E (im_next_info s) p topic cb ud s0 = (x, u)" by fastforce
    with 2 assms(2) SubscribeTCP_joins [OF ok 2 x] show ?thesis
      by (intro disjI1 exI [of _ x] exI [of _ u])
         (auto simp: impl_add_def impl_Subscribe_def new_info_def push_info_def act_simps s0 split: sum.splits)
  next
    case 3
    with assms show ?thesis
      by (intro disjI2) (auto simp: impl_add_def impl_Subscribe_def new_info_def delete_info_def act_simps)
  qed
qed

lemma impl_table_joins:
  assumes "infos_ok s" and "joins p (im_next_info s) topic c ud s0 x u"
    and "s0 = s\<lparr>im_next_info := im_next_info s + 1, im_infos := omap_put (im_next_info s) (p, 0) (im_infos s)\<rparr>"
  shows "impl_table u i = impl_table s i"
proof (cases "i \<in> set (subscribed_list s)")
  case True
  then have i: "i \<noteq> im_next_info s" using assms(1) by (auto simp: infos_ok_def)
  have q: "prov s0 = prov s" "im_closures s0 = im_closures s" by (simp_all add: assms(3) prov_def tcp_of_def fun_eq_iff)
  from assms(2) have j: "im_closures u = omap_put (im_next_info s) c (im_closures s)"
    "\<forall>q. q \<noteq> p \<longrightarrow> prov u q = prov s q" "prov s p (nxt s0 p) = None"
    "prov u p = (prov s p)(nxt s0 p \<mapsto> (topic, im_next_info s, ud)) \<or> prov u p = prov s p" "same_infos s0 u"
    unfolding joins_def q by blast+
  have "impl_entry u i = impl_entry s i"
  proof
    fix ph show "impl_entry u i ph = impl_entry s i ph"
      using j i by (cases "fst ph = p"; cases "snd ph = nxt s0 p") (auto simp: impl_entry_def split: option.splits)
  qed
  with True i j(5) assms(3) show ?thesis by (simp add: impl_table_def same_infos_def cong: option.case_cong)
next
  case False
  with assms(2) show ?thesis by (simp add: impl_table_def joins_def same_infos_def assms(3))
qed

lemma infos_ok_joins:
  assumes "infos_ok s" and "joins p (im_next_info s) topic c ud s0 x u"
    and "s0 = s\<lparr>im_next_info := im_next_info s + 1, im_infos := omap_put (im_next_info s) (p, 0) (im_infos s)\<rparr>"
  shows "infos_ok u \<and> subscribed_list u = subscribed_list s \<and> im_next_info u = im_next_info s + 1"
proof -
  have q: "prov s0 = prov s" "nxt s0 = nxt s" by (simp_all add: assms(3) prov_def nxt_def tcp_of_def fun_eq_iff)
  have j: "same_infos s0 u" "\<forall>q. nxt s q \<le> nxt u q" "\<forall>q. q \<noteq> p \<longrightarrow> prov u q = prov s q"
    "prov u p = (prov s p)(nxt s p \<mapsto> (topic, im_next_info s, ud)) \<or> prov u p = prov s p"
    using assms(2) unfolding joins_def q by blast+
  have "\<exists>p' h. map_of (im_infos u) i = Some (p', h) \<and> h \<noteq> 0 \<and> h < nxt u p' \<and> (\<forall>topic n ud. prov u p' h = Some (topic, n, ud) \<longrightarrow> n = i)"
    if i: "i \<in> set (subscribed_list s)" for i
  proof -
    from assms(1) i obtain p' h where h: "i < im_next_info s" "map_of (im_infos s) i = Some (p', h)" "h \<noteq> 0" "h < nxt s p'"
      "\<forall>topic n ud. prov s p' h = Some (topic, n, ud) \<longrightarrow> n = i" by (auto simp: infos_ok_def)
    then have "prov u p' h = prov s p' h" using j(3,4) by (cases "p' = p") auto
    moreover have "map_of (im_infos u) i = Some (p', h)" using j(1) h(1,2) by (auto simp: same_infos_def assms(3))
    moreover have "h < nxt u p'" using j(2) h(4) by (meson order_less_le_trans)
    ultimately show ?thesis using h by auto
  qed
  with j(1) assms(1) show ?thesis by (auto simp: infos_ok_def same_infos_def assms(3))
qed

lemma impl_add_law:
  assumes "impl_ok s" and "impl_add E qos d s = (r, t)"
  shows "impl_ok t \<and> (case r of Inl e \<Rightarrow> impl_table t = impl_table s
     | Inr i \<Rightarrow> i \<noteq> 0 \<and> impl_table s i = None \<and> impl_table t = (impl_table s)(i \<mapsto> d))"
proof -
  obtain topic cb ud p where d: "d = (topic, cb, ud, p)" by (metis surj_pair)
  define n where "n = im_next_info s"
  define c where "c = \<lparr>cl_cb = cb, cl_protocol = p, cl_loop = None\<rparr>"
  define s0 where "s0 = s\<lparr>im_next_info := im_next_info s + 1, im_infos := omap_put (im_next_info s) (p, 0) (im_infos s)\<rparr>"
  have ok: "providers_ok s" "infos_ok s" using assms(1) by (auto simp: impl_ok_def)
  then have n: "0 < n" "n \<notin> set (subscribed_list s)" by (auto simp: infos_ok_def n_def)
  from impl_Subscribe_run [OF ok(1) assms(2) [unfolded d] s0_def] consider
      (joined) x u where "joins p n topic c ud s0 x u" "case x of Inl e \<Rightarrow> r = Inl e \<and> t = u
       | Inr h \<Rightarrow> r = Inr n \<and> t = u\<lparr>im_infos := omap_put n (p, h) (im_infos u), subscribed_list := subscribed_list u @ [n]\<rparr>"
    | (bad) e where "r = Inl e" "t = s0\<lparr>im_infos := omap_del n (im_infos s0)\<rparr>" unfolding n_def c_def by blast
  then show ?thesis
  proof cases
    case joined
    note tab = impl_table_joins [OF ok(2) joined(1) [unfolded n_def] s0_def]
    have u: "providers_ok u" "infos_ok u" "subscribed_list u = subscribed_list s" "im_next_info u = n + 1"
      using joined(1) infos_ok_joins [OF ok(2) joined(1) [unfolded n_def] s0_def] by (auto simp: joins_def n_def)
    show ?thesis
    proof (cases x)
      case (Inl e)
      with joined(2) u tab show ?thesis by (auto simp: impl_ok_def)
    next
      case (Inr h)
      then have h: "h \<noteq> 0" "h < nxt u p" "prov u p h = Some (topic, n, ud)" "map_of (im_closures u) n = Some c"
        using joined(1) by (auto simp: joins_def)
      have t: "r = Inr n" "t = u\<lparr>im_infos := omap_put n (p, h) (im_infos u), subscribed_list := subscribed_list u @ [n]\<rparr>"
        using joined(2) Inr by auto
      have pv: "prov t = prov u" "im_closures t = im_closures u" "nxt t = nxt u"
        by (simp_all add: t(2) prov_def tcp_of_def nxt_def fun_eq_iff)
      have e: "impl_entry t = impl_entry u" using pv(1,2) by (rule impl_entry_cong)
      have "impl_table t i = ((impl_table s)(n \<mapsto> d)) i" for i
      proof (cases "i = n")
        case True
        with h e show ?thesis by (simp add: impl_table_def t(2) d impl_entry_def c_def)
      next
        case False
        then have "impl_table t i = impl_table u i" using e by (simp add: impl_table_def t(2))
        with False tab show ?thesis by simp
      qed
      moreover have "infos_ok t"
        using u n h pv unfolding infos_ok_def by (auto simp: t(2))
      moreover have "providers_ok t" using u(1) by (simp add: t(2) providers_ok_def)
      ultimately show ?thesis using n by (auto simp: t(1) impl_table_def impl_ok_def)
    qed
  next
    case bad
    have pv: "prov t = prov s" "im_closures t = im_closures s" "nxt t = nxt s"
      by (simp_all add: bad(2) s0_def prov_def tcp_of_def nxt_def fun_eq_iff)
    have e: "impl_entry t = impl_entry s" using pv(1,2) by (rule impl_entry_cong)
    have m: "subscribed_list t = subscribed_list s" "x \<noteq> n \<Longrightarrow> map_of (im_infos t) x = map_of (im_infos s) x" for x
      by (simp_all add: bad(2) s0_def n_def)
    have "impl_table t x = impl_table s x" for x
      using n e m by (cases "x = n") (simp_all add: impl_table_def)
    moreover have "providers_ok t" using ok(1) by (simp add: bad(2) s0_def providers_ok_def)
    moreover have "infos_ok t"
    proof -
      have "x \<in> set (subscribed_list s) \<Longrightarrow> x \<noteq> n" for x using n(2) by auto
      moreover have "im_next_info t = Suc n" by (simp add: bad(2) s0_def n_def)
      ultimately show ?thesis using ok(2) m pv n_def unfolding infos_ok_def by (auto intro: less_SucI)
    qed
    ultimately show ?thesis using bad(1) by (simp add: fun_eq_iff impl_ok_def)
  qed
qed

text \<open>Leaving a provider takes away exactly the subscription that held the handle.\<close>

lemma impl_table_leave:
  assumes "impl_ok s" and i: "i \<in> set (subscribed_list s)" "map_of (im_infos s) i = Some (p, h)"
    and "leave_provider E p h s = (r, t)"
  shows "impl_ok t \<and> same_infos s t \<and> impl_table t = (impl_table s)(i := None) \<and>
     (\<forall>x d. r = Inr x \<longrightarrow> impl_table s i = Some d \<longrightarrow> x = fst (snd (snd d)))"
proof -
  note law = leave_provider_law [OF _ assms(4)]
  have ok: "providers_ok s" "infos_ok s" using assms(1) by (auto simp: impl_ok_def)
  then have h: "h \<noteq> 0" "\<forall>topic n ud. prov s p h = Some (topic, n, ud) \<longrightarrow> n = i" using i by (auto simp: infos_ok_def)
  have si: "same_infos s t" "im_closures t = im_closures s" "\<forall>q. nxt s q \<le> nxt t q" using law [OF ok(1)] by auto
  have pv: "prov t q g = (if q = p \<and> g = h then None else prov s q g)" for q g
    using law [OF ok(1)] h(1) by (cases "q = p") (auto split: option.splits)
  have "impl_table t j = ((impl_table s)(i := None)) j" for j
  proof (cases "j = i")
    case True
    with i si pv show ?thesis by (simp add: impl_table_def impl_entry_def same_infos_def)
  next
    case False
    have "impl_entry t j ph = impl_entry s j ph" for ph
      using si(2) pv h(2) False by (auto simp: impl_entry_def split: option.split)
    then have "impl_entry t j = impl_entry s j" by (rule ext)
    with False si(1) show ?thesis by (simp add: impl_table_def same_infos_def)
  qed
  moreover have "infos_ok t"
    unfolding infos_ok_def
  proof (intro conjI ballI)
    fix j assume "j \<in> set (subscribed_list t)"
    then obtain p' g where g: "map_of (im_infos s) j = Some (p', g)" "g \<noteq> 0" "g < nxt s p'"
      "\<forall>topic n ud. prov s p' g = Some (topic, n, ud) \<longrightarrow> n = j" "0 < j" "j < im_next_info s"
      using ok(2) si(1) by (auto simp: infos_ok_def same_infos_def)
    then show "0 < j" "j < im_next_info t" using si(1) by (auto simp: same_infos_def)
    have "g < nxt t p'" using g(3) si(3) by (meson order_less_le_trans)
    with g si(1) pv show "\<exists>p h. map_of (im_infos t) j = Some (p, h) \<and> h \<noteq> 0 \<and> h < nxt t p \<and> (\<forall>topic n ud. prov t p h = Some (topic, n, ud) \<longrightarrow> n = j)"
      by (auto simp: same_infos_def)
  qed (use ok(2) si(1) in \<open>auto simp: infos_ok_def same_infos_def\<close>)
  moreover have "x = fst (snd (snd d))" if "r = Inr x" "impl_table s i = Some d" for x d
    using that law [OF ok(1)] i by (auto simp: impl_table_def impl_entry_def split: option.splits if_splits)
  ultimately show ?thesis using law [OF ok(1)] si(1) by (auto simp: impl_ok_def)
qed

lemma impl_Unsubscribe_law:
  assumes "impl_ok s" and "impl_Unsubscribe E i s = (r, t)"
  shows "impl_ok t \<and> impl_table t = (impl_table s)(i := None) \<and>
     (\<forall>x d. r = Inr x \<longrightarrow> impl_table s i = Some d \<longrightarrow> x = fst (snd (snd d)))"
proof (cases "index_of i (subscribed_list s)")
  case None
  then have "i \<notin> set (subscribed_list s)" by (simp add: index_of_None)
  with None assms show ?thesis by (auto simp: impl_Unsubscribe_def impl_table_def)
next
  case (Some k)
  from index_of_Some [OF Some] have k: "k < length (subscribed_list s)" "subscribed_list s ! k = i" by auto
  then have i: "i \<in> set (subscribed_list s)" by auto
  then obtain p h where ph: "map_of (im_infos s) i = Some (p, h)" using assms(1) by (auto simp: impl_ok_def infos_ok_def)
  obtain x u where x: "leave_provider E p h s = (x, u)" by fastforce
  note law = impl_table_leave [OF assms(1) i ph x]
  show ?thesis
  proof (cases x)
    case (Inl e)
    then show ?thesis using law assms(2) Some ph x by (auto simp: impl_Unsubscribe_def act_simps)
  next
    case (Inr y)
    define v where "v = u\<lparr>subscribed_list := erase_at k (subscribed_list u), im_infos := omap_del i (im_infos u)\<rparr>"
    have t: "r = Inr y" "t = v"
      using Inr assms(2) Some ph x by (auto simp: impl_Unsubscribe_def delete_info_def act_simps v_def)
    have d: "distinct (subscribed_list s)" using assms(1) by (auto simp: impl_ok_def infos_ok_def)
    then have e: "set (erase_at k (subscribed_list s)) = set (subscribed_list s) - {i}" "distinct (erase_at k (subscribed_list s))"
      using erase_at_distinct [OF d k(1)] k(2) distinct_erase_at by auto
    have pv: "prov v = prov u" "im_closures v = im_closures u" "nxt v = nxt u"
      by (simp_all add: v_def prov_def tcp_of_def nxt_def fun_eq_iff)
    have f: "impl_entry v = impl_entry u" using pv(1,2) by (rule impl_entry_cong)
    have l: "set (subscribed_list v) = set (subscribed_list u) - {i}" "distinct (subscribed_list v)" "im_next_info v = im_next_info u"
      "j \<noteq> i \<Longrightarrow> map_of (im_infos v) j = map_of (im_infos u) j" for j
      using law e by (simp_all add: v_def same_infos_def)
    have "impl_table u i = None" using law by simp
    then have "impl_table v j = impl_table u j" for j
      using f l by (cases "j = i") (simp_all add: impl_table_def)
    moreover have "impl_ok v"
    proof -
      have "providers_ok v" using law by (simp add: impl_ok_def providers_ok_def v_def)
      moreover have "infos_ok u" using law by (simp add: impl_ok_def)
      ultimately show ?thesis using l pv unfolding impl_ok_def infos_ok_def by auto
    qed
    ultimately show ?thesis using law Inr by (simp add: t fun_eq_iff)
  qed
qed

interpretation impl_handles: handle_table impl_ok impl_table "impl_add E qos" "impl_Unsubscribe E" "\<lambda>d. fst (snd (snd d))"
  for E qos
proof
  show "impl_ok t \<and> h \<noteq> 0 \<and> impl_table s h = None \<and> impl_table t = (impl_table s)(h \<mapsto> d)"
    if "impl_ok s" "impl_add E qos d s = (Inr h, t)" for s d h t
    using impl_add_law [OF that] by simp
  show "impl_ok t \<and> impl_table t = impl_table s" if "impl_ok s" "impl_add E qos d s = (Inl e, t)" for s d e t
    using impl_add_law [OF that] by simp
  show "impl_ok t \<and> impl_table t = (impl_table s)(h := None) \<and> (\<forall>x. r = Inr x \<longrightarrow> x = fst (snd (snd d)))"
    if "impl_ok s" "impl_table s h = Some d" "impl_Unsubscribe E h s = (r, t)" for s h d r t
    using impl_Unsubscribe_law [OF that(1,3)] that(2) by simp
  show "impl_ok t \<and> impl_table t = impl_table s"
    if "impl_ok s" "h \<noteq> 0" "impl_table s h = None" "impl_Unsubscribe E h s = (r, t)" for s h r t
    using impl_Unsubscribe_law [OF that(1,4)] that(3) by (auto simp: fun_upd_idem)
qed

section \<open>The constructed object\<close>

lemma mq_idle_ctor: "MosquittoMQ_ctor E i c MosquittoMQ_init = (Inr u, q) \<Longrightarrow> mq_idle q \<and> subscribers q = []"
  by (auto simp: MosquittoMQ_ctor_def MosquittoMQ_fail_def MosquittoMQ_init_def mq_idle_def mq_ok_defs act_simps split: if_splits)

text \<open>A freshly constructed object, with the TCP transport loaded and no custom broker.\<close>

lemma Impl_ctor_ok:
  assumes "Impl_ctor E ident ip option = Inr s" and "loads (ie_mm E)" and "\<not> opt_use_custom_broker option"
  shows "impl_ok s \<and> impl_table s = Map.empty"
proof -
  have l: "[0..<2] = [0, 1::nat]" "[0..1::int] = [0, 1]" by (simp_all add: upt_rec upto.simps)
  have "\<exists>a b. transports (im_modules s) = [Some a, Some b] \<and> tcp_ok a \<and> tcp_ok b" "mq_idle (im_mq s)"
    "subscribed_list s = []" "im_next_info s = 1"
    using assms l mq_idle_ctor
    by (auto simp: Impl_ctor_def Impl_mqs_def ModuleManager_ctor_def LoadTransport_def OpenTransport_def OpenModule_def
        GetTransportFileName_def AITT_TRANSPORT_NEW_def TCPModule_ctor_run loads_def act_simps Let_def tcp_ok_def tables_ok_def
        split: prod.splits sum.splits)
  then show ?thesis by (simp add: impl_ok_def providers_ok_def infos_ok_def impl_table_def fun_eq_iff)
qed

section \<open>Properties\<close>

text \<open>C23. For all three protocols, unsubscribing what \<open>Subscribe\<close> returned gives the user data of
  the subscription back and leaves exactly the other subscriptions, each with its topic, callback and
  user data; in between the new subscription is there and the others are unchanged.\<close>

theorem AITT_Subscribe_Unsubscribe:
  assumes "impl_ok s" and "impl_Subscribe E topic cb user_data protocol qos s = (Inr i, t)"
    and "impl_Unsubscribe E i t = (r, u)"
  shows "impl_ok u \<and> impl_table t = (impl_table s)(i \<mapsto> (topic, cb, user_data, protocol)) \<and> impl_table u = impl_table s \<and>
    (\<forall>x. r = Inr x \<longrightarrow> x = user_data)"
proof -
  have a: "impl_add E qos (topic, cb, user_data, protocol) s = (Inr i, t)" using assms(2) by (simp add: impl_add_def)
  from impl_handles.add_law [OF assms(1) a] impl_handles.add_del [OF assms(1) a assms(3)] show ?thesis by simp
qed

definition sample_impl_env :: impl_env where
  "sample_impl_env =
     \<lparr>ie_mq = plain_env (\<lambda>_ _ _. []), ie_tcp = sample_tcp_env,
      ie_mm = \<lparr>dl_open = \<lambda>_ _. True, dl_sym = \<lambda>_. True, stream_new = \<lambda>_ _ _. Inr True\<rparr>,
      ie_custom = \<lambda>_ _. None, ie_timer_ok = True\<rparr>"

definition sample_impl :: Impl where
  "sample_impl =
     \<lparr>im_discovery = sample_discovery, im_idle = [],
      im_modules = \<lparr>mm_ip = ''1.2.3.4'', transport_handles = [True, True],
        transports = [Some sample_module, Some sample_module],
        streams_in_use = [], stream_handles = [False, False], custom_mqtt_handle = False, mm_next_stream = 1, mm_deleted = [], mm_opened = []\<rparr>,
      im_mdh = \<lparr>mdh_id = ''me'', mdh_discovery_cb = 1, my_subscribe_table = [], remote_subscribe_table = []\<rparr>,
      im_mq = MosquittoMQ_init, im_connection_cb = None, subscribed_list = [], im_infos = [], im_closures = [], im_next_info = 1,
      im_id = ''me'', mqtt_broker_ip = [], mqtt_broker_port = 0, reply_id = 0, im_syncs = [], im_next_sync = 1, im_events = []\<rparr>"

lemma sample_impl_ok: "impl_ok sample_impl"
  by (simp add: impl_ok_def providers_ok_def infos_ok_def sample_impl_def sample_module_def tcp_ok_def tables_ok_def
      mq_idle_def mq_ok_defs MosquittoMQ_init_def)

lemmas sample_impl_defs = sample_impl_env_def sample_impl_def sample_tcp_env_def sample_discovery_def AittDiscovery_new_def
  plain_env_def MosquittoMQ_init_def

theorem AITT_Subscribe_Unsubscribe_witness:
  "\<exists>t r u. impl_Subscribe sample_impl_env ''t'' (UserCb 7) 42 AITT_TYPE_MQTT 0 sample_impl = (Inr 1, t) \<and>
     impl_Unsubscribe sample_impl_env 1 t = (r, u) \<and> impl_table t 1 = Some (''t'', UserCb 7, 42, AITT_TYPE_MQTT) \<and>
     impl_table u = impl_table sample_impl"
proof -
  obtain t where t: "impl_Subscribe sample_impl_env ''t'' (UserCb 7) 42 AITT_TYPE_MQTT 0 sample_impl = (Inr 1, t)"
    by (simp add: impl_Subscribe_def new_info_def SubscribeMQ_def add_closure_def push_info_def mq_Subscribe_def mdh_Subscribe_def
        mdh_UpdateDiscoveryMsg_def UpdateDiscoveryMsg_def PublishDiscoveryMsg_def mq_Publish_def act_simps Let_def sample_impl_defs)
  obtain r u where u: "impl_Unsubscribe sample_impl_env 1 t = (r, u)" by fastforce
  from AITT_Subscribe_Unsubscribe [OF sample_impl_ok t u] t u show ?thesis
    by (intro exI [of _ t] exI [of _ r] exI [of _ u]) simp
qed

end
