(* ===== verification/AITT_Delivery.thy ===== *)
theory AITT_Delivery
  imports AITT_Props
begin

text \<open>
  How messages and replies travel through the public class: from the client over the idle queue to
  the application, the numbering of replies, the end of a request's subscription, and the ways a
  synchronous request ends.
\<close>

section \<open>From the broker to the application\<close>

lemma queueing_simps [simp]:
  "wants (queueing E) = wants E" "read_msg (queueing E) topic props = read_msg E topic props" "self_only (queueing E)"
  "leaves (queueing E) topic m sub = False"
  by (auto simp: queueing_def wants_def CompareTopic_def read_msg_def self_only_def leaves_def fun_eq_iff
      Let_def split: option.split)

definition main_closure :: "Impl \<Rightarrow> SubscribeData \<Rightarrow> bool" where
  "main_closure s sd \<longleftrightarrow> (case map_of (im_closures s) (sd_cb sd) of None \<Rightarrow> False | Some c \<Rightarrow> cl_loop c = None)"

definition task_of :: "Impl \<Rightarrow> AittMsg \<Rightarrow> byte list \<Rightarrow> ptr \<times> SubscribeData \<Rightarrow> idle_task" where
  "task_of s m payload sub =
     Detached (cl_cb (the (map_of (im_closures s) (sd_cb (snd sub))))) (SetID (sd_cb (snd sub)) m) payload (sd_user_data (snd sub))"

lemma task_of_mq [simp]: "task_of (s\<lparr>im_mq := q\<rparr>) = task_of s" "main_closure (s\<lparr>im_mq := q\<rparr>) = main_closure s"
  by (simp_all add: task_of_def main_closure_def fun_eq_iff)

lemma run_deliveries:
  assumes "distinct (map fst subs)" and "\<forall>sub \<in> set xs. sub \<in> set subs \<and> main_closure s (snd sub)"
  shows "forA (map (delivery m payload) xs) (run_delivery (subs @ ns)) s = (Inr (), s\<lparr>im_idle := im_idle s @ map (task_of s m payload) xs\<rparr>)"
  using assms(2)
proof (induction xs arbitrary: s)
  case (Cons sub xs)
  obtain c where c: "map_of (im_closures s) (sd_cb (snd sub)) = Some c" "cl_loop c = None"
    using Cons.prems by (auto simp: main_closure_def split: option.splits)
  have "map_of (subs @ ns) (fst sub) = Some (snd sub)"
    using assms(1) Cons.prems by (simp add: map_add_Some_iff)
  then have "run_delivery (subs @ ns) (delivery m payload sub) s = (Inr (), s\<lparr>im_idle := im_idle s @ [task_of s m payload sub]\<rparr>)"
    using c by (simp add: run_delivery_def delivery_def mq_closure_def task_of_def Let_def)
  moreover have "\<forall>sub \<in> set xs. sub \<in> set subs \<and> main_closure (s\<lparr>im_idle := x\<rparr>) (snd sub)" for x
    using Cons.prems by (simp add: main_closure_def)
  ultimately show ?case using Cons.IH
    by (simp add: act_simps) (simp add: task_of_def)
qed (simp add: act_simps)

lemma mq_message_queues:
  assumes "mq_idle (im_mq s)" and "\<not> subscriber_iterator_updated (im_mq s)" and "read_msg (ie_mq E) topic props = Inr m"
    and "\<forall>sub \<in> set (subscribers (im_mq s)). wants (ie_mq E) topic sub \<longrightarrow> main_closure s (snd sub)"
  shows "\<exists>q. impl_mq_message E topic payload props s =
     (Inr (), s\<lparr>im_mq := q, im_idle := im_idle s @
        map (task_of s m payload) (filter (wants (ie_mq E) topic) (subscribers (im_mq s)))\<rparr>)"
proof -
  have ok: "mq_ok (im_mq s)" "distinct (map fst (subscribers (im_mq s)))"
    using assms(1) by (auto simp: mq_idle_def intro: mq_idle_distinct [OF assms(1)])
  obtain q ns where q: "MessageCB (queueing (ie_mq E)) topic payload props (im_mq s) = Some (Inr (), q)"
    "mq_events q = mq_events (im_mq s) @ map (delivery m payload) (filter (wants (ie_mq E) topic) (subscribers (im_mq s)))"
    "subscribers q = subscribers (im_mq s) @ ns"
    using MessageCB_self_only [OF ok(1) assms(2), of "queueing (ie_mq E)" topic props m payload] assms(3)
    by (auto simp: comp_def)
  have "forA (map (delivery m payload) (filter (wants (ie_mq E) topic) (subscribers (im_mq s)))) (run_delivery (subscribers (im_mq s) @ ns)) (s\<lparr>im_mq := q\<rparr>) =
    (Inr (), s\<lparr>im_mq := q, im_idle := im_idle s @ map (task_of s m payload) (filter (wants (ie_mq E) topic) (subscribers (im_mq s)))\<rparr>)"
    using run_deliveries [OF ok(2), of "filter (wants (ie_mq E) topic) (subscribers (im_mq s))" "s\<lparr>im_mq := q\<rparr>" m payload ns] assms(4)
    by auto
  with q show ?thesis by (intro exI [of _ q]) (simp add: impl_mq_message_def act_simps)
qed

text \<open>The main loop works the queue off.\<close>

definition app_call :: "idle_task \<Rightarrow> app_event option" where
  "app_call t = (case t of Detached (UserCb n) msg data ud \<Rightarrow> Some (AppMessage n msg data ud)
     | ConnectionTask n ud status \<Rightarrow> Some (AppConnection n ud status) | _ \<Rightarrow> None)"

lemma idle_app_call:
  assumes "im_idle s = t # ts" and "app_call t = Some e"
  shows "impl_idle E s = (Inr (), s\<lparr>im_events := im_events s @ [e], im_idle := ts\<rparr>)"
  using assms by (cases t) (auto simp: app_call_def impl_idle_def DetachedCB_def ConnectionCB_def app_event_def act_simps split: user_cb.splits)

lemma drain_app_calls:
  assumes "im_idle s = ts" and "\<forall>t \<in> set ts. app_call t \<noteq> None"
  shows "forA ts (\<lambda>_. impl_idle E) s = (Inr (), s\<lparr>im_events := im_events s @ map (the \<circ> app_call) ts, im_idle := []\<rparr>)"
  using assms
proof (induction ts arbitrary: s)
  case (Cons t ts)
  then obtain e where e: "app_call t = Some e" by auto
  show ?case using idle_app_call [OF Cons.prems(1) e] e Cons.prems(2) Cons.IH by (simp add: act_simps)
qed (simp add: act_simps)

lemma application_called:
  assumes "impl_ok s" and "\<not> subscriber_iterator_updated (im_mq s)" and "im_idle s = []"
    and "read_msg (ie_mq E) topic props = Inr m"
    and "\<forall>sub \<in> set (subscribers (im_mq s)). wants (ie_mq E) topic sub \<longrightarrow>
           map_of (im_closures s) (sd_cb (snd sub)) = Some \<lparr>cl_cb = UserCb (app sub), cl_protocol = AITT_TYPE_MQTT, cl_loop = None\<rparr>"
  shows "\<exists>t u. impl_mq_message E topic payload props s = (Inr (), t) \<and>
     forA (im_idle t) (\<lambda>_. impl_idle E) t = (Inr (), u) \<and> im_idle u = [] \<and>
     im_events u = im_events s @
       map (\<lambda>sub. AppMessage (app sub) (SetID (sd_cb (snd sub)) m) payload (sd_user_data (snd sub)))
         (filter (wants (ie_mq E) topic) (subscribers (im_mq s)))"
proof -
  let ?subs = "filter (wants (ie_mq E) topic) (subscribers (im_mq s))"
  have i: "mq_idle (im_mq s)" using assms(1) by (simp add: impl_ok_def providers_ok_def)
  have "\<forall>sub \<in> set (subscribers (im_mq s)). wants (ie_mq E) topic sub \<longrightarrow> main_closure s (snd sub)"
    using assms(5) by (simp add: main_closure_def)
  from mq_message_queues [OF i assms(2,4) this] obtain q where
    q: "impl_mq_message E topic payload props s = (Inr (), s\<lparr>im_mq := q, im_idle := map (task_of s m payload) ?subs\<rparr>)"
    using assms(3) by auto
  have c: "app_call (task_of s m payload sub) = Some (AppMessage (app sub) (SetID (sd_cb (snd sub)) m) payload (sd_user_data (snd sub)))"
    if "sub \<in> set ?subs" for sub
    using that assms(5) by (simp add: task_of_def app_call_def)
  have "map (the \<circ> app_call) (map (task_of s m payload) ?subs) =
      map (\<lambda>sub. AppMessage (app sub) (SetID (sd_cb (snd sub)) m) payload (sd_user_data (snd sub))) ?subs"
    using c by simp
  with q drain_app_calls [of "s\<lparr>im_mq := q, im_idle := map (task_of s m payload) ?subs\<rparr>" "map (task_of s m payload) ?subs" E] c
  show ?thesis by simp
qed

section \<open>Replies\<close>

text \<open>The sequence numbers of the replies to one message.\<close>

fun send_replies :: "impl_env \<Rightarrow> AittMsg \<Rightarrow> (byte list \<times> bool) list \<Rightarrow> (Impl, AittMsg list) act" where
  "send_replies E m [] = ret []"
| "send_replies E m ((data, e) # rs) =
     bnd (impl_SendReply E (Some m) data (int (length data)) e) (\<lambda>m'.
     case m' of None \<Rightarrow> ret [] | Some m1 \<Rightarrow> bnd (send_replies E m1 rs) (\<lambda>ms. ret (m1 # ms)))"

lemma SendReply_msg: "impl_SendReply E (Some m) data n e s = (Inr x, t) \<Longrightarrow> x = Some (reply_msg e m)"
  by (auto simp: impl_SendReply_def act_simps Let_def split: if_splits prod.splits sum.splits)

lemma GetSequence_Increase:
  assumes "GetSequence m < INT32_MAX"
  shows "GetSequence (IncreaseSequence m) = GetSequence m + 1"
proof -
  have "- (2 ^ 31) \<le> sint (msg_sequence m)" using sint_ge [of "msg_sequence m"] by simp
  with assms show ?thesis
    by (simp add: AittMsg_defs sint_word_ariths signed_take_bit_int_eq_self)
qed

lemma reply_msg_simps [simp]:
  "msg_end_sequence (reply_msg e m) = e" "GetSequence (SetEndSequence e m) = GetSequence m"
  by (simp_all add: reply_msg_def AittMsg_defs)

lemma GetSequence_reply_msg:
  assumes "GetSequence m < INT32_MAX"
  shows "GetSequence (reply_msg e m) = (if e \<and> GetSequence m = 0 then 0 else GetSequence m + 1)"
  using GetSequence_Increase [OF assms] by (auto simp: reply_msg_def)

lemma send_replies_msgs:
  assumes "send_replies E m (map (\<lambda>d. (d, False)) ds @ [(d, True)]) s = (Inr ms, t)"
    and "0 \<le> GetSequence m" and "GetSequence m + int (length ds) < INT32_MAX"
  shows "map GetSequence ms = map (\<lambda>i. GetSequence m + 1 + int i) [0 ..< length ds] @
       [if GetSequence m = 0 \<and> ds = [] then 0 else GetSequence m + 1 + int (length ds)] \<and>
     map msg_end_sequence ms = replicate (length ds) False @ [True]"
  using assms
proof (induction ds arbitrary: m s ms)
  case Nil
  then show ?case
    by (auto simp: act_simps GetSequence_reply_msg split: prod.splits sum.splits dest!: SendReply_msg)
next
  case (Cons x ds)
  let ?m = "reply_msg False m"
  obtain s1 ms1 where r: "send_replies E ?m (map (\<lambda>d. (d, False)) ds @ [(d, True)]) s1 = (Inr ms1, t)" "ms = ?m # ms1"
    using Cons.prems(1) by (auto simp: act_simps split: prod.splits sum.splits dest!: SendReply_msg)
  have g: "GetSequence ?m = GetSequence m + 1" using Cons.prems(2,3) by (simp add: GetSequence_reply_msg)
  have u: "[0..<Suc n] = 0 # map Suc [0..<n]" for n :: nat by (simp only: map_Suc_upt upt_conv_Cons)
  show ?case using Cons.IH [OF r(1)] Cons.prems(2,3) g r(2) by (simp add: u del: upt_Suc)
qed

lemma reply_numbers:
  assumes "send_replies E m (map (\<lambda>d. (d, False)) ds @ [(d, True)]) s = (Inr ms, t)"
    and "GetSequence m = 0" and "int (length ds) < INT32_MAX"
  shows "map GetSequence ms = (if ds = [] then [0] else map int [1 ..< length ds + 2]) \<and>
     map msg_end_sequence ms = replicate (length ds) False @ [True]"
proof -
  have "[1 ..< length ds + 2] = map Suc [0 ..< Suc (length ds)]" by (simp only: map_Suc_upt) simp
  then have "map (\<lambda>i. 1 + int i) [0 ..< length ds] @ [1 + int (length ds)] = map int [1 ..< length ds + 2]" by simp
  with send_replies_msgs [OF assms(1)] assms(2,3) show ?thesis by auto
qed

section \<open>The end of a request\<close>

lemma leave_provider_events:
  "im_events (snd (leave_provider E p h s)) = im_events s" "im_syncs (snd (leave_provider E p h s)) = im_syncs s"
  "reply_id (snd (leave_provider E p h s)) = reply_id s"
  by (auto simp: leave_provider_def act_simps split: prod.split sum.split)

lemma impl_Unsubscribe_events:
  "im_events (snd (impl_Unsubscribe E i s)) = im_events s" "im_syncs (snd (impl_Unsubscribe E i s)) = im_syncs s"
  using leave_provider_events [of E _ _ s]
  by (auto simp: impl_Unsubscribe_def delete_info_def act_simps split: option.split prod.split sum.split)
     (metis snd_conv)+

lemma try_Unsubscribe_law:
  assumes "impl_ok s" and "try_Unsubscribe E i s = (r, t)"
  shows "impl_ok t \<and> impl_table t = (impl_table s)(i := None) \<and> im_events t = im_events s \<and> im_syncs t = im_syncs s"
proof -
  obtain x u where x: "impl_Unsubscribe E i s = (x, u)" by fastforce
  then have "t = u" using assms(2) by (auto simp: try_Unsubscribe_def act_simps split: sum.splits exn.splits)
  with impl_Unsubscribe_law [OF assms(1) x] impl_Unsubscribe_events [of E i s] x show ?thesis by simp
qed

lemma impl_events_update [simp]:
  "impl_ok (u\<lparr>im_events := x\<rparr>) = impl_ok u" "impl_table (u\<lparr>im_events := x\<rparr>) = impl_table u"
proof -
  have "prov (u\<lparr>im_events := x\<rparr>) = prov u" by (simp add: prov_def tcp_of_def fun_eq_iff)
  then have "impl_entry (u\<lparr>im_events := x\<rparr>) = impl_entry u" by (rule impl_entry_cong) simp
  then show "impl_table (u\<lparr>im_events := x\<rparr>) = impl_table u" by (intro ext) (simp add: impl_table_def)
  show "impl_ok (u\<lparr>im_events := x\<rparr>) = impl_ok u"
    by (simp add: impl_ok_def providers_ok_def infos_ok_def prov_def nxt_def tcp_of_def)
qed

text \<open>The callback of a request is called with every reply; the one with the end mark also takes the
  reply topic's subscription away, and no reply touches any other subscription.\<close>

lemma last_reply_ends_request:
  assumes "impl_ok s" and "DetachedCB E (ReplyCb n) msg data user_data s = (Inr (), t)"
  shows "impl_ok t \<and> im_events t = im_events s @ [AppMessage n msg data user_data] \<and>
     impl_table t = (if msg_end_sequence msg then (impl_table s)(msg_id msg := None) else impl_table s)"
proof (cases "msg_end_sequence msg")
  case True
  obtain r u where u: "try_Unsubscribe E (msg_id msg) s = (r, u)" by fastforce
  with True assms(2) try_Unsubscribe_law [OF assms(1) u] show ?thesis
    by (auto simp: DetachedCB_def app_event_def act_simps split: sum.splits)
qed (use assms in \<open>auto simp: DetachedCB_def app_event_def act_simps\<close>)

section \<open>Reply topics\<close>

text \<open>The topics that successive requests take.\<close>

fun reply_topics :: "nat \<Rightarrow> string \<Rightarrow> (Impl, string list) act" where
  "reply_topics 0 topic = ret []"
| "reply_topics (Suc n) topic = bnd (next_reply_topic topic) (\<lambda>t. bnd (reply_topics n topic) (\<lambda>ts. ret (t # ts)))"

lemma reply_topics_run:
  "reply_topics n topic s =
     (Inr (map (\<lambda>i. reply_topic topic (reply_id s + of_nat i)) [0 ..< n]), s\<lparr>reply_id := reply_id s + of_nat n\<rparr>)"
proof (induction n arbitrary: s)
  case (Suc n)
  have "[0..<Suc n] = 0 # map Suc [0..<n]" by (simp only: map_Suc_upt upt_conv_Cons)
  with Suc show ?case
    by (simp add: act_simps next_reply_topic_def comp_def ac_simps del: upt_Suc)
qed (simp add: act_simps)

lemma reply_topic_inject: "reply_topic topic a = reply_topic topic b \<longleftrightarrow> a = b"
  by (simp add: reply_topic_def to_string_def nat_eq_iff2 word_unat_eq_iff)

lemma of_nat_word_inject: "i < 65536 \<Longrightarrow> j < 65536 \<Longrightarrow> (of_nat i :: 16 word) = of_nat j \<longleftrightarrow> i = j"
  by (simp add: word_of_nat_eq_iff take_bit_nat_eq_self)

text \<open>C25. The reply topics of an object's requests on one topic are different from each other as long as
  there are at most 65536 of them, and not any longer: the counter is an \<open>unsigned short\<close>.\<close>

theorem reply_topics_distinct:
  "\<exists>ts t. reply_topics n topic s = (Inr ts, t) \<and> length ts = n \<and> (distinct ts \<longleftrightarrow> n \<le> 65536)"
proof -
  let ?f = "\<lambda>i. reply_topic topic (reply_id s + of_nat i)"
  have "inj_on ?f {0 ..< n} \<longleftrightarrow> n \<le> 65536"
  proof
    show "inj_on ?f {0 ..< n}" if "n \<le> 65536"
      using that of_nat_word_inject by (auto simp: inj_on_def reply_topic_inject)
    show "n \<le> 65536" if i: "inj_on ?f {0 ..< n}"
    proof (rule ccontr)
      assume "\<not> n \<le> 65536"
      moreover have "?f 65536 = ?f 0" by (simp add: reply_topic_inject)
      ultimately show False using inj_onD [OF i, of 65536 0] by simp
    qed
  qed
  then show ?thesis by (simp add: reply_topics_run distinct_map)
qed

section \<open>Synchronous requests\<close>

definition loop_at :: "(sync_loop \<Rightarrow> bool) \<Rightarrow> nat \<Rightarrow> Impl \<Rightarrow> bool" where
  "loop_at P k s \<longleftrightarrow> (\<exists>l. map_of (im_syncs s) k = Some l \<and> P l)"

text \<open>A loop that will hear of the timeout, or has ended.\<close>

definition guarded :: "impl_env \<Rightarrow> sync_loop \<Rightarrow> bool" where
  "guarded E l \<longleftrightarrow> sl_quit l \<or> sl_armed l \<and> 0 < sl_timeout_ms l \<and> ie_timer_ok E"

lemma preserves_sync_upd:
  assumes "\<And>l. P l \<Longrightarrow> P (f l)"
  shows "preserves (loop_at P k) (sync_upd j f)"
  by (rule preservesI) (auto simp: loop_at_def sync_upd_def assms split: option.split)

lemma preserves_syncs: "(\<And>s. im_syncs (snd (m s)) = im_syncs s) \<Longrightarrow> preserves (loop_at P k) m"
  by (auto simp: preserves_def loop_at_def)

lemma preserves_app_event: "preserves (loop_at P k) (app_event e)"
  by (rule preserves_syncs) (simp add: app_event_def act_simps)

lemma preserves_try_Unsubscribe: "preserves (loop_at P k) (try_Unsubscribe E i)"
proof (rule preserves_syncs)
  fix s show "im_syncs (snd (try_Unsubscribe E i s)) = im_syncs s"
    using impl_Unsubscribe_events(2) [of E i s]
    by (cases "impl_Unsubscribe E i s") (auto simp: try_Unsubscribe_def act_simps split: sum.split exn.split)
qed

lemma guarded_user_cb: "preserves (loop_at (guarded E) k) (run_user_cb E cb msg data ud)"
  by (cases cb) (auto simp: guarded_def HandleTimeout_def
      intro!: preserves_intros preserves_app_event preserves_try_Unsubscribe preserves_sync_upd)

lemma guarded_task: "preserves (loop_at (guarded E) k) (run_task E t)"
  by (cases t) (auto simp: DetachedCB_def ConnectionCB_def intro!: guarded_user_cb preserves_app_event)

lemma guarded_message: "preserves (loop_at (guarded E) k) (impl_mq_message E topic payload props)"
proof (rule preservesI)
  fix s assume g: "loop_at (guarded E) k s"
  obtain r q where q: "MessageCB (queueing (ie_mq E)) topic payload props (im_mq s) = Some (r, q)"
    using MessageCB_total by blast
  have "preserves (loop_at (guarded E) k) (mq_closure i m d u)" for i m d u
  proof (rule preservesI)
    fix s assume g: "loop_at (guarded E) k s"
    have "preserves (loop_at (guarded E) k) (sync_upd j (\<lambda>l. l\<lparr>sl_idle := sl_idle l @ [t]\<rparr>))" for j t
      by (rule preserves_sync_upd) (simp add: guarded_def)
    with g show "loop_at (guarded E) k (snd (mq_closure i m d u s))"
      by (auto simp: mq_closure_def Let_def loop_at_def preserves_def split: option.split)
  qed
  then have "preserves (loop_at (guarded E) k) (run_delivery subs e)" for subs e
    by (auto simp: run_delivery_def preserves_ret split: mq_event.split option.split)
  moreover have "preserves (loop_at (guarded E) k) (Pair r)" by (simp add: preserves_def)
  ultimately have "preserves (loop_at (guarded E) k) (sq (forA es (run_delivery subs)) (Pair r))" for es subs
    by (intro preserves_intros)
  from preservesD [OF this, of "s\<lparr>im_mq := q\<rparr>"] g
  show "loop_at (guarded E) k (snd (impl_mq_message E topic payload props s))"
    by (simp add: impl_mq_message_def q loop_at_def)
qed

lemma guarded_step: "preserves (loop_at (guarded E) k) (sync_step E k ev)"
proof (cases ev)
  case SyncIdle
  have "preserves (loop_at (guarded E) k) (sq (run_task E t) (sync_upd k (\<lambda>l. l\<lparr>sl_idle := tl (sl_idle l)\<rparr>)))" for t
    by (intro preserves_intros guarded_task preserves_sync_upd) (simp add: guarded_def)
  then show ?thesis
    by (auto simp: SyncIdle sync_idle_def preserves_def loop_at_def split: option.split list.split)
next
  case SyncTimer
  then show ?thesis by (simp add: sync_timer_def) (rule preserves_sync_upd, auto simp: guarded_def)
qed (simp add: guarded_message)

lemma sync_wait_guarded:
  assumes "loop_at (guarded E) k s" and "SyncTimer \<in> set evs"
  shows "fst (sync_wait E k evs s) \<noteq> Inr None"
  using assms
proof (induction evs arbitrary: s)
  case (Cons ev evs)
  obtain l where l: "map_of (im_syncs s) k = Some l" "guarded E l" using Cons.prems(1) by (auto simp: loop_at_def)
  obtain r t where t: "sync_step E k ev s = (r, t)" by fastforce
  have g: "loop_at (guarded E) k t" using preservesD [OF guarded_step Cons.prems(1), of ev] t by simp
  have quit: "fst (sync_wait E k es u) \<noteq> Inr None" if "loop_at sl_quit k u" for es u
    using that by (subst sync_wait.simps) (auto simp: loop_at_def)
  have "fst (sync_wait E k evs t) \<noteq> Inr None" if "\<not> sl_quit l"
  proof (cases ev)
    case SyncTimer
    with t l that have "loop_at sl_quit k t" by (auto simp: sync_timer_def sync_upd_def guarded_def loop_at_def)
    then show ?thesis by (rule quit)
  qed (use Cons g in auto)
  then show ?case using l t by (subst sync_wait.simps) (auto simp: act_simps split: sum.split)
qed simp

lemma sync_wait_result:
  "sync_wait E k evs s = (Inr (Some rc), t) \<Longrightarrow> rc \<in> {0, error_code AITT_ERROR_TIMED_OUT} \<and> map_of (im_syncs t) k = None"
proof (induction evs arbitrary: s)
  case Nil
  then show ?case by (subst (asm) sync_wait.simps) (auto split: option.splits if_splits)
next
  case (Cons ev evs)
  then show ?case by (subst (asm) sync_wait.simps) (auto simp: act_simps split: option.splits if_splits prod.splits sum.splits)
qed

lemma SubscribeMQ_syncs: "SubscribeMQ E i l topic cb ud qos s = (r, t) \<Longrightarrow> im_syncs t = im_syncs s"
  by (auto simp: SubscribeMQ_def add_closure_def act_simps split: prod.splits sum.splits)

lemma sync_start_guarded:
  assumes "sync_start E topic data qos cb ud corr timeout_ms s = (Inr k, t)" and "0 < timeout_ms" and "ie_timer_ok E"
  shows "loop_at (guarded E) k t"
  using assms
  by (auto simp: sync_start_def next_reply_topic_def new_sync_loop_def new_info_def push_info_def sync_upd_def HandleTimeout_def
      guarded_def loop_at_def act_simps split: prod.splits sum.splits option.splits dest!: SubscribeMQ_syncs)

text \<open>C26. A synchronous request with a positive timeout ends: when the timer fires, whatever messages came
  and whatever callbacks ran before, the call does not wait any longer.  It returns 0 or
  \<open>AITT_ERROR_TIMED_OUT\<close> (or throws), and its loop is gone.\<close>

theorem sync_request_ends:
  assumes "0 < timeout_ms" and "ie_timer_ok E" and "SyncTimer \<in> set evs"
  shows "case impl_PublishWithReplySync E topic data AITT_TYPE_MQTT qos retain cb user_data correlation timeout_ms evs s of
     (Inl e, t) \<Rightarrow> True
   | (Inr None, t) \<Rightarrow> False
   | (Inr (Some rc), t) \<Rightarrow> rc \<in> {0, error_code AITT_ERROR_TIMED_OUT}"
proof (cases "sync_start E topic data qos cb user_data correlation timeout_ms s")
  case (Pair r s1)
  show ?thesis
  proof (cases r)
    case (Inr k)
    with Pair have g: "loop_at (guarded E) k s1" using sync_start_guarded assms(1,2) by metis
    obtain x t where x: "sync_wait E k evs s1 = (x, t)" by fastforce
    with Pair Inr sync_wait_guarded [OF g assms(3)] sync_wait_result [of E k evs s1 _ t] show ?thesis
      by (auto simp: impl_PublishWithReplySync_def act_simps split: sum.split option.split)
  qed (simp add: Pair impl_PublishWithReplySync_def act_simps)
qed

theorem sync_request_ends_witness:
  "\<exists>t. impl_PublishWithReplySync sample_impl_env ''q'' [1] AITT_TYPE_MQTT 0 False 7 42 ''c'' 100 [SyncTimer] sample_impl =
     (Inr (Some (error_code AITT_ERROR_TIMED_OUT)), t)"
proof -
  let ?r = "impl_PublishWithReplySync sample_impl_env ''q'' [1] AITT_TYPE_MQTT 0 False 7 42 ''c'' 100 [SyncTimer] sample_impl"
  have "\<exists>rc t. ?r = (Inr (Some rc), t) \<and> rc \<noteq> 0"
    by (simp add: impl_PublishWithReplySync_def sync_start_def next_reply_topic_def new_sync_loop_def new_info_def SubscribeMQ_def add_closure_def
        push_info_def mq_Subscribe_def mdh_Subscribe_def mdh_UpdateDiscoveryMsg_def UpdateDiscoveryMsg_def PublishDiscoveryMsg_def mq_Publish_def
        mq_PublishWithReply_def sync_upd_def HandleTimeout_def sync_wait.simps sync_timer_def act_simps Let_def sample_impl_defs)
  moreover have "ie_timer_ok sample_impl_env" by (simp add: sample_impl_env_def)
  ultimately show ?thesis
    using sync_request_ends [of 100 sample_impl_env "[SyncTimer]" "''q''" "[1]" 0 False 7 42 "''c''" sample_impl] by auto
qed

text \<open>
  A request that timed out leaves its subscription behind, and the closure of that subscription holds
  the pointer to the loop the request has deleted: a reply that comes late uses it.
\<close>

lemma late_reply_uses_deleted_loop:
  "\<exists>t u. impl_PublishWithReplySync sample_impl_env ''q'' [1] AITT_TYPE_MQTT 0 False 7 42 ''c'' 100 [SyncTimer] sample_impl =
       (Inr (Some (error_code AITT_ERROR_TIMED_OUT)), t) \<and>
     impl_mq_message sample_impl_env (reply_topic ''q'' 0) [2] None t =
       (Inl (UndefinedBehaviour ''loop used after delete''), u)"
  by (simp add: impl_PublishWithReplySync_def sync_start_def next_reply_topic_def new_sync_loop_def new_info_def SubscribeMQ_def add_closure_def
        push_info_def mq_Subscribe_def mdh_Subscribe_def mdh_UpdateDiscoveryMsg_def UpdateDiscoveryMsg_def PublishDiscoveryMsg_def mq_Publish_def
        mq_PublishWithReply_def sync_upd_def HandleTimeout_def sync_wait.simps sync_timer_def act_simps Let_def sample_impl_defs
        impl_mq_message_def queueing_def MessageCB_def message_loop.simps deliver_one_def CompareTopic_def InvokeCallback_def
        read_msg_def run_delivery_def mq_closure_def)

section \<open>Leaving everything\<close>

definition leave_info :: "impl_env \<Rightarrow> ptr \<Rightarrow> (Impl, unit) act" where
  "leave_info E info =
     (\<lambda>s. case map_of (im_infos s) info of
        None \<Rightarrow> (Inl (UndefinedBehaviour ''info used after delete''), s)
      | Some (protocol, handle) \<Rightarrow> sq (leave_provider E protocol handle) (delete_info info) s)"

lemma UnsubscribeAll_alt:
  "UnsubscribeAll E s = sq (forA (subscribed_list s) (leave_info E)) (upd (\<lambda>s. s\<lparr>subscribed_list := []\<rparr>)) s"
  by (simp add: UnsubscribeAll_def leave_info_def [abs_def])

lemma prov_infos_update [simp]: "prov (s\<lparr>im_infos := x\<rparr>) = prov s" "providers_ok (s\<lparr>im_infos := x\<rparr>) = providers_ok s"
  by (simp_all add: prov_def providers_ok_def tcp_of_def fun_eq_iff)

lemma leave_all:
  assumes "providers_ok s" and "distinct xs" and "\<forall>i \<in> set xs. \<exists>p h. map_of (im_infos s) i = Some (p, h) \<and> h \<noteq> 0"
    and "forA xs (leave_info E) s = (Inr u, t)"
  shows "providers_ok t \<and> (\<forall>i \<in> set xs. \<forall>p h. map_of (im_infos s) i = Some (p, h) \<longrightarrow> prov t p h = None) \<and>
     (\<forall>q g. prov s q g = None \<longrightarrow> prov t q g = None)"
  using assms
proof (induction xs arbitrary: s)
  case (Cons i xs)
  obtain p h where h: "map_of (im_infos s) i = Some (p, h)" "h \<noteq> 0" using Cons.prems(3) by auto
  obtain r s1 where r: "leave_provider E p h s = (r, s1)" by fastforce
  note law = leave_provider_law [OF Cons.prems(1) r]
  define s2 where "s2 = s1\<lparr>im_infos := omap_del i (im_infos s1)\<rparr>"
  have run: "forA xs (leave_info E) s2 = (Inr u, t)"
    using Cons.prems(4) h r by (auto simp: leave_info_def [of E i] delete_info_def act_simps s2_def split: sum.splits)
  have inf: "map_of (im_infos s2) j = map_of (im_infos s) j" if "j \<in> set xs" for j
    using that Cons.prems(2) law by (auto simp: s2_def same_infos_def)
  have p2: "prov s2 = prov s1" "providers_ok s2" using law by (simp_all add: s2_def)
  have gone: "prov s1 p h = None" "\<forall>q g. prov s q g = None \<longrightarrow> prov s1 q g = None"
    using law h(2) by (auto split: option.splits) (metis fun_upd_apply)+
  have "\<forall>j \<in> set xs. \<exists>p h. map_of (im_infos s2) j = Some (p, h) \<and> h \<noteq> 0" using Cons.prems(3) inf by simp
  from Cons.IH [OF p2(2) _ this run] Cons.prems(2) gone p2(1) h(1) inf show ?case by auto
qed (simp add: act_simps)

lemma disc_Stop_stops: "disc_Stop E d = (Inr u, d') \<Longrightarrow> \<not> disc_is_running d' \<and> disc_callback_handle d' = nullptr"
  by (auto simp: disc_Stop_def act_simps split: option.splits prod.splits sum.splits)



text \<open>
  When leaving one subscription throws, the infos of the ones before it are deleted but still listed:
  the next \<open>Disconnect\<close>, or the destructor, reads them.
\<close>

definition stubborn_env :: impl_env where
  "stubborn_env = sample_impl_env\<lparr>ie_mq := (plain_env (\<lambda>_ _ _. []))\<lparr>env_rc := \<lambda>_ c. if c = M_unsubscribe ''u'' then 1 else 0\<rparr>\<rparr>"

lemma interrupted_disconnect_reads_deleted_info:
  "\<exists>s t u. impl_Subscribe stubborn_env ''t'' (UserCb 7) 42 AITT_TYPE_MQTT 0 sample_impl = (Inr 1, s) \<and>
     impl_Subscribe stubborn_env ''u'' (UserCb 8) 43 AITT_TYPE_MQTT 0 s = (Inr 2, t) \<and>
     UnsubscribeAll stubborn_env t = (Inl (AittException MQTT_ERR), u) \<and>
     fst (UnsubscribeAll stubborn_env u) = Inl (UndefinedBehaviour ''info used after delete'')"
  by (simp add: impl_Subscribe_def new_info_def SubscribeMQ_def add_closure_def push_info_def mq_Subscribe_def mdh_Subscribe_def
        mdh_UpdateDiscoveryMsg_def UpdateDiscoveryMsg_def PublishDiscoveryMsg_def mq_Publish_def act_simps Let_def sample_impl_defs
        stubborn_env_def UnsubscribeAll_def leave_provider_def delete_info_def mq_Unsubscribe_def mdh_Unsubscribe_def omap_del_def erase_at_def)

section \<open>Publishing\<close>

text \<open>What publishing over TCP leaves alone.\<close>

definition tcp_subs :: "TCPModule \<Rightarrow> (ptr, TCPServerData \<times> TCPServer) omap \<times> (ptr, ptr) omap \<times> ptr" where
  "tcp_subs m = (subscribeTable m, subscribe_handles m, tm_next_ptr m)"

lemma tcp_subs_update [simp]:
  "tcp_subs (m\<lparr>tm_sent := x\<rparr>) = tcp_subs m" "tcp_subs (m\<lparr>publishTable := y\<rparr>) = tcp_subs m" "tcp_subs (m\<lparr>tm_trace := z\<rparr>) = tcp_subs m"
  by (simp_all add: tcp_subs_def)

lemma tcp_subs_eq: "tcp_subs m = tcp_subs n \<Longrightarrow> tcp_ok m = tcp_ok n \<and> tcp_entry m = tcp_entry n \<and> tm_next_ptr m = tm_next_ptr n"
  by (simp add: tcp_subs_def tcp_ok_def tcp_entry_def)

lemma publish_to_subs: "preserves (\<lambda>m. tcp_subs m = x) (publish_to E msg data is_reply topic c)"
proof -
  have "preserves (\<lambda>m. tcp_subs m = x) (tcp_SendSizedData E tcp d)" for tcp d
    by (rule preservesI) (simp add: tcp_SendSizedData_def)
  moreover have "preserves (\<lambda>m. tcp_subs m = x) (ensure_client E topic c)"
    by (rule preservesI) (auto simp: ensure_client_def act_simps split: option.split prod.split sum.split)
  ultimately show ?thesis unfolding publish_to_def by (intro preserves_intros)
qed

lemma tcp_Publish_subs: "preserves (\<lambda>w. tcp_subs (fst w) = x) (tcp_Publish E topic data n)"
proof (rule preservesI)
  fix w :: tcp_world assume w: "tcp_subs (fst w) = x"
  have d: "preserves (\<lambda>w. tcp_subs (fst w) = x) (on_disc m)" for m :: "(AittDiscovery, bool) act"
    by (rule preservesI) (simp add: act_simps split: prod.split)
  have "preserves (\<lambda>w. tcp_subs (fst w) = x) (forA xs (\<lambda>(topic, hosts).
      bnd (on_disc (disc_CompareTopic (te_mq E) topic t))
               (\<lambda>b. whenA b (forA (map fst hosts) (\<lambda>clientId. on_mod (publish_to E msg dat is_reply topic clientId))))))"
    for xs :: "(string \<times> (string, ConnectInfo \<times> TCP option) omap) list" and t msg dat is_reply
    by (intro preserves_intros d preserves_on_mod publish_to_subs) (auto intro!: preserves_intros d preserves_on_mod publish_to_subs)
  from preservesD [OF this w] w show "tcp_subs (fst (snd (tcp_Publish E topic data n w))) = x"
    by (simp add: tcp_Publish_def tcp_PublishFull_def act_simps)
qed

definition same_subscriptions :: "Impl \<Rightarrow> Impl \<Rightarrow> bool" where
  "same_subscriptions s t \<longleftrightarrow> providers_ok t \<and> same_infos s t \<and> im_closures t = im_closures s \<and> prov t = prov s \<and> nxt t = nxt s"

lemma same_subscriptions_refl: "providers_ok s \<Longrightarrow> same_subscriptions s s"
  by (simp add: same_subscriptions_def same_infos_def)

lemma same_subscriptions_trans: "same_subscriptions s t \<Longrightarrow> same_subscriptions t u \<Longrightarrow> same_subscriptions s u"
  by (simp add: same_subscriptions_def same_infos_def)

lemma same_subscriptions_ok:
  assumes "impl_ok s" and "same_subscriptions s t"
  shows "impl_ok t \<and> impl_table t = impl_table s"
proof -
  have e: "impl_entry t = impl_entry s" using assms(2) by (intro impl_entry_cong) (simp_all add: same_subscriptions_def)
  have "impl_table t = impl_table s"
    using assms(2) by (intro ext) (simp add: impl_table_def e same_subscriptions_def same_infos_def)
  moreover have "impl_ok t" using assms by (simp add: impl_ok_def infos_ok_def same_subscriptions_def same_infos_def)
  ultimately show ?thesis by simp
qed

lemma mq_idle_calls [simp]: "mq_idle (q\<lparr>mq_calls := x\<rparr>) = mq_idle q"
  by (simp add: mq_idle_def mq_ok_defs)

lemma publish_mq:
  assumes "providers_ok s" and "im_on_mq (mq_Publish E topic data qos retain) s = (r, t)"
  shows "same_subscriptions s t \<and> im_modules t = im_modules s \<and> mq_calls (im_mq t) = mq_calls (im_mq s) @ [M_publish topic data qos retain]"
  using assms
  by (auto simp: mq_Publish_def act_simps same_subscriptions_def same_infos_def providers_ok_def prov_def mq_table_def
      nxt_def tcp_of_def fun_eq_iff split: if_splits)

lemma publish_tcp:
  assumes "providers_ok s" and p: "p = AITT_TYPE_TCP \<or> p = AITT_TYPE_TCP_SECURE"
    and "im_on_mm (on_Get p (tcp_Publish E topic data n) g) s = (r, t)"
  shows "same_subscriptions s t \<and> im_mq t = im_mq s \<and> (p \<noteq> AITT_TYPE_TCP \<longrightarrow> tcp_of t 0 = tcp_of s 0) \<and> (p \<noteq> AITT_TYPE_TCP_SECURE \<longrightarrow> tcp_of t 1 = tcp_of s 1)"
proof -
  obtain a b where ab: "transports (im_modules s) = [Some a, Some b]" "tcp_ok a" "tcp_ok b"
    using assms(1) by (auto simp: providers_ok_def)
  define m where "m = (if p = AITT_TYPE_TCP then a else b)"
  obtain x m1 d1 where x: "tcp_Publish E topic data n (m, im_discovery s) = (x, (m1, d1))" by (metis surj_pair)
  have "tcp_subs m1 = tcp_subs m" using preservesD [OF tcp_Publish_subs, of "(m, im_discovery s)" "tcp_subs m" E topic data n] x by simp
  note eq = tcp_subs_eq [OF this]
  have "t = s\<lparr>im_modules := (im_modules s)\<lparr>transports := if p = AITT_TYPE_TCP then [Some m1, Some b] else [Some a, Some m1]\<rparr>, im_discovery := d1\<rparr>"
    using assms(3) on_Get_run [OF ab(1) p, of "tcp_Publish E topic data n", OF x [unfolded m_def], of g] by simp
  with ab p eq assms(1) show ?thesis
    by (auto simp: m_def same_subscriptions_def same_infos_def providers_ok_def prov_def nxt_def tcp_of_def fun_eq_iff split: if_splits)
qed



end
