(* ===== verification/AittC_Model.thy ===== *)
theory AittC_Model
  imports AITT_Delivery
begin

text \<open>
  The C interface of the library: \<open>src/aitt_c.cc\<close> with the declarations of
  \<open>include/aitt_c.h\<close>.

  A handle is a pointer into the heap of the process: the state holds the live \<open>aitt_handle\<close> and
  \<open>aitt_option\<close> objects by their address, the memory of the application that \<open>const char *\<close>
  arguments point into, and the closures given to \<open>SetConnectionCallback\<close>.  An argument that is
  only read during the call is its contents, \<open>None\<close> for a null pointer.  Using an address
  that holds no object is undefined behaviour.  \<open>catch (std::exception &e)\<close> is \<open>tryA\<close>: it catches
  every exception of the model and does not catch undefined behaviour.
\<close>

section \<open>State\<close>

record aitt_handle =
  h_aitt :: "AITT option"
  h_connected :: bool
  h_custom_broker :: bool

record aitt_option =
  o_my_ip :: ptr
  o_option :: AittOption

record connect_closure =
  cc_handle :: ptr
  cc_cb :: nat
  cc_user_data :: ptr

record c_heap =
  ch_strings :: "(ptr, string) omap"
  ch_handles :: "(ptr, aitt_handle) omap"
  ch_options :: "(ptr, aitt_option) omap"
  ch_closures :: "(nat, connect_closure) omap"
  ch_next :: ptr
  ch_next_closure :: nat

text \<open>
  What the calls take from outside: the environment of the C++ class, the random draws of its
  identifier, and whether \<open>inet_pton(AF_INET, ...)\<close> accepts a string.
\<close>

record c_env =
  ce_impl :: impl_env
  ce_gen :: "nat \<Rightarrow> nat"
  ce_inet_pton :: "string \<Rightarrow> bool"

abbreviation code :: "AittError \<Rightarrow> ('s, int) act" where
  "code e \<equiv> ret (error_code e)"

text \<open>\<open>RETV_IF(expr, val)\<close>.\<close>

definition RETV_IF :: "bool \<Rightarrow> AittError \<Rightarrow> ('s, int) act \<Rightarrow> ('s, int) act" where
  "RETV_IF expr val rest = (if expr then code val else rest)"

text \<open>Reading through a pointer, and the \<open>std::string\<close> built from a \<open>const char *\<close>.\<close>

definition deref_handle :: "ptr \<Rightarrow> (c_heap, aitt_handle) act" where
  "deref_handle h =
     (\<lambda>s. case map_of (ch_handles s) h of
        None \<Rightarrow> (Inl (UndefinedBehaviour ''no aitt_handle at this address''), s)
      | Some x \<Rightarrow> (Inr x, s))"

definition deref_option :: "ptr \<Rightarrow> (c_heap, aitt_option) act" where
  "deref_option h =
     (\<lambda>s. case map_of (ch_options s) h of
        None \<Rightarrow> (Inl (UndefinedBehaviour ''no aitt_option at this address''), s)
      | Some x \<Rightarrow> (Inr x, s))"

definition deref_string :: "ptr \<Rightarrow> (c_heap, string) act" where
  "deref_string p =
     (\<lambda>s. case map_of (ch_strings s) p of
        None \<Rightarrow> (Inl (UndefinedBehaviour ''no string at this address''), s)
      | Some x \<Rightarrow> (Inr x, s))"

definition std_string :: "string option \<Rightarrow> ('s, string) act" where
  "std_string p = (case p of None \<Rightarrow> raise (UndefinedBehaviour ''std::string of a null pointer'') | Some x \<Rightarrow> ret x)"

definition put_handle :: "ptr \<Rightarrow> aitt_handle \<Rightarrow> (c_heap, unit) act" where
  "put_handle h x = upd (\<lambda>s. s\<lparr>ch_handles := omap_put h x (ch_handles s)\<rparr>)"

definition put_option :: "ptr \<Rightarrow> aitt_option \<Rightarrow> (c_heap, unit) act" where
  "put_option h x = upd (\<lambda>s. s\<lparr>ch_options := omap_put h x (ch_options s)\<rparr>)"

text \<open>A call of a method on \<open>handle->aitt\<close>.\<close>

definition on_aitt :: "ptr \<Rightarrow> (AITT, 'a) act \<Rightarrow> (c_heap, 'a) act" where
  "on_aitt h a =
     bnd (deref_handle h) (\<lambda>x.
     case h_aitt x of
       None \<Rightarrow> raise (UndefinedBehaviour ''method of a null AITT'')
     | Some o1 \<Rightarrow>
         (\<lambda>s. case a o1 of (r, o2) \<Rightarrow> (r, s\<lparr>ch_handles := omap_put h (x\<lparr>h_aitt := Some o2\<rparr>) (ch_handles s)\<rparr>)))"

section \<open>Handles\<close>

definition new_handle :: "(c_heap, ptr) act" where
  "new_handle =
     (\<lambda>s. (Inr (ch_next s),
           s\<lparr>ch_next := ch_next s + 1,
             ch_handles := omap_put (ch_next s) \<lparr>h_aitt = None, h_connected = False, h_custom_broker = False\<rparr> (ch_handles s)\<rparr>))"

definition lift_result :: "exn + 'a \<Rightarrow> ('s, 'a) act" where
  "lift_result r = (case r of Inl e \<Rightarrow> raise e | Inr x \<Rightarrow> ret x)"

text \<open>The constructor call of either branch of \<open>aitt_new\<close>, with what it reads from the option.\<close>

definition new_args :: "ptr \<Rightarrow> (c_heap, string \<times> AittOption) act" where
  "new_args option =
     (if option = nullptr then ret ([], AittOption_new False False)
      else bnd (deref_option option) (\<lambda>x.
           bnd (if o_my_ip x \<noteq> nullptr then deref_string (o_my_ip x) else ret []) (\<lambda>valid_ip.
           ret (valid_ip, o_option x))))"

definition aitt_new :: "c_env \<Rightarrow> string option \<Rightarrow> ptr \<Rightarrow> (c_heap, ptr) act" where
  "aitt_new C ident option =
     tryA (bnd new_handle (\<lambda>handle.
           bnd (new_args option) (\<lambda>(valid_ip, opt).
           sq (bnd (deref_handle handle) (\<lambda>x.
               put_handle handle (x\<lparr>h_custom_broker := (option \<noteq> nullptr \<and> opt_use_custom_broker opt)\<rparr>)))
           (bnd (lift_result (AITT_new (ce_impl C) (ce_gen C) (case ident of None \<Rightarrow> [] | Some i \<Rightarrow> i) valid_ip opt)) (\<lambda>a.
           sq (bnd (deref_handle handle) (\<lambda>x. put_handle handle (x\<lparr>h_aitt := Some a\<rparr>)))
              (ret handle))))))
        (\<lambda>_. ret nullptr)"

text \<open>\<open>delete handle->aitt\<close>: the implementation is destroyed with the object that owns it.\<close>

definition AITT_dtor :: "impl_env \<Rightarrow> (AITT, unit) act" where
  "AITT_dtor E = (\<lambda>a. case pImpl a of None \<Rightarrow> (Inr (), a) | Some _ \<Rightarrow> forward (Impl_dtor E) a)"

definition aitt_destroy :: "c_env \<Rightarrow> ptr \<Rightarrow> (c_heap, unit) act" where
  "aitt_destroy C handle =
     (if handle = nullptr then ret ()
      else tryA (bnd (deref_handle handle) (\<lambda>x.
                 sq (if h_aitt x = None then ret () else on_aitt handle (AITT_dtor (ce_impl C)))
                    (upd (\<lambda>s. s\<lparr>ch_handles := omap_del handle (ch_handles s)\<rparr>))))
             (\<lambda>_. ret ()))"

section \<open>Options\<close>

definition aitt_option_new :: "(c_heap, ptr) act" where
  "aitt_option_new =
     (\<lambda>s. (Inr (ch_next s),
           s\<lparr>ch_next := ch_next s + 1,
             ch_options := omap_put (ch_next s) \<lparr>o_my_ip = nullptr, o_option = AittOption_default\<rparr> (ch_options s)\<rparr>))"

definition aitt_option_destroy :: "ptr \<Rightarrow> (c_heap, unit) act" where
  "aitt_option_destroy handle =
     (if handle = nullptr then ret ()
      else sq (deref_option handle) (upd (\<lambda>s. s\<lparr>ch_options := omap_del handle (ch_options s)\<rparr>)))"

definition to_boolean :: "string option \<Rightarrow> AittError \<times> bool" where
  "to_boolean value =
     (case value of
        None \<Rightarrow> (AITT_ERROR_NONE, False)
      | Some v \<Rightarrow>
          let dest = strcaseeq v ''true'' in
          if \<not> dest \<and> \<not> strcaseeq v ''false'' then (AITT_ERROR_INVALID_PARAMETER, dest)
          else (AITT_ERROR_NONE, dest))"

text \<open>The enumeration \<open>aitt_option_e\<close>: a C caller may pass any integer.\<close>

abbreviation (input) AITT_OPT_UNKNOWN :: int where "AITT_OPT_UNKNOWN \<equiv> 0"
abbreviation (input) AITT_OPT_MY_IP :: int where "AITT_OPT_MY_IP \<equiv> 1"
abbreviation (input) AITT_OPT_CLEAN_SESSION :: int where "AITT_OPT_CLEAN_SESSION \<equiv> 2"
abbreviation (input) AITT_OPT_CUSTOM_BROKER :: int where "AITT_OPT_CUSTOM_BROKER \<equiv> 3"
abbreviation (input) AITT_OPT_SERVICE_ID :: int where "AITT_OPT_SERVICE_ID \<equiv> 4"
abbreviation (input) AITT_OPT_LOCATION_ID :: int where "AITT_OPT_LOCATION_ID \<equiv> 5"
abbreviation (input) AITT_OPT_ROOT_CA :: int where "AITT_OPT_ROOT_CA \<equiv> 6"
abbreviation (input) AITT_OPT_CUSTOM_RW_FILE :: int where "AITT_OPT_CUSTOM_RW_FILE \<equiv> 7"

text \<open>A null pointer, or the string it points to.\<close>

definition opt_string :: "ptr \<Rightarrow> (c_heap, string option) act" where
  "opt_string p = (if p = nullptr then ret None else bnd (deref_string p) (\<lambda>v. ret (Some v)))"

text \<open>The two shapes of the cases: a boolean option, and a string the option object takes.\<close>

definition set_bool :: "ptr \<Rightarrow> (bool \<Rightarrow> AittOption \<Rightarrow> AittOption) \<Rightarrow> ptr \<Rightarrow> (c_heap, int) act" where
  "set_bool handle setter value =
     bnd (opt_string value) (\<lambda>v.
     case to_boolean v of (e, b) \<Rightarrow>
       sq (whenA (e = AITT_ERROR_NONE)
             (bnd (deref_option handle) (\<lambda>x. put_option handle (x\<lparr>o_option := setter b (o_option x)\<rparr>))))
          (code e))"

definition set_string :: "ptr \<Rightarrow> (string \<Rightarrow> AittOption \<Rightarrow> AittError \<times> AittOption) \<Rightarrow> ptr \<Rightarrow> (c_heap, int) act" where
  "set_string handle setter value =
     bnd (opt_string value) (\<lambda>v.
     bnd (std_string v) (\<lambda>str.
     bnd (deref_option handle) (\<lambda>x.
     case setter str (o_option x) of (e, opt) \<Rightarrow> sq (put_option handle (x\<lparr>o_option := opt\<rparr>)) (code e))))"

definition aitt_option_set :: "ptr \<Rightarrow> int \<Rightarrow> ptr \<Rightarrow> (c_heap, int) act" where
  "aitt_option_set handle option value =
     RETV_IF (handle = nullptr) AITT_ERROR_INVALID_PARAMETER
       (if option = AITT_OPT_MY_IP
        then sq (bnd (deref_option handle) (\<lambda>x. put_option handle (x\<lparr>o_my_ip := value\<rparr>))) (code AITT_ERROR_NONE)
        else if option = AITT_OPT_CLEAN_SESSION then set_bool handle SetCleanSession value
        else if option = AITT_OPT_CUSTOM_BROKER then set_bool handle SetUseCustomMqttBroker value
        else if option = AITT_OPT_SERVICE_ID then set_string handle SetServiceID value
        else if option = AITT_OPT_LOCATION_ID then set_string handle SetLocationID value
        else if option = AITT_OPT_ROOT_CA then set_string handle SetRootCA value
        else if option = AITT_OPT_CUSTOM_RW_FILE then set_string handle SetCustomRWFile value
        else code AITT_ERROR_INVALID_PARAMETER)"

definition bool_string :: "bool \<Rightarrow> string" where
  "bool_string b = (if b then ''true'' else ''false'')"

definition aitt_option_get :: "ptr \<Rightarrow> int \<Rightarrow> (c_heap, string option) act" where
  "aitt_option_get handle option =
     (if handle = nullptr then ret None
      else if option = AITT_OPT_MY_IP then bnd (deref_option handle) (\<lambda>x. opt_string (o_my_ip x))
      else if option = AITT_OPT_CLEAN_SESSION
      then bnd (deref_option handle) (\<lambda>x. ret (Some (bool_string (opt_clean_session (o_option x)))))
      else if option = AITT_OPT_CUSTOM_BROKER
      then bnd (deref_option handle) (\<lambda>x. ret (Some (bool_string (opt_use_custom_broker (o_option x)))))
      else if option = AITT_OPT_SERVICE_ID then bnd (deref_option handle) (\<lambda>x. ret (Some (opt_service_id (o_option x))))
      else if option = AITT_OPT_LOCATION_ID then bnd (deref_option handle) (\<lambda>x. ret (Some (opt_location_id (o_option x))))
      else if option = AITT_OPT_ROOT_CA then bnd (deref_option handle) (\<lambda>x. ret (Some (opt_root_ca (o_option x))))
      else if option = AITT_OPT_CUSTOM_RW_FILE then bnd (deref_option handle) (\<lambda>x. ret (Some (opt_custom_rw_file (o_option x))))
      else ret None)"

section \<open>Calls on a handle\<close>

text \<open>\<open>try { ... } catch (std::exception &e) { return AITT_ERROR_SYSTEM; } return AITT_ERROR_NONE;\<close>\<close>

definition catching :: "(c_heap, 'a) act \<Rightarrow> (c_heap, int) act" where
  "catching a = tryA (sq a (code AITT_ERROR_NONE)) (\<lambda>_. code AITT_ERROR_SYSTEM)"

definition aitt_will_set :: "c_env \<Rightarrow> ptr \<Rightarrow> string option \<Rightarrow> byte list \<Rightarrow> int \<Rightarrow> bool \<Rightarrow> (c_heap, int) act" where
  "aitt_will_set C handle topic msg qos retain =
     RETV_IF (handle = nullptr) AITT_ERROR_INVALID_PARAMETER
       (catching (bnd (std_string topic) (\<lambda>t. on_aitt handle (AITT_SetWillInfo (ce_impl C) t msg qos retain))))"

definition is_valid_ip :: "c_env \<Rightarrow> string option \<Rightarrow> bool" where
  "is_valid_ip C ip = (case ip of None \<Rightarrow> False | Some i \<Rightarrow> ce_inet_pton C i)"

definition new_closure :: "connect_closure \<Rightarrow> (c_heap, nat) act" where
  "new_closure c =
     (\<lambda>s. (Inr (ch_next_closure s),
           s\<lparr>ch_next_closure := ch_next_closure s + 1, ch_closures := omap_put (ch_next_closure s) c (ch_closures s)\<rparr>))"

definition aitt_set_connect_callback :: "ptr \<Rightarrow> nat option \<Rightarrow> ptr \<Rightarrow> (c_heap, int) act" where
  "aitt_set_connect_callback handle cb user_data =
     RETV_IF (handle = nullptr) AITT_ERROR_INVALID_PARAMETER
       (bnd (deref_handle handle) (\<lambda>x.
        RETV_IF (h_aitt x = None) AITT_ERROR_INVALID_PARAMETER
          (catching (case cb of
             None \<Rightarrow> on_aitt handle (AITT_SetConnectionCallback None nullptr)
           | Some f \<Rightarrow>
               bnd (new_closure \<lparr>cc_handle = handle, cc_cb = f, cc_user_data = user_data\<rparr>) (\<lambda>n.
               on_aitt handle (AITT_SetConnectionCallback (Some n) nullptr))))))"

text \<open>What the application's function receives when the class calls the closure it was given.\<close>

definition connect_closure_call :: "c_heap \<Rightarrow> app_event \<Rightarrow> (nat \<times> ptr \<times> int \<times> ptr) option" where
  "connect_closure_call s e =
     (case e of
        AppMessage _ _ _ _ \<Rightarrow> None
      | AppConnection n _ status \<Rightarrow>
          map_option (\<lambda>c. (cc_cb c, cc_handle c, status, cc_user_data c)) (map_of (ch_closures s) n))"

definition set_connected :: "ptr \<Rightarrow> (c_heap, unit) act" where
  "set_connected handle = bnd (deref_handle handle) (\<lambda>x. put_handle handle (x\<lparr>h_connected := True\<rparr>))"

definition aitt_connect_full ::
  "c_env \<Rightarrow> ptr \<Rightarrow> string option \<Rightarrow> int \<Rightarrow> string option \<Rightarrow> string option \<Rightarrow> (c_heap, int) act" where
  "aitt_connect_full C handle host port username password =
     RETV_IF (handle = nullptr) AITT_ERROR_INVALID_PARAMETER
       (bnd (deref_handle handle) (\<lambda>x.
        RETV_IF (if h_custom_broker x then host = None else \<not> is_valid_ip C host) AITT_ERROR_INVALID_PARAMETER
          (bnd (catching (bnd (std_string host) (\<lambda>h.
                 on_aitt handle (AITT_Connect (ce_impl C) h port
                   (case username of None \<Rightarrow> [] | Some u \<Rightarrow> u) (case password of None \<Rightarrow> [] | Some p \<Rightarrow> p))))) (\<lambda>r.
           if r = error_code AITT_ERROR_NONE then sq (set_connected handle) (ret r) else ret r))))"

definition aitt_connect :: "c_env \<Rightarrow> ptr \<Rightarrow> string option \<Rightarrow> int \<Rightarrow> (c_heap, int) act" where
  "aitt_connect C handle host port = aitt_connect_full C handle host port None None"

text \<open>The three checks the remaining calls start with.\<close>

definition ready :: "ptr \<Rightarrow> (c_heap, int) act \<Rightarrow> (c_heap, int) act" where
  "ready handle rest =
     RETV_IF (handle = nullptr) AITT_ERROR_INVALID_PARAMETER
       (bnd (deref_handle handle) (\<lambda>x.
        RETV_IF (h_aitt x = None) AITT_ERROR_INVALID_PARAMETER
       (RETV_IF (\<not> h_connected x) AITT_ERROR_NOT_READY rest)))"

definition aitt_disconnect :: "c_env \<Rightarrow> ptr \<Rightarrow> (c_heap, int) act" where
  "aitt_disconnect C handle = ready handle (catching (on_aitt handle (AITT_Disconnect (ce_impl C))))"

definition aitt_publish_full ::
  "c_env \<Rightarrow> ptr \<Rightarrow> string option \<Rightarrow> byte list option \<Rightarrow> int \<Rightarrow> int \<Rightarrow> int \<Rightarrow> (c_heap, int) act" where
  "aitt_publish_full C handle topic msg msg_len protocols qos =
     ready handle
       (RETV_IF (topic = None) AITT_ERROR_INVALID_PARAMETER
       (RETV_IF (msg = None) AITT_ERROR_INVALID_PARAMETER
       (catching (on_aitt handle
          (AITT_Publish (ce_impl C) (the topic) (the msg) msg_len AITT_TYPE_MQTT AITT_QOS_AT_MOST_ONCE False)))))"

definition aitt_publish :: "c_env \<Rightarrow> ptr \<Rightarrow> string option \<Rightarrow> byte list option \<Rightarrow> int \<Rightarrow> (c_heap, int) act" where
  "aitt_publish C handle topic msg msg_len =
     aitt_publish_full C handle topic msg msg_len (uint AITT_TYPE_MQTT) AITT_QOS_AT_MOST_ONCE"

definition aitt_publish_with_reply ::
  "c_env \<Rightarrow> ptr \<Rightarrow> string option \<Rightarrow> byte list option \<Rightarrow> int \<Rightarrow> AittProtocol \<Rightarrow> int \<Rightarrow> string option \<Rightarrow> nat option \<Rightarrow> ptr \<Rightarrow>
   (c_heap, int) act" where
  "aitt_publish_with_reply C handle topic msg msg_len protocols qos correlation cb user_data =
     ready handle
       (RETV_IF (topic = None) AITT_ERROR_INVALID_PARAMETER
       (RETV_IF (msg = None) AITT_ERROR_INVALID_PARAMETER
       (RETV_IF (cb = None) AITT_ERROR_INVALID_PARAMETER
       (catching (bnd (std_string correlation) (\<lambda>c. on_aitt handle
          (AITT_PublishWithReply (ce_impl C) (the topic) (the msg) msg_len protocols AITT_QOS_AT_MOST_ONCE False
             (the cb) user_data c)))))))"

text \<open>
  \<open>aitt_send_reply\<close> has no checks.  The message object, which the caller holds, is changed in place
  as \<open>reply_msg\<close> says; it is no part of the heap here.
\<close>

definition aitt_send_reply ::
  "c_env \<Rightarrow> ptr \<Rightarrow> AittMsg option \<Rightarrow> byte list \<Rightarrow> int \<Rightarrow> bool \<Rightarrow> (c_heap, int) act" where
  "aitt_send_reply C handle msg_handle reply reply_len end_seq =
     catching (on_aitt handle (AITT_SendReply (ce_impl C) msg_handle reply reply_len end_seq))"

text \<open>The out-parameter: whether it points to a variable, and the variable's value after the call.\<close>

definition aitt_subscribe_full ::
  "c_env \<Rightarrow> ptr \<Rightarrow> string option \<Rightarrow> nat option \<Rightarrow> ptr \<Rightarrow> AittProtocol \<Rightarrow> int \<Rightarrow> ptr option \<Rightarrow> (c_heap, int \<times> ptr option) act" where
  "aitt_subscribe_full C handle topic cb user_data protocol qos sub_handle =
     (\<lambda>s. case ready handle
             (RETV_IF (topic = None) AITT_ERROR_INVALID_PARAMETER
             (RETV_IF (cb = None) AITT_ERROR_INVALID_PARAMETER
             (RETV_IF (sub_handle = None) AITT_ERROR_INVALID_PARAMETER (code AITT_ERROR_NONE)))) s of
        (Inl e, t) \<Rightarrow> (Inl e, t)
      | (Inr r, t) \<Rightarrow>
          if r \<noteq> error_code AITT_ERROR_NONE then (Inr (r, sub_handle), t)
          else tryA (bnd (on_aitt handle (AITT_Subscribe (ce_impl C) (the topic) (the cb) user_data protocol AITT_QOS_AT_MOST_ONCE))
                       (\<lambda>i. ret (error_code AITT_ERROR_NONE, Some i)))
                 (\<lambda>_. ret (error_code AITT_ERROR_SYSTEM, sub_handle)) t)"

definition aitt_subscribe ::
  "c_env \<Rightarrow> ptr \<Rightarrow> string option \<Rightarrow> nat option \<Rightarrow> ptr \<Rightarrow> ptr option \<Rightarrow> (c_heap, int \<times> ptr option) act" where
  "aitt_subscribe C handle topic cb user_data sub_handle =
     aitt_subscribe_full C handle topic cb user_data AITT_TYPE_MQTT AITT_QOS_AT_MOST_ONCE sub_handle"

definition aitt_unsubscribe :: "c_env \<Rightarrow> ptr \<Rightarrow> ptr \<Rightarrow> (c_heap, int) act" where
  "aitt_unsubscribe C handle sub_handle =
     ready handle
       (RETV_IF (sub_handle = nullptr) AITT_ERROR_INVALID_PARAMETER
       (catching (on_aitt handle (AITT_Unsubscribe (ce_impl C) sub_handle))))"

definition aitt_msg_get_topic :: "AittMsg option \<Rightarrow> string option" where
  "aitt_msg_get_topic handle = (case handle of None \<Rightarrow> None | Some m \<Rightarrow> Some (msg_topic m))"

section \<open>Every call\<close>

text \<open>The calls that return an error code, and the others.\<close>

datatype c_call =
    OptionSet ptr int ptr
  | WillSet ptr "string option" "byte list" int bool
  | SetConnectCallback ptr "nat option" ptr
  | ConnectFull ptr "string option" int "string option" "string option"
  | Disconnect ptr
  | PublishFull ptr "string option" "byte list option" int int int
  | PublishWithReply ptr "string option" "byte list option" int AittProtocol int "string option" "nat option" ptr
  | SendReply ptr "AittMsg option" "byte list" int bool
  | SubscribeFull ptr "string option" "nat option" ptr AittProtocol int "ptr option"
  | Unsubscribe ptr ptr

fun c_run :: "c_env \<Rightarrow> c_call \<Rightarrow> (c_heap, int) act" where
  "c_run C (OptionSet h p v) = aitt_option_set h p v"
| "c_run C (WillSet h topic msg qos retain) = aitt_will_set C h topic msg qos retain"
| "c_run C (SetConnectCallback h cb d) = aitt_set_connect_callback h cb d"
| "c_run C (ConnectFull h host port u p) = aitt_connect_full C h host port u p"
| "c_run C (Disconnect h) = aitt_disconnect C h"
| "c_run C (PublishFull h topic msg len p q) = aitt_publish_full C h topic msg len p q"
| "c_run C (PublishWithReply h topic msg len p q c cb d) = aitt_publish_with_reply C h topic msg len p q c cb d"
| "c_run C (SendReply h m reply len e) = aitt_send_reply C h m reply len e"
| "c_run C (SubscribeFull h topic cb d p q sub) = bnd (aitt_subscribe_full C h topic cb d p q sub) (\<lambda>r. ret (fst r))"
| "c_run C (Unsubscribe h i) = aitt_unsubscribe C h i"

text \<open>
  The steps of a process that uses the interface.  Between two calls the library's own threads run
  operations of an implementation, and the application writes its memory.
\<close>

inductive c_step :: "c_env \<Rightarrow> c_heap \<Rightarrow> c_heap \<Rightarrow> bool" for C where
  step_call: "c_run C c s = (r, t) \<Longrightarrow> c_step C s t"
| step_new: "aitt_new C ident option s = (r, t) \<Longrightarrow> c_step C s t"
| step_destroy: "aitt_destroy C h s = (r', t) \<Longrightarrow> c_step C s t"
| step_option_new: "aitt_option_new s = (r, t) \<Longrightarrow> c_step C s t"
| step_option_destroy: "aitt_option_destroy h s = (r', t) \<Longrightarrow> c_step C s t"
| step_background: "on_aitt h (forward (a :: (Impl, unit) act)) s = (r', t) \<Longrightarrow> c_step C s t"
| step_memory: "c_step C s (s\<lparr>ch_strings := m\<rparr>)"

definition c_heap_init :: c_heap where
  "c_heap_init = \<lparr>ch_strings = [], ch_handles = [], ch_options = [], ch_closures = [], ch_next = 1, ch_next_closure = 1\<rparr>"

text \<open>
  The invariant: addresses are given out in order and none is null, an object of the class has its
  implementation, and only a handle with an object is connected.
\<close>

definition handle_ok :: "aitt_handle \<Rightarrow> bool" where
  "handle_ok x \<longleftrightarrow> (\<forall>a. h_aitt x = Some a \<longrightarrow> pImpl a \<noteq> None) \<and> (h_connected x \<longrightarrow> h_aitt x \<noteq> None)"

definition c_ok :: "c_heap \<Rightarrow> bool" where
  "c_ok s \<longleftrightarrow> omap_ok (ch_handles s) \<and> omap_ok (ch_options s) \<and> 0 < ch_next s
     \<and> (\<forall>h \<in> fst ` set (ch_handles s) \<union> fst ` set (ch_options s). 0 < h \<and> h < ch_next s)
     \<and> (\<forall>h x. map_of (ch_handles s) h = Some x \<longrightarrow> handle_ok x)"


section \<open>The invariant\<close>

lemma c_okD:
  assumes "c_ok s" and "map_of (ch_handles s) h = Some x"
  shows "handle_ok x" and "0 < h"
proof -
  show "handle_ok x" using assms by (auto simp: c_ok_def)
  from assms(2) have "h \<in> fst ` set (ch_handles s)" by (rule map_of_SomeD [THEN imageI, of _ _ _ fst, simplified])
  with assms(1) show "0 < h" by (auto simp: c_ok_def)
qed

lemma c_ok_put_handle:
  assumes "c_ok s" and "map_of (ch_handles s) h = Some x" and "handle_ok y"
  shows "c_ok (s\<lparr>ch_handles := omap_put h y (ch_handles s)\<rparr>)"
proof -
  from assms(2) have "h \<in> fst ` set (ch_handles s)" by (rule map_of_SomeD [THEN imageI, of _ _ _ fst, simplified])
  with assms(1,3) show ?thesis by (auto simp: c_ok_def)
qed

lemma c_ok_put_option:
  assumes "c_ok s" and "map_of (ch_options s) h = Some x"
  shows "c_ok (s\<lparr>ch_options := omap_put h y (ch_options s)\<rparr>)"
proof -
  from assms(2) have "h \<in> fst ` set (ch_options s)" by (rule map_of_SomeD [THEN imageI, of _ _ _ fst, simplified])
  with assms(1) show ?thesis by (auto simp: c_ok_def)
qed

lemma deref_run [act_simps]:
  "deref_handle h s = (case map_of (ch_handles s) h of
     None \<Rightarrow> (Inl (UndefinedBehaviour ''no aitt_handle at this address''), s) | Some x \<Rightarrow> (Inr x, s))"
  "deref_option h s = (case map_of (ch_options s) h of
     None \<Rightarrow> (Inl (UndefinedBehaviour ''no aitt_option at this address''), s) | Some y \<Rightarrow> (Inr y, s))"
  "deref_string h s = (case map_of (ch_strings s) h of
     None \<Rightarrow> (Inl (UndefinedBehaviour ''no string at this address''), s) | Some z \<Rightarrow> (Inr z, s))"
  by (simp_all add: deref_handle_def deref_option_def deref_string_def)

lemma preserves_deref [preserves_intros]:
  "preserves I (deref_handle h)" "preserves I (deref_option h)" "preserves I (deref_string p)" "preserves I (std_string v)"
  by (simp_all add: preserves_def act_simps std_string_def split: option.splits)

lemma preserves_opt_string [preserves_intros]: "preserves I (opt_string p)"
  unfolding opt_string_def by (intro preserves_intros)

lemma preserves_put_handle [preserves_intros]:
  "(\<And>x. handle_ok x \<Longrightarrow> handle_ok (f x)) \<Longrightarrow> preserves c_ok (bnd (deref_handle h) (\<lambda>x. put_handle h (f x)))"
  by (rule preservesI) (auto simp: act_simps put_handle_def c_ok_put_handle c_okD split: option.splits)

lemma preserves_put_option [preserves_intros]:
  "preserves c_ok (bnd (deref_option h) (\<lambda>x. put_option h (f x)))"
  by (rule preservesI) (auto simp: act_simps put_option_def c_ok_put_option split: option.splits)

lemma preserves_update_option [preserves_intros]:
  "preserves c_ok (bnd (deref_option h) (\<lambda>x. case f x of (e, opt) \<Rightarrow> sq (put_option h (x\<lparr>o_option := opt\<rparr>)) (code e)))"
  by (rule preservesI) (auto simp: act_simps put_option_def c_ok_put_option split: option.splits prod.splits)

lemma preserves_lift_result:
  "(\<And>x. r = Inr x \<Longrightarrow> preserves I (f x)) \<Longrightarrow> preserves I (bnd (lift_result r) f)"
  by (cases r) (auto simp: lift_result_def bnd_ret raise_bnd intro: preserves_intros)

text \<open>No method of the class takes its implementation away.\<close>

definition has_impl :: "AITT \<Rightarrow> bool" where "has_impl a \<longleftrightarrow> pImpl a \<noteq> None"

lemma has_impl_forward [preserves_intros]: "preserves has_impl (forward a)"
  by (auto simp: preserves_def has_impl_def forward_def split: option.splits prod.splits)

lemma preserves_on_aitt [preserves_intros]: "preserves has_impl a \<Longrightarrow> preserves c_ok (on_aitt h a)"
proof (rule preservesI)
  fix s assume a: "preserves has_impl a" and s: "c_ok s"
  show "c_ok (snd (on_aitt h a s))"
  proof (cases "map_of (ch_handles s) h")
    case (Some x)
    show ?thesis
    proof (cases "h_aitt x")
      case o1: (Some o1)
      obtain r o2 where r: "a o1 = (r, o2)" by fastforce
      from c_okD(1) [OF s Some] o1 have "has_impl o1" by (simp add: handle_ok_def has_impl_def)
      with preservesD [OF a] r have "has_impl o2" by fastforce
      with c_okD(1) [OF s Some] o1 have "handle_ok (x\<lparr>h_aitt := Some o2\<rparr>)" by (simp add: handle_ok_def has_impl_def)
      with c_ok_put_handle [OF s Some] show ?thesis by (simp add: on_aitt_def act_simps Some o1 r)
    qed (simp add: on_aitt_def act_simps Some s)
  qed (simp add: on_aitt_def act_simps s)
qed

lemma preserves_RETV_IF [preserves_intros]: "preserves I rest \<Longrightarrow> preserves I (RETV_IF b e rest)"
  by (auto simp: RETV_IF_def intro: preserves_intros)

lemma preserves_guarded [preserves_intros]: "preserves I a \<Longrightarrow> preserves I (catching a)"
  unfolding catching_def by (intro preserves_intros)

lemma preserves_ready [preserves_intros]: "preserves I rest \<Longrightarrow> preserves I (ready h rest)"
  unfolding ready_def by (intro preserves_intros)

lemma AITT_methods_has_impl [preserves_intros]:
  "preserves has_impl (AITT_SetWillInfo E t d q b)" "preserves has_impl (AITT_SetConnectionCallback cb u)"
  "preserves has_impl (AITT_Connect E t p u1 u2)" "preserves has_impl (AITT_Disconnect E)"
  "preserves has_impl (AITT_Publish E t d l pr q b)" "preserves has_impl (AITT_PublishWithReply E t d l pr q b k u c)"
  "preserves has_impl (AITT_SendReply E m d l b)" "preserves has_impl (AITT_Subscribe E t k u pr q)"
  "preserves has_impl (AITT_Unsubscribe E i)"
  unfolding AITT_SetWillInfo_def AITT_SetConnectionCallback_def AITT_Connect_def AITT_Disconnect_def AITT_Publish_def
    AITT_PublishWithReply_def AITT_SendReply_def AITT_Subscribe_def AITT_Unsubscribe_def
  by (intro preserves_intros)+

lemma AITT_dtor_has_impl [preserves_intros]: "preserves has_impl (AITT_dtor E)"
  by (rule preservesI) (auto simp: AITT_dtor_def split: option.splits intro: preservesD [OF has_impl_forward])

lemma AITT_new_has_impl: "AITT_new E gen ident ip opt = Inr a \<Longrightarrow> pImpl a \<noteq> None"
  by (auto simp: AITT_new_def AITT_Ready_def split: sum.splits if_splits)

lemma c_ok_init: "c_ok c_heap_init"
  by (simp add: c_ok_def c_heap_init_def)

lemma new_handle_c_ok [preserves_intros]: "preserves c_ok new_handle" "preserves c_ok aitt_option_new"
  by (auto simp: preserves_def new_handle_def aitt_option_new_def c_ok_def handle_ok_def less_Suc_eq)

lemma aitt_new_c_ok: "preserves c_ok (aitt_new C ident option)"
  unfolding aitt_new_def new_args_def split_beta
  by (intro preserves_intros preserves_lift_result) (auto simp: handle_ok_def dest: AITT_new_has_impl)

lemma aitt_destroy_c_ok: "preserves c_ok (aitt_destroy C h)" "preserves c_ok (aitt_option_destroy h)"
  unfolding aitt_destroy_def aitt_option_destroy_def
  by (intro preserves_intros; auto simp: c_ok_def split: if_splits)+

lemma set_option_c_ok [preserves_intros]: "preserves c_ok (set_bool h f v)" "preserves c_ok (set_string h g v)"
proof -
  show "preserves c_ok (set_bool h f v)"
    unfolding set_bool_def by (intro preserves_intros) (auto split: prod.splits intro!: preserves_intros)
  show "preserves c_ok (set_string h g v)"
    unfolding set_string_def
    by (intro preserves_intros)
qed


lemma connected_c_ok:
  assumes "c_ok s" and "catching (bnd (std_string host) (\<lambda>k. on_aitt h (f k))) s = (r, t)" and "c_ok t"
  shows "c_ok (snd (bnd (\<lambda>s. (r, t)) (\<lambda>r. if r = 0 then sq (set_connected h) (ret r) else ret r) s))"
proof (cases r)
  case (Inr n)
  show ?thesis
  proof (cases "n = 0")
    case True
    then obtain x a where "map_of (ch_handles t) h = Some x" "h_aitt x = Some a"
      using assms(2) Inr
      by (fastforce simp: catching_def std_string_def on_aitt_def act_simps split: option.splits sum.splits prod.splits exn.splits)
    with assms(3) c_okD(1) [OF assms(3)] show ?thesis
      by (fastforce simp: act_simps Inr True set_connected_def put_handle_def handle_ok_def intro!: c_ok_put_handle)
  qed (simp add: act_simps Inr assms(3))
qed (simp add: act_simps assms(3))

lemma aitt_connect_full_c_ok: "preserves c_ok (aitt_connect_full C h host port u p)"
proof -
  define a where "a = catching (bnd (std_string host) (\<lambda>k. on_aitt h
    (AITT_Connect (ce_impl C) k port (case u of None \<Rightarrow> [] | Some x \<Rightarrow> x) (case p of None \<Rightarrow> [] | Some x \<Rightarrow> x))))"
  have a: "preserves c_ok a" unfolding a_def by (intro preserves_intros)
  have "preserves c_ok (bnd a (\<lambda>r. if r = 0 then sq (set_connected h) (ret r) else ret r))"
  proof (rule preservesI)
    fix s assume s: "c_ok s"
    obtain r t where rt: "a s = (r, t)" by fastforce
    with preservesD [OF a s] have "c_ok t" by simp
    from connected_c_ok [OF s rt [unfolded a_def] this]
    show "c_ok (snd (bnd a (\<lambda>r. if r = 0 then sq (set_connected h) (ret r) else ret r) s))"
      by (simp add: bnd_run rt)
  qed
  then show ?thesis
    unfolding aitt_connect_full_def a_def error_code.simps
    by - (rule preserves_RETV_IF, rule preserves_bnd, rule preserves_deref, rule preserves_RETV_IF, assumption)
qed

lemma aitt_subscribe_full_c_ok: "preserves c_ok (aitt_subscribe_full C h topic cb d p q sub)"
proof -
  define g where "g = ready h (RETV_IF (topic = None) AITT_ERROR_INVALID_PARAMETER
     (RETV_IF (cb = None) AITT_ERROR_INVALID_PARAMETER
     (RETV_IF (sub = None) AITT_ERROR_INVALID_PARAMETER (code AITT_ERROR_NONE))))"
  define k where "k = tryA (bnd (on_aitt h (AITT_Subscribe (ce_impl C) (the topic) (the cb) d p AITT_QOS_AT_MOST_ONCE))
     (\<lambda>i. ret (error_code AITT_ERROR_NONE, Some i))) (\<lambda>_. ret (error_code AITT_ERROR_SYSTEM, sub))"
  have "aitt_subscribe_full C h topic cb d p q sub =
        bnd g (\<lambda>r. if r \<noteq> error_code AITT_ERROR_NONE then ret (r, sub) else k)"
    by (simp add: fun_eq_iff aitt_subscribe_full_def g_def k_def act_simps split: prod.splits sum.splits)
  moreover have "preserves c_ok g" "preserves c_ok k" unfolding g_def k_def by (intro preserves_intros)+
  ultimately show ?thesis by (simp add: preserves_intros)
qed

lemma c_run_c_ok: "preserves c_ok (c_run C c)"
proof (cases c)
  case (OptionSet h p v)
  then show ?thesis by (auto simp: aitt_option_set_def intro!: preserves_intros)
next
  case (SetConnectCallback h cb d)
  have "preserves c_ok (new_closure k)" for k by (simp add: preserves_def new_closure_def c_ok_def)
  then show ?thesis unfolding SetConnectCallback c_run.simps aitt_set_connect_callback_def
    by (cases cb) (auto intro!: preserves_intros)
next
  case (ConnectFull h host port u p)
  then show ?thesis by (simp add: aitt_connect_full_c_ok)
next
  case (SubscribeFull h topic cb d p q sub)
  then show ?thesis by (simp add: aitt_subscribe_full_c_ok preserves_intros)
qed (auto simp: aitt_will_set_def aitt_disconnect_def aitt_publish_full_def aitt_publish_with_reply_def
       aitt_send_reply_def aitt_unsubscribe_def intro!: preserves_intros)

interpretation c_api: invariant_system "\<lambda>s. s = c_heap_init" "c_step C" c_ok for C
proof
  fix s t assume s: "c_ok s" and st: "c_step C s t"
  note P = preservesD [OF c_run_c_ok s] preservesD [OF aitt_new_c_ok s] preservesD [OF aitt_destroy_c_ok(1) s]
    preservesD [OF new_handle_c_ok(2) s] preservesD [OF aitt_destroy_c_ok(2) s]
    preservesD [OF preserves_on_aitt [OF has_impl_forward] s]
  from st show "c_ok t"
    by (cases rule: c_step.cases) (use P in \<open>metis snd_conv\<close>, use P in \<open>metis snd_conv\<close>, use P in \<open>metis snd_conv\<close>,
      use P in \<open>metis snd_conv\<close>, use P in \<open>metis snd_conv\<close>, use P in \<open>metis snd_conv\<close>, use s in \<open>simp add: c_ok_def\<close>)
qed (simp add: c_ok_init)

section \<open>Error codes\<close>

declare error_code.simps [simp del]

definition late_code :: "int \<Rightarrow> bool" where
  "late_code n \<longleftrightarrow> n = error_code AITT_ERROR_NONE \<or> n = error_code AITT_ERROR_SYSTEM"

definition early_code :: "int \<Rightarrow> bool" where
  "early_code n \<longleftrightarrow> n = error_code AITT_ERROR_INVALID_PARAMETER \<or> n = error_code AITT_ERROR_NOT_READY
     \<or> n = error_code AITT_ERROR_NOT_SUPPORTED"

definition is_ub :: "exn \<Rightarrow> bool" where
  "is_ub e \<longleftrightarrow> (case e of UndefinedBehaviour _ \<Rightarrow> True | _ \<Rightarrow> False)"

lemma is_ub_D: "is_ub e \<Longrightarrow> \<exists>w. e = UndefinedBehaviour w"
  by (cases e) (simp_all add: is_ub_def)

text \<open>
  A call answers: it returns a code, and one that names a refused argument or state only when it
  left the heap as it was; no exception leaves it.
\<close>

definition answers :: "(c_heap, int) act \<Rightarrow> bool" where
  "answers m \<longleftrightarrow> (\<forall>s. c_ok s \<longrightarrow>
     (case m s of (Inl e, _) \<Rightarrow> is_ub e | (Inr n, t) \<Rightarrow> late_code n \<or> early_code n \<and> t = s))"

named_theorems answers_intros "calls that answer"

lemma answers_code [answers_intros]: "late_code (error_code e) \<or> early_code (error_code e) \<Longrightarrow> answers (code e)"
  by (auto simp: answers_def act_simps)

lemma answers_RETV_IF [answers_intros]:
  "early_code (error_code e) \<Longrightarrow> (\<not> b \<Longrightarrow> answers m) \<Longrightarrow> answers (RETV_IF b e m)"
  by (auto simp: RETV_IF_def intro: answers_code)

lemma answers_deref_handle [answers_intros]: "(\<And>x. answers (f x)) \<Longrightarrow> answers (bnd (deref_handle h) f)"
  by (auto simp: answers_def act_simps is_ub_def split: option.splits)

lemma answers_opt_string [answers_intros]: "(\<And>x. answers (f x)) \<Longrightarrow> answers (bnd (opt_string p) f)"
  by (auto simp: answers_def act_simps opt_string_def is_ub_def split: option.splits)

lemma answers_std_string [answers_intros]: "(\<And>x. answers (f x)) \<Longrightarrow> answers (bnd (std_string v) f)"
  by (cases v) (auto simp: answers_def act_simps std_string_def is_ub_def)

lemma answers_guarded [answers_intros]: "answers (catching a)"
  by (auto simp: answers_def catching_def act_simps is_ub_def late_code_def split: prod.splits sum.splits exn.splits)

lemma early_code_simps [simp]:
  "early_code (error_code AITT_ERROR_INVALID_PARAMETER)" "early_code (error_code AITT_ERROR_NOT_READY)"
  "early_code (error_code AITT_ERROR_NOT_SUPPORTED)"
  by (simp_all add: early_code_def del: error_code.simps)

lemma answers_ready [answers_intros]: "answers m \<Longrightarrow> answers (ready h m)"
  unfolding ready_def by (intro answers_intros) simp_all

lemma answers_option [answers_intros]:
  assumes "\<And>x. case f x of (e, opt) \<Rightarrow> late_code (error_code e) \<or> early_code (error_code e) \<and> opt = o_option x"
  shows "answers (bnd (deref_option h) (\<lambda>x. case f x of (e, opt) \<Rightarrow> sq (put_option h (x\<lparr>o_option := opt\<rparr>)) (code e)))"
    (is "answers ?m")
  unfolding answers_def
proof (intro allI impI)
  fix s assume s: "c_ok s"
  show "case ?m s of (Inl e, _) \<Rightarrow> is_ub e | (Inr n, t) \<Rightarrow> late_code n \<or> early_code n \<and> t = s"
  proof (cases "map_of (ch_options s) h")
    case (Some x)
    obtain e opt where f: "f x = (e, opt)" by fastforce
    from s have "omap_ok (ch_options s)" by (simp add: c_ok_def)
    with omap_put_same [OF _ Some] assms [of x] show ?thesis
      by (auto simp: act_simps put_option_def Some f)
  qed (simp add: act_simps is_ub_def)
qed

lemma late_code_simps [simp]: "late_code (error_code AITT_ERROR_NONE)" "late_code (error_code AITT_ERROR_SYSTEM)"
  by (simp_all add: late_code_def)

lemma answers_set_string [answers_intros]:
  "answers (set_string h SetServiceID v)" "answers (set_string h SetLocationID v)"
  "answers (set_string h SetRootCA v)" "answers (set_string h SetCustomRWFile v)"
  unfolding set_string_def by (intro answers_intros; simp add: AittOption_defs)+

lemma answers_set_bool [answers_intros]: "answers (set_bool h f v)"
proof -
  have "answers (case to_boolean v of (e, b) \<Rightarrow>
     sq (whenA (e = AITT_ERROR_NONE) (bnd (deref_option h) (\<lambda>x. put_option h (x\<lparr>o_option := f b (o_option x)\<rparr>)))) (code e))" for v
    by (cases v) (auto simp: to_boolean_def Let_def answers_def act_simps is_ub_def put_option_def split: option.splits)
  then show ?thesis unfolding set_bool_def by (intro answers_intros)
qed

lemma answers_my_ip [answers_intros]:
  "answers (sq (bnd (deref_option h) (\<lambda>x. put_option h (x\<lparr>o_my_ip := v\<rparr>))) (code AITT_ERROR_NONE))"
  by (auto simp: answers_def act_simps is_ub_def put_option_def split: option.splits)

lemma answers_option_set: "answers (aitt_option_set h p v)"
  by (auto simp: aitt_option_set_def intro!: answers_intros)

lemma answers_connect_full: "answers (aitt_connect_full C h host port u p)"
proof -
  have "answers (bnd (catching a) (\<lambda>r. if r = error_code AITT_ERROR_NONE then sq (set_connected h) (ret r) else ret r))" for a :: "(c_heap, unit) act"
    by (auto simp: answers_def catching_def act_simps is_ub_def set_connected_def put_handle_def
        split: prod.splits sum.splits exn.splits option.splits)
  then show ?thesis unfolding aitt_connect_full_def by (intro answers_intros; simp)
qed

lemma answers_subscribe_full: "answers (bnd (aitt_subscribe_full C h topic cb d p q sub) (\<lambda>r. ret (fst r)))"
  by (auto simp: answers_def aitt_subscribe_full_def ready_def RETV_IF_def act_simps is_ub_def
      split: prod.splits sum.splits exn.splits option.splits if_splits)

lemma c_run_answers: "answers (c_run C c)"
proof (cases c)
  case (SetConnectCallback h cb d)
  then show ?thesis unfolding SetConnectCallback c_run.simps aitt_set_connect_callback_def
    by (intro answers_intros) simp_all
qed (auto simp: aitt_will_set_def aitt_disconnect_def aitt_publish_full_def aitt_publish_with_reply_def
       aitt_send_reply_def aitt_unsubscribe_def answers_option_set answers_connect_full answers_subscribe_full
       simp del: fst_conv intro!: answers_intros)

section \<open>What the interface promises\<close>

text \<open>A process that has made one option object, with a string of its own at address 100.\<close>

definition sample_heap :: c_heap where
  "sample_heap =
     \<lparr>ch_strings = [(100, ''north''), (101, ''TRUE'')], ch_handles = [],
      ch_options = [(1, \<lparr>o_my_ip = nullptr, o_option = AittOption_default\<rparr>)], ch_closures = [], ch_next = 2, ch_next_closure = 1\<rparr>"

lemma sample_heap_reachable: "reachable (\<lambda>s. s = c_heap_init) (c_step C) sample_heap"
proof -
  define a where "a = snd (aitt_option_new c_heap_init)"
  have "aitt_option_new c_heap_init = (Inr 1, a)" by (simp add: a_def aitt_option_new_def c_heap_init_def)
  then have "c_step C c_heap_init a" by (rule step_option_new)
  with reachable_init [of "\<lambda>s. s = c_heap_init"] have "reachable (\<lambda>s. s = c_heap_init) (c_step C) a"
    by (metis reachable_step)
  moreover have "c_step C a (a\<lparr>ch_strings := [(100, ''north''), (101, ''TRUE'')]\<rparr>)" by (rule step_memory)
  moreover have "a\<lparr>ch_strings := [(100, ''north''), (101, ''TRUE'')]\<rparr> = sample_heap"
    by (simp add: a_def sample_heap_def aitt_option_new_def c_heap_init_def)
  ultimately show ?thesis by (metis reachable_step)
qed

text \<open>C29. In every state a process can reach, a call of the C interface that returns a code returns
  success, a system error, or one of the three codes for a refused argument or state, and in the
  last case nothing changed.  No C++ exception leaves a call.
\<close>

theorem c_calls_answer:
  assumes "reachable (\<lambda>s. s = c_heap_init) (c_step C) s" and "c_run C c s = (r, t)"
  shows "case r of
           Inl e \<Rightarrow> (\<exists>w. e = UndefinedBehaviour w)
         | Inr n \<Rightarrow> n \<in> error_code ` {AITT_ERROR_NONE, AITT_ERROR_SYSTEM} \<or>
             n \<in> error_code ` {AITT_ERROR_INVALID_PARAMETER, AITT_ERROR_NOT_READY, AITT_ERROR_NOT_SUPPORTED} \<and> t = s"
  using c_run_answers [of C c] c_api.reachable_inv [OF assms(1)] assms(2)
  by (cases r; fastforce simp: answers_def late_code_def early_code_def dest!: is_ub_D)

theorem c_calls_answer_witness:
  "\<forall>C. reachable (\<lambda>s. s = c_heap_init) (c_step C) sample_heap \<and>
   c_run C (OptionSet 1 AITT_OPT_SERVICE_ID 100) sample_heap = (Inr (error_code AITT_ERROR_NOT_SUPPORTED), sample_heap) \<and>
   error_code AITT_ERROR_NOT_SUPPORTED \<in>
     error_code ` {AITT_ERROR_INVALID_PARAMETER, AITT_ERROR_NOT_READY, AITT_ERROR_NOT_SUPPORTED}"
proof
  fix C
  have run: "c_run C (OptionSet 1 AITT_OPT_SERVICE_ID 100) sample_heap = (Inr (error_code AITT_ERROR_NOT_SUPPORTED), sample_heap)"
    by (simp add: aitt_option_set_def RETV_IF_def set_string_def opt_string_def std_string_def put_option_def sample_heap_def
        AittOption_defs act_simps)
  from c_calls_answer [OF sample_heap_reachable run] run sample_heap_reachable [of C]
  show "reachable (\<lambda>s. s = c_heap_init) (c_step C) sample_heap \<and>
    c_run C (OptionSet 1 AITT_OPT_SERVICE_ID 100) sample_heap = (Inr (error_code AITT_ERROR_NOT_SUPPORTED), sample_heap) \<and>
    error_code AITT_ERROR_NOT_SUPPORTED \<in>
      error_code ` {AITT_ERROR_INVALID_PARAMETER, AITT_ERROR_NOT_READY, AITT_ERROR_NOT_SUPPORTED}" by simp
qed

text \<open>
  What \<open>aitt_option_get\<close> returns for an option once a value is stored in it: the booleans come back
  in lower case, a null pointer as \<open>false\<close>.
\<close>

definition stored :: "int \<Rightarrow> string option \<Rightarrow> string option" where
  "stored p w =
     (if p = AITT_OPT_CLEAN_SESSION \<or> p = AITT_OPT_CUSTOM_BROKER
      then Some (bool_string (case w of None \<Rightarrow> False | Some x \<Rightarrow> strcaseeq x ''true'')) else w)"

lemma opt_string_run: "opt_string v s = (r, t) \<Longrightarrow> t = s"
  by (auto simp: opt_string_def act_simps split: if_splits option.splits)

text \<open>What an option object at hand reads as.\<close>

definition option_read :: "c_heap \<Rightarrow> aitt_option \<Rightarrow> int \<Rightarrow> exn + string option" where
  "option_read s x q =
     (if q = AITT_OPT_MY_IP then fst (opt_string (o_my_ip x) s)
      else Inr (if q = AITT_OPT_CLEAN_SESSION then Some (bool_string (opt_clean_session (o_option x)))
                else if q = AITT_OPT_CUSTOM_BROKER then Some (bool_string (opt_use_custom_broker (o_option x)))
                else if q = AITT_OPT_SERVICE_ID then Some (opt_service_id (o_option x))
                else if q = AITT_OPT_LOCATION_ID then Some (opt_location_id (o_option x))
                else if q = AITT_OPT_ROOT_CA then Some (opt_root_ca (o_option x))
                else if q = AITT_OPT_CUSTOM_RW_FILE then Some (opt_custom_rw_file (o_option x)) else None))"

lemma aitt_option_get_read:
  "h \<noteq> nullptr \<Longrightarrow> map_of (ch_options s) h = Some x \<Longrightarrow> aitt_option_get h q s = (option_read s x q, s)"
  by (auto simp: aitt_option_get_def option_read_def act_simps opt_string_def split: option.splits)

lemma option_replaced:
  assumes "h \<noteq> nullptr" and "map_of (ch_options s) h = Some x"
    and t: "t = s\<lparr>ch_options := omap_put h y (ch_options s)\<rparr>"
    and p: "option_read s y p = Inr v" and q: "q \<noteq> p \<Longrightarrow> option_read s y q = option_read s x q"
  shows "aitt_option_get h p t = (Inr v, t) \<and> (q = p \<or> fst (aitt_option_get h q t) = fst (aitt_option_get h q s))"
proof -
  have "option_read t y = option_read s y"
    by (simp add: fun_eq_iff option_read_def opt_string_def act_simps t split: option.splits)
  moreover have "map_of (ch_options t) h = Some y" by (simp add: t)
  ultimately show ?thesis using assms by (cases "q = p") (simp_all add: aitt_option_get_read)
qed

text \<open>A successful call of either shape replaces the option object, and nothing else.\<close>

lemma set_bool_ok:
  assumes "set_bool h f v s = (Inr 0, t)" and "opt_string v s = (Inr w, s)"
  shows "\<exists>x. map_of (ch_options s) h = Some x \<and>
    t = s\<lparr>ch_options := omap_put h (x\<lparr>o_option := f (case w of None \<Rightarrow> False | Some x \<Rightarrow> strcaseeq x ''true'') (o_option x)\<rparr>) (ch_options s)\<rparr>"
  using assms
  by (cases w) (auto simp: set_bool_def to_boolean_def Let_def act_simps put_option_def error_code.simps
      split: option.splits if_splits prod.splits)

lemma set_string_ok:
  assumes "set_string h g v s = (Inr 0, t)" and "opt_string v s = (Inr w, s)"
  shows "\<exists>x str. w = Some str \<and> map_of (ch_options s) h = Some x \<and> error_code (fst (g str (o_option x))) = 0
    \<and> t = s\<lparr>ch_options := omap_put h (x\<lparr>o_option := snd (g str (o_option x))\<rparr>) (ch_options s)\<rparr>"
  using assms
  by (cases w) (auto simp: set_string_def std_string_def act_simps put_option_def split: option.splits prod.splits)

lemma AittOption_set_ok:
  "error_code (fst (SetServiceID i opt)) = 0 \<Longrightarrow> snd (SetServiceID i opt) = opt\<lparr>opt_service_id := i\<rparr>"
  "error_code (fst (SetLocationID i opt)) = 0 \<Longrightarrow> snd (SetLocationID i opt) = opt\<lparr>opt_location_id := i\<rparr>"
  "error_code (fst (SetRootCA i opt)) = 0 \<Longrightarrow> snd (SetRootCA i opt) = opt\<lparr>opt_root_ca := i\<rparr>"
  "error_code (fst (SetCustomRWFile i opt)) = 0 \<Longrightarrow> snd (SetCustomRWFile i opt) = opt\<lparr>opt_custom_rw_file := i\<rparr>"
  by (simp_all add: AittOption_defs error_code.simps split: if_splits)

lemma option_cases:
  assumes "aitt_option_set h p v s = (Inr (error_code AITT_ERROR_NONE), t)"
  obtains "p = AITT_OPT_MY_IP" | "p = AITT_OPT_CLEAN_SESSION" | "p = AITT_OPT_CUSTOM_BROKER" | "p = AITT_OPT_SERVICE_ID"
    | "p = AITT_OPT_LOCATION_ID" | "p = AITT_OPT_ROOT_CA" | "p = AITT_OPT_CUSTOM_RW_FILE"
  using assms by (fastforce simp: aitt_option_set_def RETV_IF_def act_simps split: if_splits)

lemma set_string_replaced:
  assumes "set_string h g v s = (Inr 0, t)" and "opt_string v s = (Inr w, s)" and "h \<noteq> nullptr"
    and "\<And>x str. error_code (fst (g str (o_option x))) = 0 \<Longrightarrow>
           option_read s (x\<lparr>o_option := snd (g str (o_option x))\<rparr>) p = Inr (Some str)"
    and "\<And>x str. error_code (fst (g str (o_option x))) = 0 \<Longrightarrow> q \<noteq> p \<Longrightarrow>
           option_read s (x\<lparr>o_option := snd (g str (o_option x))\<rparr>) q = option_read s x q"
  shows "aitt_option_get h p t = (Inr w, t) \<and> (q = p \<or> fst (aitt_option_get h q t) = fst (aitt_option_get h q s))"
proof -
  from set_string_ok [OF assms(1,2)] obtain x str where x: "map_of (ch_options s) h = Some x" and w: "w = Some str"
    and e: "error_code (fst (g str (o_option x))) = 0"
    and t: "t = s\<lparr>ch_options := omap_put h (x\<lparr>o_option := snd (g str (o_option x))\<rparr>) (ch_options s)\<rparr>" by blast
  from option_replaced [OF assms(3) x t assms(4) [OF e] assms(5) [OF e]] show ?thesis by (simp add: w)
qed

lemma string_option_replaced:
  assumes "set_string h g v s = (Inr 0, t)"
    and "(p, g) \<in> {(AITT_OPT_SERVICE_ID, SetServiceID), (AITT_OPT_LOCATION_ID, SetLocationID),
                   (AITT_OPT_ROOT_CA, SetRootCA), (AITT_OPT_CUSTOM_RW_FILE, SetCustomRWFile)}"
    and "opt_string v s = (Inr w, s)" and "h \<noteq> nullptr"
  shows "aitt_option_get h p t = (Inr (stored p w), t) \<and>
         (q = p \<or> fst (aitt_option_get h q t) = fst (aitt_option_get h q s))"
proof -
  have "aitt_option_get h p t = (Inr w, t) \<and> (q = p \<or> fst (aitt_option_get h q t) = fst (aitt_option_get h q s))"
    using assms(1,3,4) by (rule set_string_replaced) (use assms(2) in \<open>auto simp: option_read_def AittOption_set_ok\<close>)
  moreover have "stored p w = w" using assms(2) by (auto simp: stored_def)
  ultimately show ?thesis by simp
qed

text \<open>C30. A value that \<open>aitt_option_set\<close> accepted is what \<open>aitt_option_get\<close> returns, and every other
  option still reads as before.
\<close>

theorem option_set_get:
  assumes "aitt_option_set h p v s = (Inr (error_code AITT_ERROR_NONE), t)" and "opt_string v s = (Inr w, s)"
  shows "aitt_option_get h p t = (Inr (stored p w), t) \<and>
         (q = p \<or> fst (aitt_option_get h q t) = fst (aitt_option_get h q s))"
proof -
  have h: "h \<noteq> nullptr"
    using assms(1) by (cases "h = nullptr") (simp_all add: aitt_option_set_def RETV_IF_def act_simps)
  note run = assms(1) [unfolded aitt_option_set_def RETV_IF_def if_not_P [OF h] error_code.simps]
  note simps = option_read_def stored_def AittOption_set_ok SetCleanSession_def SetUseCustomMqttBroker_def
  from assms(1) show ?thesis
  proof (cases rule: option_cases)
    case 1
    with run have *: "sq (bnd (deref_option h) (\<lambda>x. put_option h (x\<lparr>o_my_ip := v\<rparr>))) (ret (0 :: int)) s = (Inr 0, t)" by simp
    then obtain x where x: "map_of (ch_options s) h = Some x"
      by (cases "map_of (ch_options s) h") (simp_all add: act_simps)
    from * have "s\<lparr>ch_options := omap_put h (x\<lparr>o_my_ip := v\<rparr>) (ch_options s)\<rparr> = t"
      by (simp add: act_simps put_option_def x)
    from h x this [symmetric] show ?thesis by (rule option_replaced) (simp_all add: 1 simps assms(2))
  next
    case 2
    with run have "set_bool h SetCleanSession v s = (Inr 0, t)" by simp
    from set_bool_ok [OF this assms(2)] obtain x where x: "map_of (ch_options s) h = Some x" and t: "t = s\<lparr>ch_options :=
      omap_put h (x\<lparr>o_option := SetCleanSession (case w of None \<Rightarrow> False | Some x \<Rightarrow> strcaseeq x ''true'') (o_option x)\<rparr>) (ch_options s)\<rparr>"
      by blast
    from h x t show ?thesis by (rule option_replaced) (simp_all add: 2 simps)
  next
    case 3
    with run have "set_bool h SetUseCustomMqttBroker v s = (Inr 0, t)" by simp
    from set_bool_ok [OF this assms(2)] obtain x where x: "map_of (ch_options s) h = Some x" and t: "t = s\<lparr>ch_options :=
      omap_put h (x\<lparr>o_option := SetUseCustomMqttBroker (case w of None \<Rightarrow> False | Some x \<Rightarrow> strcaseeq x ''true'') (o_option x)\<rparr>) (ch_options s)\<rparr>"
      by blast
    from h x t show ?thesis by (rule option_replaced) (simp_all add: 3 simps)
  next
    case 4
    with run show ?thesis by (intro string_option_replaced [OF _ _ assms(2) h, of SetServiceID]) simp_all
  next
    case 5
    with run show ?thesis by (intro string_option_replaced [OF _ _ assms(2) h, of SetLocationID]) simp_all
  next
    case 6
    with run show ?thesis by (intro string_option_replaced [OF _ _ assms(2) h, of SetRootCA]) simp_all
  next
    case 7
    with run show ?thesis by (intro string_option_replaced [OF _ _ assms(2) h, of SetCustomRWFile]) simp_all
  qed
qed

theorem option_set_get_witness:
  "\<exists>t. aitt_option_set 1 AITT_OPT_CUSTOM_BROKER 101 sample_heap = (Inr (error_code AITT_ERROR_NONE), t) \<and>
       opt_string 101 sample_heap = (Inr (Some ''TRUE''), sample_heap) \<and>
       aitt_option_get 1 AITT_OPT_CUSTOM_BROKER t = (Inr (Some ''true''), t) \<and>
       fst (aitt_option_get 1 AITT_OPT_CLEAN_SESSION t) = Inr (Some ''false'')"
proof -
  have eq: "strcaseeq ''TRUE'' ''true''" by code_simp
  obtain t where t: "aitt_option_set 1 AITT_OPT_CUSTOM_BROKER 101 sample_heap = (Inr (error_code AITT_ERROR_NONE), t)"
    by (simp add: aitt_option_set_def RETV_IF_def set_bool_def opt_string_def to_boolean_def eq put_option_def sample_heap_def act_simps)
  have v: "opt_string 101 sample_heap = (Inr (Some ''TRUE''), sample_heap)"
    by (simp add: opt_string_def act_simps sample_heap_def)
  have "stored AITT_OPT_CUSTOM_BROKER (Some ''TRUE'') = Some ''true''"
    by (simp add: stored_def bool_string_def eq)
  moreover have "fst (aitt_option_get 1 AITT_OPT_CLEAN_SESSION sample_heap) = Inr (Some ''false'')"
    by (simp add: aitt_option_get_def act_simps sample_heap_def AittOption_defs bool_string_def)
  ultimately show ?thesis using t v option_set_get [OF t v, of AITT_OPT_CLEAN_SESSION] by auto
qed

text \<open>The address given for the own IP is kept, not the string: the option changes with the application's memory.\<close>

lemma my_ip_follows_memory:
  assumes "aitt_option_set h AITT_OPT_MY_IP v s = (Inr n, t)" and "v \<noteq> nullptr"
  shows "aitt_option_get h AITT_OPT_MY_IP (t\<lparr>ch_strings := [(v, x)]\<rparr>) = (Inr (Some x), t\<lparr>ch_strings := [(v, x)]\<rparr>)
    \<or> h = nullptr"
  using assms
  by (auto simp: aitt_option_set_def RETV_IF_def aitt_option_get_def opt_string_def act_simps put_option_def
      split: option.splits if_splits)

text \<open>The protocols and the quality of service given to \<open>aitt_publish_full\<close> do not matter.\<close>

lemma publish_full_ignores:
  "aitt_publish_full C h topic msg len protocols qos = aitt_publish C h topic msg len"
  by (simp add: aitt_publish_full_def aitt_publish_def)

text \<open>A disconnected handle still counts as connected.\<close>

lemma disconnect_stays_connected:
  assumes "aitt_disconnect C h s = (Inr (error_code AITT_ERROR_NONE), t)"
  shows "\<exists>x. map_of (ch_handles t) h = Some x \<and> h_connected x"
  using assms
  by (fastforce simp: aitt_disconnect_def ready_def RETV_IF_def catching_def on_aitt_def act_simps
      split: option.splits if_splits prod.splits sum.splits exn.splits)

text \<open>
  A string option given a null pointer is undefined behaviour, where a boolean option takes it as
  \<open>false\<close>.
\<close>

lemma null_string_option:
  "map_of (ch_options s) h = Some x \<Longrightarrow> h \<noteq> nullptr \<Longrightarrow>
   aitt_option_set h AITT_OPT_SERVICE_ID nullptr s = (Inl (UndefinedBehaviour ''std::string of a null pointer''), s)"
  by (simp add: aitt_option_set_def RETV_IF_def set_string_def opt_string_def std_string_def act_simps)

end
