(* ===== verification/MainLoopIface_Spec.thy ===== *)
theory MainLoopIface_Spec
  imports Aitt_Types
begin

text \<open>
  What \<open>common/MainLoopIface.h\<close> promises of watches, for whichever loop a build uses: a
  descriptor has at most one watch, the first one added; removing it gives the user data back, and
  removing a descriptor without a watch gives the null pointer.
\<close>

datatype watch_op = WAdd int nat ptr | WRemove int

text \<open>The specification: a finite map from descriptors to user data, and what the removals return.\<close>

fun spec_outputs :: "(int \<rightharpoonup> ptr) \<Rightarrow> watch_op list \<Rightarrow> (exn + ptr) list" where
  "spec_outputs w [] = []"
| "spec_outputs w (WAdd fd cb d # ops) = spec_outputs (if w fd = None then w(fd \<mapsto> d) else w) ops"
| "spec_outputs w (WRemove fd # ops) =
     Inr (case w fd of None \<Rightarrow> nullptr | Some d \<Rightarrow> d) # spec_outputs (w(fd := None)) ops"

text \<open>The same sequence run on a loop.\<close>

fun watch_outputs ::
  "(int \<Rightarrow> nat \<Rightarrow> ptr \<Rightarrow> 's \<Rightarrow> 's) \<Rightarrow> (int \<Rightarrow> ('s, ptr) act) \<Rightarrow> 's \<Rightarrow> watch_op list \<Rightarrow> (exn + ptr) list" where
  "watch_outputs add rem s [] = []"
| "watch_outputs add rem s (WAdd fd cb d # ops) = watch_outputs add rem (add fd cb d s) ops"
| "watch_outputs add rem s (WRemove fd # ops) = fst (rem fd s) # watch_outputs add rem (snd (rem fd s)) ops"

locale watch_table =
  fixes ok :: "'s \<Rightarrow> bool" and watches :: "'s \<Rightarrow> int \<rightharpoonup> ptr"
    and add :: "int \<Rightarrow> nat \<Rightarrow> ptr \<Rightarrow> 's \<Rightarrow> 's" and rem :: "int \<Rightarrow> ('s, ptr) act"
  assumes add_law: "ok s \<Longrightarrow> ok (add fd cb d s) \<and>
      watches (add fd cb d s) = (if watches s fd = None then (watches s)(fd \<mapsto> d) else watches s)"
    and rem_law: "ok s \<Longrightarrow> ok (snd (rem fd s)) \<and> watches (snd (rem fd s)) = (watches s)(fd := None) \<and>
      fst (rem fd s) = Inr (case watches s fd of None \<Rightarrow> nullptr | Some d \<Rightarrow> d)"
begin

lemma outputs_spec: "ok s \<Longrightarrow> watch_outputs add rem s ops = spec_outputs (watches s) ops"
proof (induction ops arbitrary: s)
  case (Cons op ops)
  show ?case
  proof (cases op)
    case (WAdd fd cb d)
    with Cons add_law [of s fd cb d] show ?thesis by simp
  next
    case (WRemove fd)
    with Cons rem_law [of s fd] show ?thesis by (simp add: fun_upd_def)
  qed
qed simp

lemma add_rem:
  assumes "ok s" and "watches s fd = None" and "rem fd (add fd cb d s) = (r, t)"
  shows "r = Inr d \<and> watches t = watches s"
  using add_law [OF assms(1), of fd cb d] rem_law [of "add fd cb d s" fd] assms(2,3) by (auto simp: fun_eq_iff)

end

end
