(* ===== verification/MainLoop_Model.thy ===== *)
theory MainLoop_Model
  imports MainLoopIface_Spec
begin

text \<open>
  The event loop of the transports, \<open>common/PosixMainLoop.cc\<close>: watches on descriptors, timers
  that report through a pipe, and a queue of idle callbacks driven by tokens in a second pipe.

  A callback is a number; what it does to the loop before it returns, and what it returns, is given
  by the environment and may depend on everything that was called before.  A pipe is the list of
  the integers in it.  The result of \<open>poll\<close> for the watched descriptors is an input; for the two
  pipes it is whether they hold anything.  Only the thread that runs the loop reads the pipes.
\<close>

abbreviation (input) PIPE_QUIT :: int where "PIPE_QUIT \<equiv> - 1"
abbreviation (input) PIPE_PING :: int where "PIPE_PING \<equiv> 0"
abbreviation (input) PIPE_IDLE :: int where "PIPE_IDLE \<equiv> 1"
abbreviation (input) TIMEOUT_START :: int where "TIMEOUT_START \<equiv> 2"

record MainLoopCbData =
  mcb_cb :: nat
  mcb_data :: ptr
  mcb_result :: loop_event
  mcb_fd :: int
  mcb_interval :: int
  mcb_timer :: "nat option"

definition MainLoopCbData_new :: "nat \<Rightarrow> ptr \<Rightarrow> MainLoopCbData" where
  "MainLoopCbData_new cb data =
     \<lparr>mcb_cb = cb, mcb_data = data, mcb_result = OKAY, mcb_fd = PIPE_IDLE, mcb_interval = 0, mcb_timer = None\<rparr>"

datatype loop_call = LoopCall nat loop_event int ptr

record PosixMainLoop =
  ml_running :: bool
  watch_table :: "(int, MainLoopCbData) omap"
  timeout_table :: "(int, MainLoopCbData) omap"
  idle_table :: "MainLoopCbData list"
  timeout_pipe :: "int list"
  idle_pipe :: "int list"
  ml_next_timeout :: int
  ml_timers :: "(nat, int) omap"
  ml_next_timer :: nat
  ml_calls :: "loop_call list"

definition PosixMainLoop_new :: "int \<Rightarrow> PosixMainLoop" where
  "PosixMainLoop_new next_timeout =
     \<lparr>ml_running = False, watch_table = [], timeout_table = [], idle_table = [], timeout_pipe = [],
      idle_pipe = [], ml_next_timeout = next_timeout, ml_timers = [], ml_next_timer = 1, ml_calls = []\<rparr>"

datatype loop_op =
    OpAddIdle nat ptr
  | OpAddWatch int nat ptr
  | OpRemoveWatch int
  | OpAddTimeout int nat ptr
  | OpRemoveTimeout int
  | OpQuit

record loop_env =
  le_callback :: "loop_call list \<Rightarrow> loop_call \<Rightarrow> loop_op list \<times> int"
  le_timer_ok :: "nat \<Rightarrow> bool"

section \<open>Operations\<close>

definition ml_Quit :: "PosixMainLoop \<Rightarrow> bool \<times> PosixMainLoop" where
  "ml_Quit s =
     (if \<not> ml_running s then (False, s)
      else (True, s\<lparr>ml_running := False, timeout_pipe := timeout_pipe s @ [PIPE_QUIT]\<rparr>))"

definition ml_AddIdle :: "nat \<Rightarrow> ptr \<Rightarrow> PosixMainLoop \<Rightarrow> PosixMainLoop" where
  "ml_AddIdle cb data s =
     s\<lparr>idle_table := idle_table s @ [MainLoopCbData_new cb data], idle_pipe := idle_pipe s @ [PIPE_IDLE]\<rparr>"

definition ml_AddWatch :: "int \<Rightarrow> nat \<Rightarrow> ptr \<Rightarrow> PosixMainLoop \<Rightarrow> PosixMainLoop" where
  "ml_AddWatch fd cb data s =
     s\<lparr>watch_table := omap_insert fd ((MainLoopCbData_new cb data)\<lparr>mcb_fd := fd\<rparr>) (watch_table s),
       idle_pipe := idle_pipe s @ [PIPE_PING]\<rparr>"

definition ml_RemoveWatch :: "int \<Rightarrow> PosixMainLoop \<Rightarrow> ptr \<times> PosixMainLoop" where
  "ml_RemoveWatch fd s =
     (case map_of (watch_table s) fd of
        None \<Rightarrow> (nullptr, s)
      | Some d \<Rightarrow> (mcb_data d, s\<lparr>watch_table := omap_del fd (watch_table s), idle_pipe := idle_pipe s @ [PIPE_PING]\<rparr>))"

text \<open>A one-shot timer that writes \<open>identifier\<close> to the timeout pipe when it expires.\<close>

definition SetTimer :: "loop_env \<Rightarrow> int \<Rightarrow> int \<Rightarrow> PosixMainLoop \<Rightarrow> nat option \<times> PosixMainLoop" where
  "SetTimer E interval identifier s =
     (let i = ml_next_timer s in
      if le_timer_ok E i
      then (Some i, s\<lparr>ml_next_timer := i + 1, ml_timers := omap_put i identifier (ml_timers s)\<rparr>)
      else (None, s\<lparr>ml_next_timer := i + 1\<rparr>))"

definition delete_timer :: "nat option \<Rightarrow> PosixMainLoop \<Rightarrow> PosixMainLoop" where
  "delete_timer t s = (case t of None \<Rightarrow> s | Some i \<Rightarrow> s\<lparr>ml_timers := omap_del i (ml_timers s)\<rparr>)"

definition TimeoutTableInsert :: "int \<Rightarrow> MainLoopCbData \<Rightarrow> PosixMainLoop \<Rightarrow> PosixMainLoop" where
  "TimeoutTableInsert identifier cb_data s = s\<lparr>timeout_table := omap_insert identifier cb_data (timeout_table s)\<rparr>"

declare TimeoutTableInsert_def [simp]

definition ml_AddTimeout :: "loop_env \<Rightarrow> int \<Rightarrow> nat \<Rightarrow> ptr \<Rightarrow> PosixMainLoop \<Rightarrow> int \<times> PosixMainLoop" where
  "ml_AddTimeout E interval cb data s =
     (if interval \<le> 0 then (0, s)
      else let identifier = ml_next_timeout s in
        (case SetTimer E interval identifier s of
           (None, s1) \<Rightarrow> (0, s1)
         | (Some t, s1) \<Rightarrow>
             (identifier,
              (TimeoutTableInsert identifier ((MainLoopCbData_new cb data)\<lparr>mcb_interval := interval, mcb_timer := Some t\<rparr>) s1)
                \<lparr>ml_next_timeout := identifier + 1\<rparr>)))"

definition ml_RemoveTimeout :: "int \<Rightarrow> PosixMainLoop \<Rightarrow> PosixMainLoop" where
  "ml_RemoveTimeout i s =
     (case map_of (timeout_table s) i of
        None \<Rightarrow> s
      | Some d \<Rightarrow> (delete_timer (mcb_timer d) s)\<lparr>timeout_table := omap_del i (timeout_table s)\<rparr>)"

text \<open>The signal handler of an expired timer.\<close>

definition TimerHandler :: "nat \<Rightarrow> PosixMainLoop \<Rightarrow> PosixMainLoop" where
  "TimerHandler t s =
     (case map_of (ml_timers s) t of
        None \<Rightarrow> s
      | Some identifier \<Rightarrow> s\<lparr>timeout_pipe := timeout_pipe s @ [identifier]\<rparr>)"

fun run_loop_op :: "loop_env \<Rightarrow> loop_op \<Rightarrow> PosixMainLoop \<Rightarrow> PosixMainLoop" where
  "run_loop_op E (OpAddIdle cb d) s = ml_AddIdle cb d s"
| "run_loop_op E (OpAddWatch fd cb d) s = ml_AddWatch fd cb d s"
| "run_loop_op E (OpRemoveWatch fd) s = snd (ml_RemoveWatch fd s)"
| "run_loop_op E (OpAddTimeout n cb d) s = snd (ml_AddTimeout E n cb d s)"
| "run_loop_op E (OpRemoveTimeout i) s = ml_RemoveTimeout i s"
| "run_loop_op E OpQuit s = snd (ml_Quit s)"

definition run_callback :: "loop_env \<Rightarrow> loop_event \<Rightarrow> MainLoopCbData \<Rightarrow> PosixMainLoop \<Rightarrow> int \<times> PosixMainLoop" where
  "run_callback E result d s =
     (let c = LoopCall (mcb_cb d) result (mcb_fd d) (mcb_data d) in
      case le_callback E (ml_calls s) c of
        (ops, r) \<Rightarrow> (r, fold (run_loop_op E) ops (s\<lparr>ml_calls := ml_calls s @ [c]\<rparr>)))"

text \<open>The watches of this loop are those of the interface.\<close>

definition posix_watches :: "PosixMainLoop \<Rightarrow> int \<rightharpoonup> ptr" where
  "posix_watches s fd = map_option mcb_data (map_of (watch_table s) fd)"

definition posix_remove :: "int \<Rightarrow> (PosixMainLoop, ptr) act" where
  "posix_remove fd s = (case ml_RemoveWatch fd s of (d, t) \<Rightarrow> (Inr d, t))"

interpretation posix_iface: watch_table "\<lambda>_. True" posix_watches ml_AddWatch posix_remove
proof
  fix s fd cb d
  show "True \<and> posix_watches (ml_AddWatch fd cb d s) =
      (if posix_watches s fd = None then (posix_watches s)(fd \<mapsto> d) else posix_watches s)"
    by (auto simp: posix_watches_def ml_AddWatch_def map_of_omap_insert MainLoopCbData_new_def fun_eq_iff)
  show "True \<and> posix_watches (snd (posix_remove fd s)) = (posix_watches s)(fd := None) \<and>
      fst (posix_remove fd s) = Inr (case posix_watches s fd of None \<Rightarrow> nullptr | Some d \<Rightarrow> d)"
    by (auto simp: posix_watches_def posix_remove_def ml_RemoveWatch_def fun_eq_iff split: option.splits)
qed

section \<open>Checking what poll reported\<close>

record revents = rev_in :: bool rev_hup :: bool rev_err :: bool

definition revents_any :: "revents \<Rightarrow> bool" where
  "revents_any r \<longleftrightarrow> rev_in r \<or> rev_hup r \<or> rev_err r"

definition check_fd :: "loop_env \<Rightarrow> int \<Rightarrow> revents \<Rightarrow> bool \<times> PosixMainLoop \<Rightarrow> bool \<times> PosixMainLoop" where
  "check_fd E fd rv hs =
     (case hs of (handled, s) \<Rightarrow>
      if \<not> revents_any rv then (handled, s)
      else (case map_of (watch_table s) fd of
              None \<Rightarrow> (handled, s)
            | Some d0 \<Rightarrow>
                let d = (if rev_hup rv \<or> rev_err rv
                         then d0\<lparr>mcb_result := (if rev_hup rv then HANGUP else ERROR)\<rparr> else d0);
                    s1 = s\<lparr>watch_table := omap_put fd d (watch_table s)\<rparr>
                in (case run_callback E (mcb_result d) d s1 of
                      (res, s2) \<Rightarrow> (True, if res = AITT_LOOP_EVENT_REMOVE then snd (ml_RemoveWatch fd s2) else s2))))"

definition CheckWatch :: "loop_env \<Rightarrow> (int \<Rightarrow> revents) \<Rightarrow> int list \<Rightarrow> PosixMainLoop \<Rightarrow> bool \<times> PosixMainLoop" where
  "CheckWatch E poll fds s = fold (\<lambda>fd. check_fd E fd (poll fd)) fds (False, s)"

text \<open>
  After a timeout callback that wants to go on, its entry is used again; a callback that removed
  its own timeout has deleted it.
\<close>

definition timeout_again :: "loop_env \<Rightarrow> int \<Rightarrow> PosixMainLoop \<Rightarrow> (exn + bool) \<times> PosixMainLoop" where
  "timeout_again E identifier s =
     (case map_of (timeout_table s) identifier of
        None \<Rightarrow> (Inl (UndefinedBehaviour ''timeout data used after delete''), s)
      | Some d \<Rightarrow>
          (case SetTimer E (mcb_interval d) identifier (delete_timer (mcb_timer d) s) of
             (t, s1) \<Rightarrow>
               (Inr (t \<noteq> None),
                s1\<lparr>timeout_table := omap_put identifier (d\<lparr>mcb_timer := t\<rparr>) (timeout_table s1)\<rparr>)))"

definition handle_timeout :: "loop_env \<Rightarrow> int \<Rightarrow> PosixMainLoop \<Rightarrow> (exn + bool \<times> bool) \<times> PosixMainLoop" where
  "handle_timeout E identifier s =
     (case map_of (timeout_table s) identifier of
        None \<Rightarrow> (Inr (False, True), s)
      | Some d \<Rightarrow>
          (case run_callback E (mcb_result d) d s of
             (res, s1) \<Rightarrow>
               if res = AITT_LOOP_EVENT_REMOVE then (Inr (True, True), ml_RemoveTimeout identifier s1)
               else map_prod (map_sum id (Pair True)) id (timeout_again E identifier s1)))"

lemma delete_timer_pipe [simp]:
  "timeout_pipe (delete_timer t s) = timeout_pipe s" "ml_running (delete_timer t s) = ml_running s"
  "idle_pipe (delete_timer t s) = idle_pipe s" "idle_table (delete_timer t s) = idle_table s"
  by (simp_all add: delete_timer_def split: option.split)

lemma SetTimer_pipe [simp]:
  "timeout_pipe (snd (SetTimer E n i s)) = timeout_pipe s" "ml_running (snd (SetTimer E n i s)) = ml_running s"
  "idle_pipe (snd (SetTimer E n i s)) = idle_pipe s" "idle_table (snd (SetTimer E n i s)) = idle_table s"
  by (simp_all add: SetTimer_def Let_def)

lemma AddTimeout_pipe [simp]:
  "timeout_pipe (snd (ml_AddTimeout E n cb d s)) = timeout_pipe s" "ml_running (snd (ml_AddTimeout E n cb d s)) = ml_running s"
  "idle_pipe (snd (ml_AddTimeout E n cb d s)) = idle_pipe s" "idle_table (snd (ml_AddTimeout E n cb d s)) = idle_table s"
  by (simp_all add: ml_AddTimeout_def SetTimer_def Let_def)

lemma RemoveTimeout_pipe [simp]:
  "timeout_pipe (ml_RemoveTimeout i s) = timeout_pipe s" "ml_running (ml_RemoveTimeout i s) = ml_running s"
  "idle_pipe (ml_RemoveTimeout i s) = idle_pipe s" "idle_table (ml_RemoveTimeout i s) = idle_table s"
  by (simp_all add: ml_RemoveTimeout_def split: option.split)

text \<open>
  What callbacks can write to the timeout pipe is one \<open>QUIT\<close>, and only while the loop counts as
  running; so reading the pipe until it is empty ends.
\<close>

definition pipe_measure :: "PosixMainLoop \<Rightarrow> nat" where
  "pipe_measure s = length (timeout_pipe s) + (if ml_running s then 1 else 0)"

lemma run_loop_op_measure: "pipe_measure (run_loop_op E op s) \<le> pipe_measure s"
  by (cases op) (auto simp: pipe_measure_def ml_AddIdle_def ml_AddWatch_def ml_RemoveWatch_def ml_Quit_def split: option.split)

lemma fold_ops_measure: "pipe_measure (fold (run_loop_op E) ops s) \<le> pipe_measure s"
  by (induction ops arbitrary: s) (auto intro: order_trans run_loop_op_measure)

lemma run_callback_measure: "pipe_measure (snd (run_callback E r d s)) \<le> pipe_measure s"
proof -
  have "pipe_measure (s\<lparr>ml_calls := c\<rparr>) = pipe_measure s" for c by (simp add: pipe_measure_def)
  then show ?thesis
    using fold_ops_measure by (auto simp: run_callback_def Let_def split: prod.split) metis
qed

lemma timeout_again_measure: "pipe_measure (snd (timeout_again E i s)) = pipe_measure s"
proof (cases "map_of (timeout_table s) i")
  case (Some d)
  define s1 where "s1 = delete_timer (mcb_timer d) s"
  show ?thesis using Some
    by (cases "SetTimer E (mcb_interval d) i s1")
       (use SetTimer_pipe(1,2) [of E "mcb_interval d" i s1] in \<open>simp add: timeout_again_def pipe_measure_def s1_def\<close>)
qed (simp add: timeout_again_def)

lemma handle_timeout_measure: "pipe_measure (snd (handle_timeout E i s)) \<le> pipe_measure s"
proof (cases "map_of (timeout_table s) i")
  case (Some d)
  obtain res s1 where r: "run_callback E (mcb_result d) d s = (res, s1)" by fastforce
  then have "pipe_measure s1 \<le> pipe_measure s" using run_callback_measure by (metis snd_conv)
  moreover have "pipe_measure (ml_RemoveTimeout i s1) = pipe_measure s1" by (simp add: pipe_measure_def)
  ultimately show ?thesis using Some r timeout_again_measure [of E i s1]
    by (simp add: handle_timeout_def)
qed (simp add: handle_timeout_def)

function check_timeout_loop :: "loop_env \<Rightarrow> bool \<Rightarrow> PosixMainLoop \<Rightarrow> (exn + int) \<times> PosixMainLoop" where
  "check_timeout_loop E handled s =
     (case timeout_pipe s of
        [] \<Rightarrow> (Inr (if handled then 1 else 0), s)
      | i # rest \<Rightarrow>
          (if i = PIPE_QUIT then (Inr (- 1), s\<lparr>timeout_pipe := rest\<rparr>)
           else (case handle_timeout E i (s\<lparr>timeout_pipe := rest\<rparr>) of
                   (Inl e, s1) \<Rightarrow> (Inl e, s1)
                 | (Inr (h, go), s1) \<Rightarrow>
                     if \<not> go then (Inr (- 1), s1) else check_timeout_loop E (handled \<or> h) s1)))"
  by pat_completeness auto
termination
proof (relation "measure (\<lambda>(E, h, s). pipe_measure s)")
  fix E handled and s s1 :: PosixMainLoop and i rest x y p h go
  assume "timeout_pipe s = i # rest" and "(x, y) = handle_timeout E i (s\<lparr>timeout_pipe := rest\<rparr>)"
  moreover from this(2) have "pipe_measure y \<le> pipe_measure (s\<lparr>timeout_pipe := rest\<rparr>)"
    using handle_timeout_measure [of E i "s\<lparr>timeout_pipe := rest\<rparr>"] by (metis snd_conv)
  ultimately have "pipe_measure y < pipe_measure s" by (simp add: pipe_measure_def)
  then show "((E, handled \<or> h, y), E, handled, s) \<in> measure (\<lambda>(E, h, s). pipe_measure s)" by simp
qed simp

declare check_timeout_loop.simps [simp del]

definition CheckTimeout :: "loop_env \<Rightarrow> bool \<Rightarrow> PosixMainLoop \<Rightarrow> (exn + int) \<times> PosixMainLoop" where
  "CheckTimeout E readable s = (if \<not> readable then (Inr 0, s) else check_timeout_loop E False s)"

definition CheckIdle :: "loop_env \<Rightarrow> bool \<Rightarrow> PosixMainLoop \<Rightarrow> PosixMainLoop" where
  "CheckIdle E readable s =
     (if \<not> readable then s
      else (case idle_pipe s of
              [] \<Rightarrow> s
            | i # rest \<Rightarrow>
                let s0 = s\<lparr>idle_pipe := rest\<rparr> in
                if i \<noteq> PIPE_IDLE then s0
                else (case idle_table s0 of
                        [] \<Rightarrow> s0
                      | d # ds \<Rightarrow>
                          (case run_callback E (mcb_result d) d s0 of
                             (res, s1) \<Rightarrow> if res = AITT_LOOP_EVENT_REMOVE
                                         then s1\<lparr>idle_table := tl (idle_table s1)\<rparr> else s1))))"

text \<open>
  The body of the loop of \<open>Run\<close>; the flag is \<open>False\<close> where the code breaks out of the loop.
  \<open>interrupted\<close> is a \<open>poll\<close> that a signal ended.  A \<open>poll\<close> with nothing to report
  blocks: the loop stays where it is until another thread or a timer writes to a pipe.
\<close>

definition ml_iterate ::
  "loop_env \<Rightarrow> bool \<Rightarrow> (int \<Rightarrow> revents) \<Rightarrow> PosixMainLoop \<Rightarrow> (exn + bool) \<times> PosixMainLoop" where
  "ml_iterate E interrupted poll s =
     (let fds = map fst (watch_table s);
          idle_ready = (idle_pipe s \<noteq> []);
          timeout_ready = (timeout_pipe s \<noteq> []);
          wake = (\<lambda>t. if idle_table t \<noteq> [] then t\<lparr>idle_pipe := idle_pipe t @ [PIPE_IDLE]\<rparr> else t)
      in if interrupted then (Inr True, wake s)
         else if \<not> (idle_ready \<or> timeout_ready \<or> (\<exists>fd \<in> set fds. revents_any (poll fd))) then (Inr True, s)
         else (case CheckTimeout E timeout_ready s of
                 (Inl e, s1) \<Rightarrow> (Inl e, s1)
               | (Inr r, s1) \<Rightarrow>
                   if r < 0 then (Inr False, s1)
                   else (case CheckWatch E poll fds s1 of
                           (handled, s2) \<Rightarrow>
                             (Inr True, wake (if r \<noteq> 0 \<or> handled then s2 else CheckIdle E idle_ready s2)))))"

definition ml_Run_start :: "PosixMainLoop \<Rightarrow> PosixMainLoop" where
  "ml_Run_start s = s\<lparr>ml_running := True\<rparr>"

text \<open>The loop of \<open>Run\<close>, for the results of the successive calls of \<open>poll\<close>.\<close>

fun ml_Run_loop ::
  "loop_env \<Rightarrow> (bool \<times> (int \<Rightarrow> revents)) list \<Rightarrow> PosixMainLoop \<Rightarrow> (exn + bool) \<times> PosixMainLoop" where
  "ml_Run_loop E polls s =
     (if \<not> ml_running s then (Inr False, s)
      else (case polls of
              [] \<Rightarrow> (Inr True, s)
            | (interrupted, poll) # rest \<Rightarrow>
                (case ml_iterate E interrupted poll s of
                   (Inr True, s1) \<Rightarrow> ml_Run_loop E rest s1
                 | r \<Rightarrow> r)))"

declare ml_Run_loop.simps [simp del]

definition ml_Run :: "loop_env \<Rightarrow> (bool \<times> (int \<Rightarrow> revents)) list \<Rightarrow> PosixMainLoop \<Rightarrow> (exn + bool) \<times> PosixMainLoop" where
  "ml_Run E polls s = ml_Run_loop E polls (ml_Run_start s)"

text \<open>The destructor, without the closing of the pipes.\<close>

definition PosixMainLoop_dtor :: "PosixMainLoop \<Rightarrow> PosixMainLoop" where
  "PosixMainLoop_dtor s =
     (let s1 = (if ml_running s then snd (ml_Quit s) else s);
          s2 = fold (\<lambda>(i, d). delete_timer (mcb_timer d)) (timeout_table s1) s1
      in s2\<lparr>timeout_table := [], watch_table := [], idle_table := [], timeout_pipe := [], idle_pipe := []\<rparr>)"

section \<open>Relations every part of a round respects\<close>

text \<open>
  The parts of a round before the idle queue change the loop only through the public operations,
  the record of calls, the pipe they read, the result stored in a watch and the renewal of a timer.
  A reflexive and transitive relation that holds across each of these holds across the parts.
\<close>

locale loop_relation =
  fixes E :: loop_env and R :: "PosixMainLoop \<Rightarrow> PosixMainLoop \<Rightarrow> bool"
  assumes refl: "R s s"
    and trans: "R s t \<Longrightarrow> R t u \<Longrightarrow> R s u"
    and op: "R s (run_loop_op E op s)"
    and calls: "R s (s\<lparr>ml_calls := c\<rparr>)"
    and pipe: "R s (s\<lparr>timeout_pipe := p\<rparr>)"
    and watch: "map_of (watch_table s) fd = Some d0 \<Longrightarrow> R s (s\<lparr>watch_table := omap_put fd (d0\<lparr>mcb_result := ev\<rparr>) (watch_table s)\<rparr>)"
    and again: "R s (snd (timeout_again E i s))"
begin

lemma ops: "R s (fold (run_loop_op E) xs s)"
  by (induction xs arbitrary: s) (auto intro: refl trans op)

lemma callback: "R s (snd (run_callback E r d s))"
  by (auto simp: run_callback_def Let_def split: prod.split intro: trans [OF calls ops])

lemma timeout: "R s (snd (handle_timeout E i s))"
proof (cases "map_of (timeout_table s) i")
  case (Some d)
  obtain res s1 where r: "run_callback E (mcb_result d) d s = (res, s1)" by fastforce
  then have "R s s1" using callback by (metis snd_conv)
  with Some r again [of s1 i] op [of s1 "OpRemoveTimeout i"] show ?thesis
    by (auto simp: handle_timeout_def intro: trans)
qed (simp add: handle_timeout_def refl)

lemma check_timeout: "R s (snd (check_timeout_loop E handled s))"
proof (induction "pipe_measure s" arbitrary: s handled rule: less_induct)
  case less
  show ?case
  proof (cases "timeout_pipe s")
    case Nil
    then show ?thesis by (subst check_timeout_loop.simps) (simp add: refl)
  next
    case (Cons i rest)
    define s0 where "s0 = s\<lparr>timeout_pipe := rest\<rparr>"
    obtain x s1 where h: "handle_timeout E i s0 = (x, s1)" by (cases "handle_timeout E i s0")
    have g: "R s s0" "R s s1" using pipe [of s rest] timeout [of s0 i] h by (auto simp: s0_def intro: trans)
    have "pipe_measure s1 < pipe_measure s"
      using handle_timeout_measure [of E i s0] h Cons by (auto simp: s0_def pipe_measure_def split: if_splits)
    with less g have "R s (snd (check_timeout_loop E b s1))" for b by (blast intro: trans)
    with g Cons h show ?thesis
      by (subst check_timeout_loop.simps) (auto simp: s0_def [symmetric] split: sum.split)
  qed
qed

lemma CheckTimeout: "R s (snd (CheckTimeout E b s))"
  by (simp add: CheckTimeout_def refl check_timeout)

lemma check_fd: "R s (snd (check_fd E fd rv (h, s)))"
proof (cases "map_of (watch_table s) fd")
  case None
  then show ?thesis by (simp add: check_fd_def refl)
next
  case (Some d0)
  define d where "d = (if rev_hup rv \<or> rev_err rv then d0\<lparr>mcb_result := (if rev_hup rv then HANGUP else ERROR)\<rparr> else d0)"
  define s1 where "s1 = s\<lparr>watch_table := omap_put fd d (watch_table s)\<rparr>"
  obtain res s2 where r: "run_callback E (mcb_result d) d s1 = (res, s2)" by fastforce
  have "d = d0\<lparr>mcb_result := mcb_result d\<rparr>" by (simp add: d_def)
  then have "R s s1" using watch [OF Some, of "mcb_result d"] by (simp add: s1_def)
  moreover have "R s1 s2" using callback [of s1 "mcb_result d" d] r by simp
  ultimately show ?thesis using Some r op [of s2 "OpRemoveWatch fd"] refl
    by (auto simp: check_fd_def Let_def d_def [symmetric] s1_def [symmetric] intro: trans)
qed

lemma CheckWatch: "R s (snd (CheckWatch E poll fds s))"
proof -
  have "R s (snd (fold (\<lambda>fd. check_fd E fd (poll fd)) fds (h, s)))" for h
  proof (induction fds arbitrary: h s)
    case (Cons fd fds)
    then show ?case using check_fd [of s fd "poll fd" h]
      by (cases "check_fd E fd (poll fd) (h, s)") (auto intro: trans)
  qed (simp add: refl)
  then show ?thesis by (simp add: CheckWatch_def)
qed

end

section \<open>No idle callback is forgotten\<close>

definition idle_grows :: "PosixMainLoop \<Rightarrow> PosixMainLoop \<Rightarrow> bool" where
  "idle_grows s t \<longleftrightarrow> (\<exists>p q. idle_pipe t = idle_pipe s @ p \<and> idle_table t = idle_table s @ q \<and>
     (q \<noteq> [] \<longrightarrow> PIPE_IDLE \<in> set p))"

lemma idle_grows_refl: "idle_grows s s"
  by (simp add: idle_grows_def)

lemma idle_grows_trans: "idle_grows s t \<Longrightarrow> idle_grows t u \<Longrightarrow> idle_grows s u"
  by (fastforce simp: idle_grows_def)

lemma idle_grows_same: "idle_pipe t = idle_pipe s \<Longrightarrow> idle_table t = idle_table s \<Longrightarrow> idle_grows s t"
  by (simp add: idle_grows_def)

lemma idle_grows_op: "idle_grows s (run_loop_op E op s)"
  by (cases op)
     (auto simp: idle_grows_def ml_AddIdle_def ml_AddWatch_def ml_RemoveWatch_def ml_Quit_def split: option.split)

lemma idle_grows_again: "idle_grows s (snd (timeout_again E i s))"
proof (cases "map_of (timeout_table s) i")
  case (Some d)
  obtain t u where st: "SetTimer E (mcb_interval d) i (delete_timer (mcb_timer d) s) = (t, u)" by fastforce
  have "idle_pipe u = idle_pipe s" "idle_table u = idle_table s"
    using SetTimer_pipe(3,4) [of E "mcb_interval d" i "delete_timer (mcb_timer d) s", unfolded st] by simp_all
  with Some st show ?thesis by (auto simp: timeout_again_def intro!: idle_grows_same)
qed (simp add: timeout_again_def idle_grows_refl)

interpretation idle_rel: loop_relation E idle_grows for E
  by unfold_locales
     (auto intro: idle_grows_refl idle_grows_trans idle_grows_op idle_grows_again idle_grows_same)

definition idle_ok :: "PosixMainLoop \<Rightarrow> bool" where
  "idle_ok s \<longleftrightarrow> (idle_table s \<noteq> [] \<longrightarrow> PIPE_IDLE \<in> set (idle_pipe s))"

lemma idle_ok_grows: "idle_grows s t \<Longrightarrow> idle_ok s \<Longrightarrow> idle_ok t"
  by (fastforce simp: idle_grows_def idle_ok_def)

lemma idle_ok_iterate:
  assumes "idle_ok s"
  shows "idle_ok (snd (ml_iterate E interrupted poll s))"
proof -
  obtain r s1 where t: "CheckTimeout E (timeout_pipe s \<noteq> []) s = (r, s1)" by fastforce
  then have g: "idle_ok s1" using idle_rel.CheckTimeout [of s E] idle_ok_grows assms by (metis snd_conv)
  obtain h s2 where w: "CheckWatch E poll (map fst (watch_table s)) s1 = (h, s2)" by fastforce
  show ?thesis
    using assms t g w by (auto simp: ml_iterate_def Let_def idle_ok_def split: sum.split)
qed

inductive ml_step :: "loop_env \<Rightarrow> PosixMainLoop \<Rightarrow> PosixMainLoop \<Rightarrow> bool" for E where
  step_thread: "ml_step E s (run_loop_op E op s)"
| step_timer: "ml_step E s (TimerHandler t s)"
| step_run: "ml_step E s (ml_Run_start s)"
| step_iterate: "ml_step E s (snd (ml_iterate E interrupted poll s))"

definition ml_init :: "PosixMainLoop \<Rightarrow> bool" where
  "ml_init s \<longleftrightarrow> (\<exists>n. TIMEOUT_START \<le> n \<and> s = PosixMainLoop_new n)"

interpretation idle: invariant_system ml_init "ml_step E" idle_ok for E
proof
  fix s t assume ok: "idle_ok s" and "ml_step E s t"
  from this(2) show "idle_ok t"
  proof cases
    case (step_thread op)
    then show ?thesis using ok idle_ok_grows [OF idle_grows_op] by simp
  qed (use ok idle_ok_iterate in \<open>auto simp: TimerHandler_def ml_Run_start_def idle_ok_def split: option.splits\<close>)
qed (auto simp: ml_init_def PosixMainLoop_new_def idle_ok_def)

section \<open>An idle callback runs\<close>

definition calm_env :: loop_env where
  "calm_env = \<lparr>le_callback = \<lambda>_ _. ([], AITT_LOOP_EVENT_REMOVE), le_timer_ok = \<lambda>_. True\<rparr>"

lemma reachable_start:
  "reachable ml_init (ml_step E) (fold (run_loop_op E) ops (ml_Run_start (PosixMainLoop_new TIMEOUT_START)))"
proof (induction ops rule: rev_induct)
  case Nil
  have "reachable ml_init (ml_step E) (PosixMainLoop_new TIMEOUT_START)"
    by (rule reachable.intros) (auto simp: ml_init_def)
  then show ?case by (auto intro: reachable.intros ml_step.step_run)
qed (auto intro: reachable.intros ml_step.step_thread)

definition quiet :: "bool \<times> (int \<Rightarrow> revents)" where
  "quiet = (False, \<lambda>fd. \<lparr>rev_in = False, rev_hup = False, rev_err = False\<rparr>)"

definition call_of :: "MainLoopCbData \<Rightarrow> loop_call" where
  "call_of d = LoopCall (mcb_cb d) (mcb_result d) (mcb_fd d) (mcb_data d)"

lemma CheckWatch_quiet [simp]: "CheckWatch E (snd quiet) fds s = (False, s)"
  by (induction fds) (auto simp: CheckWatch_def check_fd_def quiet_def revents_any_def)

lemma iterate_quiet:
  assumes "timeout_pipe s = []" and "idle_pipe s \<noteq> []"
  shows "ml_iterate E (fst quiet) (snd quiet) s =
    (Inr True, let t = CheckIdle E True s in if idle_table t \<noteq> [] then t\<lparr>idle_pipe := idle_pipe t @ [PIPE_IDLE]\<rparr> else t)"
  using assms by (auto simp: ml_iterate_def Let_def CheckTimeout_def) (auto simp: quiet_def)

lemma loop_op_calls [simp]: "ml_calls (run_loop_op E op s) = ml_calls s"
  by (cases op)
     (auto simp: ml_AddIdle_def ml_AddWatch_def ml_RemoveWatch_def ml_Quit_def ml_AddTimeout_def SetTimer_def
       ml_RemoveTimeout_def delete_timer_def Let_def split: option.split)

lemma loop_ops_calls [simp]: "ml_calls (fold (run_loop_op E) ops s) = ml_calls s"
  by (induction ops arbitrary: s) auto

lemma run_callback_calls [simp]: "ml_calls (snd (run_callback E (mcb_result d) d s)) = ml_calls s @ [call_of d]"
  by (auto simp: run_callback_def call_of_def Let_def split: prod.split)

lemma CheckIdle_calls:
  "idle_pipe s = PIPE_IDLE # p \<Longrightarrow> idle_table s = d # ds \<Longrightarrow> ml_calls (CheckIdle E True s) = ml_calls s @ [call_of d]"
  using run_callback_calls [of E d "s\<lparr>idle_pipe := p\<rparr>"]
  by (cases "run_callback E (mcb_result d) d (s\<lparr>idle_pipe := p\<rparr>)") (simp add: CheckIdle_def)

lemma quiet_rounds:
  assumes "ml_running s" and "timeout_pipe s = []" and "idle_table s = d # ds"
    and "idle_pipe s = pings @ PIPE_IDLE # p" and "PIPE_IDLE \<notin> set pings"
  shows "ml_calls (snd (ml_Run_loop E (replicate (Suc (length pings)) quiet) s)) = ml_calls s @ [call_of d]"
  using assms
proof (induction pings arbitrary: s p)
  case Nil
  then show ?case
    using iterate_quiet [of s E] CheckIdle_calls [of s p d ds E] by (simp add: ml_Run_loop.simps Let_def quiet_def)
next
  case (Cons i pings)
  define s1 where "s1 = s\<lparr>idle_pipe := pings @ PIPE_IDLE # p @ [PIPE_IDLE]\<rparr>"
  have "ml_iterate E (fst quiet) (snd quiet) s = (Inr True, s1)"
    using Cons.prems iterate_quiet [of s E] by (simp add: CheckIdle_def s1_def Let_def)
  then have "ml_Run_loop E (replicate (Suc (length (i # pings))) quiet) s = ml_Run_loop E (replicate (Suc (length pings)) quiet) s1"
    using Cons.prems(1) by (subst ml_Run_loop.simps) (simp add: quiet_def)
  then show ?case using Cons.IH [of s1 "p @ [PIPE_IDLE]"] Cons.prems by (simp add: s1_def)
qed

text \<open>C16. A running loop that has no timer event and no descriptor ready calls the first idle callback
  within as many rounds as the idle pipe holds tokens, and calls nothing before it.
\<close>

theorem idle_callback_runs:
  assumes "reachable ml_init (ml_step E) s" and "ml_running s" and "timeout_pipe s = []" and "idle_table s = d # ds"
  shows "\<exists>n \<le> length (idle_pipe s). ml_calls (snd (ml_Run_loop E (replicate n quiet) s)) = ml_calls s @ [call_of d]"
proof -
  have "PIPE_IDLE \<in> set (idle_pipe s)" using idle.reachable_inv assms by (auto simp: idle_ok_def)
  then obtain pings p where p: "idle_pipe s = pings @ PIPE_IDLE # p" "PIPE_IDLE \<notin> set pings"
    by (meson split_list_first)
  then show ?thesis using quiet_rounds [OF assms(2-4) p, of E] by (intro exI [of _ "Suc (length pings)"]) simp
qed

theorem idle_callback_runs_witness:
  "\<exists>n \<le> 2. ml_calls (snd (ml_Run_loop calm_env (replicate n quiet)
     (fold (run_loop_op calm_env) [OpAddWatch 5 1 0, OpAddIdle 7 9] (ml_Run_start (PosixMainLoop_new TIMEOUT_START))))) =
     [LoopCall 7 OKAY PIPE_IDLE 9]"
proof -
  define s where "s = fold (run_loop_op calm_env) [OpAddWatch 5 1 0, OpAddIdle 7 9] (ml_Run_start (PosixMainLoop_new TIMEOUT_START))"
  have s: "ml_running s" "timeout_pipe s = []" "idle_table s = [MainLoopCbData_new 7 9]" "length (idle_pipe s) = 2" "ml_calls s = []"
    by (simp_all add: s_def ml_Run_start_def PosixMainLoop_new_def ml_AddWatch_def ml_AddIdle_def)
  have reach: "reachable ml_init (ml_step calm_env) s" unfolding s_def by (rule reachable_start)
  obtain n where "n \<le> 2" "ml_calls (snd (ml_Run_loop calm_env (replicate n quiet) s)) = [call_of (MainLoopCbData_new 7 9)]"
    using idle_callback_runs [OF reach s(1-3)] s(4,5) by auto
  then show ?thesis unfolding s_def [symmetric] by (auto simp: MainLoopCbData_new_def call_of_def)
qed

section \<open>Quit\<close>

definition quit_stays :: "PosixMainLoop \<Rightarrow> PosixMainLoop \<Rightarrow> bool" where
  "quit_stays s t \<longleftrightarrow> (\<exists>p. timeout_pipe t = timeout_pipe s @ p) \<and> (ml_running t \<longrightarrow> ml_running s)"

lemma quit_stays_refl: "quit_stays s s"
  by (simp add: quit_stays_def)

lemma quit_stays_trans: "quit_stays s t \<Longrightarrow> quit_stays t u \<Longrightarrow> quit_stays s u"
  by (force simp: quit_stays_def)

lemma quit_stays_op: "quit_stays s (run_loop_op E op s)"
  by (cases op) (auto simp: quit_stays_def ml_AddIdle_def ml_AddWatch_def ml_RemoveWatch_def ml_Quit_def split: option.split)

lemma quit_stays_ops: "quit_stays s (fold (run_loop_op E) ops s)"
  by (induction ops arbitrary: s) (auto intro: quit_stays_refl quit_stays_trans quit_stays_op)

lemma quit_stays_callback: "quit_stays s (snd (run_callback E r d s))"
  using quit_stays_ops [of "s\<lparr>ml_calls := ml_calls s @ [LoopCall (mcb_cb d) r (mcb_fd d) (mcb_data d)]\<rparr>" E]
  by (auto simp: run_callback_def Let_def quit_stays_def split: prod.split)

lemma quit_stays_again: "quit_stays s (snd (timeout_again E i s))"
proof (cases "map_of (timeout_table s) i")
  case (Some d)
  obtain t u where st: "SetTimer E (mcb_interval d) i (delete_timer (mcb_timer d) s) = (t, u)" by fastforce
  then show ?thesis
    using Some SetTimer_pipe(1,2) [of E "mcb_interval d" i "delete_timer (mcb_timer d) s", unfolded st]
    by (simp add: timeout_again_def quit_stays_def)
qed (simp add: timeout_again_def quit_stays_refl)

lemma quit_stays_timeout: "quit_stays s (snd (handle_timeout E i s))"
proof (cases "map_of (timeout_table s) i")
  case (Some d)
  obtain res s1 where r: "run_callback E (mcb_result d) d s = (res, s1)" by fastforce
  then have "quit_stays s s1" using quit_stays_callback by (metis snd_conv)
  with Some r quit_stays_again [of s1 E i] quit_stays_op [of s1 E "OpRemoveTimeout i"] show ?thesis
    by (auto simp: handle_timeout_def intro: quit_stays_trans)
qed (simp add: handle_timeout_def quit_stays_refl)

abbreviation (input) timeout_gone :: exn where
  "timeout_gone \<equiv> UndefinedBehaviour ''timeout data used after delete''"

lemma handle_timeout_error: "handle_timeout E i s = (Inl e, t) \<Longrightarrow> e = timeout_gone"
  by (auto simp: handle_timeout_def timeout_again_def split: option.splits prod.splits if_splits)

lemma quit_ends_timeouts:
  "PIPE_QUIT \<in> set (timeout_pipe s) \<Longrightarrow> fst (check_timeout_loop E handled s) \<in> {Inr (- 1), Inl timeout_gone}"
proof (induction "pipe_measure s" arbitrary: s handled rule: less_induct)
  case less
  obtain i rest where p: "timeout_pipe s = i # rest" using less.prems by (cases "timeout_pipe s") auto
  define s0 where "s0 = s\<lparr>timeout_pipe := rest\<rparr>"
  obtain x s1 where h: "handle_timeout E i s0 = (x, s1)" by fastforce
  have m: "pipe_measure s1 < pipe_measure s"
    using handle_timeout_measure [of E i s0] h p by (auto simp: s0_def pipe_measure_def split: if_splits)
  show ?case
  proof (cases "i = PIPE_QUIT")
    case True
    then show ?thesis using p by (simp add: check_timeout_loop.simps [of E handled s])
  next
    case False
    then have "PIPE_QUIT \<in> set (timeout_pipe s1)"
      using quit_stays_timeout [of s0 E i] h less.prems p by (auto simp: s0_def quit_stays_def)
    then show ?thesis using less.hyps [OF m] p h False handle_timeout_error [of E i s0]
      by (subst check_timeout_loop.simps) (auto simp: s0_def [symmetric] split: sum.splits)
  qed
qed

text \<open>What other threads and timers do while the loop waits.\<close>

datatype outside = Thread loop_op | Expired nat

fun run_outside :: "loop_env \<Rightarrow> outside \<Rightarrow> PosixMainLoop \<Rightarrow> PosixMainLoop" where
  "run_outside E (Thread op) s = run_loop_op E op s"
| "run_outside E (Expired t) s = TimerHandler t s"

lemma quit_stays_outside: "quit_stays s (fold (run_outside E) xs s)"
proof (induction xs arbitrary: s)
  case (Cons x xs)
  have "quit_stays s (run_outside E x s)"
    using quit_stays_op by (cases x) (auto simp: TimerHandler_def quit_stays_def split: option.split)
  with Cons show ?case by (auto intro: quit_stays_trans)
qed (simp add: quit_stays_refl)

text \<open>C17. After a successful \<open>Quit\<close>, whatever other threads and timers do, \<open>Run\<close> ends: at the
  next test of its condition, and if it is already waiting in \<open>poll\<close>, at the end of the timeout
  events in front of the \<open>QUIT\<close>, without looking at the watches or the idle queue.
\<close>

theorem Quit_ends_Run:
  assumes "ml_Quit s = (True, s1)" and "t = fold (run_outside E) xs s1"
  shows "ml_Run_loop E polls t = (Inr False, t) \<and> fst (ml_iterate E False poll t) \<in> {Inr False, Inl timeout_gone}"
proof -
  have "PIPE_QUIT \<in> set (timeout_pipe t)" "\<not> ml_running t"
    using assms quit_stays_outside [of s1 E xs] by (auto simp: quit_stays_def ml_Quit_def split: if_splits)
  moreover from this(1) have "timeout_pipe t \<noteq> []" by auto
  ultimately show ?thesis using quit_ends_timeouts [of t E False]
    by (auto simp: ml_Run_loop.simps ml_iterate_def CheckTimeout_def Let_def split: prod.split)
qed

theorem Quit_ends_Run_witness:
  "ml_Run_loop calm_env [quiet] (fold (run_outside calm_env) [Thread (OpAddIdle 7 9), Expired 3]
     (snd (ml_Quit (ml_Run_start (PosixMainLoop_new TIMEOUT_START))))) =
   (Inr False, fold (run_outside calm_env) [Thread (OpAddIdle 7 9), Expired 3]
     (snd (ml_Quit (ml_Run_start (PosixMainLoop_new TIMEOUT_START)))))"
proof -
  have "ml_Quit (ml_Run_start (PosixMainLoop_new TIMEOUT_START)) = (True, snd (ml_Quit (ml_Run_start (PosixMainLoop_new TIMEOUT_START))))"
    by (simp add: ml_Quit_def ml_Run_start_def)
  from Quit_ends_Run [OF this refl] show ?thesis by blast
qed

text \<open>
  A \<open>Quit\<close> from a callback that \<open>Run\<close> is executing ends \<open>Run\<close> by its condition and leaves
  the \<open>QUIT\<close> in the pipe, so a later \<open>Run\<close> of the same loop ends in its first round.
\<close>

lemma stale_quit_ends_next_run:
  "ml_Run_loop \<lparr>le_callback = \<lambda>_ _. ([OpQuit], 0), le_timer_ok = \<lambda>_. True\<rparr> [quiet]
     (ml_Run_start (ml_AddIdle 7 0 (PosixMainLoop_new 2))) = (Inr False, s) \<Longrightarrow>
   fst (ml_Run E [quiet] s) = Inr False \<and> ml_running (snd (ml_Run E [quiet] s))"
  by (auto simp: ml_Run_loop.simps ml_Run_start_def ml_AddIdle_def PosixMainLoop_new_def MainLoopCbData_new_def quiet_def
      ml_iterate_def CheckTimeout_def check_timeout_loop.simps CheckWatch_def CheckIdle_def run_callback_def ml_Quit_def ml_Run_def)

text \<open>
  A round that a watch takes up leaves the idle callbacks where they are and writes one more token for
  them: while a descriptor stays readable the tokens pile up in the idle pipe, whose other end nobody
  reads then.  A pipe has a capacity, and the loop blocks in its own \<open>write\<close> when it is reached.
\<close>

lemma busy_watch_fills_idle_pipe:
  assumes "\<And>cs c. le_callback E cs c = ([], AITT_LOOP_EVENT_CONTINUE)" and "map fst (watch_table s) = [fd]"
    and "timeout_pipe s = []" and "idle_table s \<noteq> []" and "ml_running s"
  shows "\<exists>t. ml_Run_loop E (replicate n (False, \<lambda>_. \<lparr>rev_in = True, rev_hup = False, rev_err = False\<rparr>)) s = (Inr True, t) \<and>
    length (idle_pipe t) = length (idle_pipe s) + n \<and> idle_table t = idle_table s"
  using assms(2-5)
proof (induction n arbitrary: s)
  case (Suc n)
  then obtain d where d: "watch_table s = [(fd, d)]" by auto
  define s1 where "s1 = s\<lparr>ml_calls := ml_calls s @ [call_of d], idle_pipe := idle_pipe s @ [PIPE_IDLE]\<rparr>"
  have "ml_iterate E False (\<lambda>_. \<lparr>rev_in = True, rev_hup = False, rev_err = False\<rparr>) s = (Inr True, s1)"
    using Suc.prems d assms(1) by (simp add: ml_iterate_def CheckTimeout_def CheckWatch_def check_fd_def run_callback_def revents_any_def
        Let_def s1_def call_of_def)
  with Suc.IH [of s1] Suc.prems show ?case by (auto simp: ml_Run_loop.simps s1_def)
qed (simp add: ml_Run_loop.simps)

section \<open>Timers\<close>

text \<open>The timers and the entries of the timeout table that hold them are inverse to each other.\<close>

definition linked :: "('a \<Rightarrow> 'b option) \<Rightarrow> ('b \<Rightarrow> 'a option) \<Rightarrow> bool" where
  "linked f g \<longleftrightarrow> (\<forall>a b. f a = Some b \<longleftrightarrow> g b = Some a)"

lemma linked_del: "linked f g \<Longrightarrow> g b = Some a \<Longrightarrow> linked (f(a := None)) (g(b := None))"
  by (auto simp: linked_def) (metis option.inject)

lemma linked_del_none: "linked f g \<Longrightarrow> g b = None \<Longrightarrow> linked f (g(b := None))"
  by (auto simp: linked_def)

lemma linked_add: "linked f g \<Longrightarrow> f a = None \<Longrightarrow> g b = None \<Longrightarrow> linked (f(a \<mapsto> b)) (g(b \<mapsto> a))"
  by (auto simp: linked_def) (metis option.distinct(1))

definition below :: "('a::linorder \<Rightarrow> 'b option) \<Rightarrow> 'a \<Rightarrow> bool" where
  "below f n \<longleftrightarrow> (\<forall>a b. f a = Some b \<longrightarrow> a < n)"

lemma below_fresh: "below f n \<Longrightarrow> f n = None"
  by (metis below_def less_irrefl not_None_eq)

lemma below_update: "below f n \<Longrightarrow> n \<le> n' \<Longrightarrow> a < n' \<Longrightarrow> below (f(a := x)) n'"
  unfolding below_def by (metis fun_upd_apply less_le_trans)

lemma below_next:
  "below f n \<Longrightarrow> below (f(n \<mapsto> x)) (n + (1::int))" "below g k \<Longrightarrow> below (g(k \<mapsto> y)) (Suc k)" "below g k \<Longrightarrow> below g (Suc k)"
  by (auto simp: below_def less_Suc_eq)

lemma below_del: "below f n \<Longrightarrow> below (f(a := None)) n"
  unfolding below_def by (metis fun_upd_apply option.distinct(1))

definition timer_of :: "(int, MainLoopCbData) omap \<Rightarrow> int \<Rightarrow> nat option" where
  "timer_of m i = Option.bind (map_of m i) mcb_timer"

lemma timer_of_put: "timer_of (omap_put i d m) = (timer_of m)(i := mcb_timer d)"
  by (auto simp: timer_of_def)

lemma timer_of_del: "timer_of (omap_del i m) = (timer_of m)(i := None)"
  by (auto simp: timer_of_def)

definition timers_ok :: "PosixMainLoop \<Rightarrow> bool" where
  "timers_ok s \<longleftrightarrow> linked (map_of (ml_timers s)) (timer_of (timeout_table s)) \<and>
     below (map_of (timeout_table s)) (ml_next_timeout s) \<and> below (map_of (ml_timers s)) (ml_next_timer s)"

lemma timers_ok_same:
  "ml_timers t = ml_timers s \<Longrightarrow> timeout_table t = timeout_table s \<Longrightarrow> ml_next_timeout t = ml_next_timeout s \<Longrightarrow>
   ml_next_timer t = ml_next_timer s \<Longrightarrow> timers_ok s \<Longrightarrow> timers_ok t"
  by (simp add: timers_ok_def)

lemma SetTimer_cases:
  obtains u where "SetTimer E n i s = (None, u)" "ml_timers u = ml_timers s" "ml_next_timer u = ml_next_timer s + 1"
      "timeout_table u = timeout_table s" "ml_next_timeout u = ml_next_timeout s"
    | u where "SetTimer E n i s = (Some (ml_next_timer s), u)" "ml_timers u = omap_put (ml_next_timer s) i (ml_timers s)"
      "ml_next_timer u = ml_next_timer s + 1" "timeout_table u = timeout_table s" "ml_next_timeout u = ml_next_timeout s"
proof (cases "le_timer_ok E (ml_next_timer s)")
  case True
  then show thesis
    using that(2) [of "s\<lparr>ml_next_timer := ml_next_timer s + 1, ml_timers := omap_put (ml_next_timer s) i (ml_timers s)\<rparr>"]
    by (simp add: SetTimer_def Let_def)
next
  case False
  then show thesis
    using that(1) [of "s\<lparr>ml_next_timer := ml_next_timer s + 1\<rparr>"] by (simp add: SetTimer_def Let_def)
qed

lemma timers_ok_drop:
  assumes "timers_ok s" and "map_of (timeout_table s) i = Some d"
  shows "linked (map_of (ml_timers (delete_timer (mcb_timer d) s))) ((timer_of (timeout_table s))(i := None))"
    and "below (map_of (ml_timers (delete_timer (mcb_timer d) s))) (ml_next_timer s)"
proof -
  have "timer_of (timeout_table s) i = mcb_timer d" using assms(2) by (simp add: timer_of_def)
  then show "linked (map_of (ml_timers (delete_timer (mcb_timer d) s))) ((timer_of (timeout_table s))(i := None))"
    "below (map_of (ml_timers (delete_timer (mcb_timer d) s))) (ml_next_timer s)"
    using assms by (auto simp: delete_timer_def timers_ok_def below_del split: option.split intro: linked_del linked_del_none)
qed

lemma delete_timer_keeps [simp]:
  "timeout_table (delete_timer t s) = timeout_table s" "ml_next_timeout (delete_timer t s) = ml_next_timeout s"
  "ml_next_timer (delete_timer t s) = ml_next_timer s"
  by (simp_all add: delete_timer_def split: option.split)

lemma timers_ok_remove:
  assumes "timers_ok s"
  shows "timers_ok (ml_RemoveTimeout i s)"
proof (cases "map_of (timeout_table s) i")
  case (Some d)
  then show ?thesis using timers_ok_drop [OF assms Some] assms
    by (simp add: timers_ok_def ml_RemoveTimeout_def timer_of_del below_del)
qed (simp add: ml_RemoveTimeout_def assms)

lemma timers_ok_add:
  assumes "timers_ok s"
  shows "timers_ok (snd (ml_AddTimeout E n cb d s))"
proof (cases "n \<le> 0")
  case False
  have f: "map_of (timeout_table s) (ml_next_timeout s) = None" "map_of (ml_timers s) (ml_next_timer s) = None"
    using assms below_fresh by (auto simp: timers_ok_def)
  then have g: "timer_of (timeout_table s) (ml_next_timeout s) = None" by (simp add: timer_of_def)
  show ?thesis
    by (rule SetTimer_cases [of E n "ml_next_timeout s" s])
       (use assms False f g in \<open>simp_all add: ml_AddTimeout_def Let_def timers_ok_def omap_insert_def timer_of_put
         linked_add below_next\<close>)
qed (simp add: ml_AddTimeout_def assms)

lemma timers_ok_again:
  assumes "timers_ok s"
  shows "timers_ok (snd (timeout_again E i s))"
proof (cases "map_of (timeout_table s) i")
  case (Some d)
  let ?s = "delete_timer (mcb_timer d) s"
  have l: "linked (map_of (ml_timers ?s)) ((timer_of (timeout_table s))(i := None))"
    and b: "below (map_of (ml_timers ?s)) (ml_next_timer s)" using timers_ok_drop [OF assms Some] .
  have i: "i < ml_next_timeout s" "below (map_of (timeout_table s)) (ml_next_timeout s)"
    using assms Some by (auto simp: timers_ok_def below_def)
  have l2: "linked ((map_of (ml_timers ?s))(ml_next_timer s \<mapsto> i)) ((timer_of (timeout_table s))(i \<mapsto> ml_next_timer s))"
    using linked_add [OF l below_fresh [OF b], of i] by simp
  show ?thesis
    by (rule SetTimer_cases [of E "mcb_interval d" i ?s])
       (use Some l l2 b i in \<open>simp_all add: timeout_again_def timers_ok_def timer_of_put below_update below_next\<close>)
qed (simp add: timeout_again_def assms)

lemma timers_ok_op: "timers_ok s \<Longrightarrow> timers_ok (run_loop_op E op s)"
  by (cases op) (auto simp: ml_AddIdle_def ml_AddWatch_def ml_RemoveWatch_def ml_Quit_def timers_ok_add timers_ok_remove
      split: option.split intro: timers_ok_same)

interpretation timer_rel: loop_relation E "\<lambda>s t. timers_ok s \<longrightarrow> timers_ok t" for E
  by unfold_locales (auto simp: timers_ok_op timers_ok_again intro: timers_ok_same)

lemma timers_ok_CheckIdle:
  assumes "timers_ok s"
  shows "timers_ok (CheckIdle E b s)"
proof -
  have c: "timers_ok (u\<lparr>idle_table := x\<rparr>)" "timers_ok (u\<lparr>idle_pipe := x'\<rparr>)" if "timers_ok u" for u x x'
    using that by (auto intro: timers_ok_same)
  have "timers_ok u" if "run_callback E r d (s\<lparr>idle_pipe := p\<rparr>) = (v, u)" for r d p v u
    using timer_rel.callback [of "s\<lparr>idle_pipe := p\<rparr>" E r d] that c(2) [OF assms] by simp
  with assms show ?thesis
    by (auto simp: CheckIdle_def Let_def c split: list.split prod.split intro!: c)
qed

lemma timers_ok_iterate:
  assumes "timers_ok s"
  shows "timers_ok (snd (ml_iterate E interrupted poll s))"
proof -
  have c: "timers_ok (u\<lparr>idle_pipe := x\<rparr>)" if "timers_ok u" for u x
    using that by (auto intro: timers_ok_same)
  obtain r s1 where t: "CheckTimeout E (timeout_pipe s \<noteq> []) s = (r, s1)" by fastforce
  then have s1: "timers_ok s1" using timer_rel.CheckTimeout [of s E "timeout_pipe s \<noteq> []"] assms by simp
  obtain h s2 where w: "CheckWatch E poll (map fst (watch_table s)) s1 = (h, s2)" by fastforce
  then have "timers_ok s2" using timer_rel.CheckWatch [of s1 E poll "map fst (watch_table s)"] s1 by simp
  with assms s1 t w show ?thesis
    by (auto simp: ml_iterate_def Let_def timers_ok_CheckIdle split: sum.split intro!: c)
qed

interpretation timer: invariant_system ml_init "ml_step E" timers_ok for E
proof
  fix s t assume ok: "timers_ok s" and "ml_step E s t"
  from this(2) show "timers_ok t"
    by cases (use ok timers_ok_iterate timers_ok_op in
      \<open>auto simp: TimerHandler_def ml_Run_start_def split: option.splits intro: timers_ok_same\<close>)
qed (auto simp: ml_init_def PosixMainLoop_new_def timers_ok_def linked_def below_def timer_of_def)

text \<open>C18. A removed timeout never fires: in every reachable state, after \<open>RemoveTimeout\<close> no timer
  would report that identifier any more, and a report of it that is already in the pipe calls
  nothing; the other timeouts and their timers are as before.
\<close>

theorem RemoveTimeout_cancels:
  assumes "reachable ml_init (ml_step E) s"
  shows "(\<nexists>t. map_of (ml_timers (ml_RemoveTimeout i s)) t = Some i) \<and>
    handle_timeout E i (ml_RemoveTimeout i s) = (Inr (False, True), ml_RemoveTimeout i s) \<and>
    (j \<noteq> i \<longrightarrow> map_of (timeout_table (ml_RemoveTimeout i s)) j = map_of (timeout_table s) j \<and>
      (map_of (ml_timers (ml_RemoveTimeout i s)) t = Some j \<longleftrightarrow> map_of (ml_timers s) t = Some j))"
proof -
  let ?r = "ml_RemoveTimeout i s"
  have ok: "timers_ok s" using timer.reachable_inv assms by blast
  then have l: "linked (map_of (ml_timers ?r)) (timer_of (timeout_table ?r))" "linked (map_of (ml_timers s)) (timer_of (timeout_table s))"
    using timers_ok_remove [of s i] by (auto simp: timers_ok_def)
  have tab: "map_of (timeout_table ?r) = (map_of (timeout_table s))(i := None)"
    by (auto simp: ml_RemoveTimeout_def split: option.split)
  then have "timer_of (timeout_table ?r) = (timer_of (timeout_table s))(i := None)" by (auto simp: timer_of_def)
  with l tab show ?thesis by (auto simp: linked_def handle_timeout_def)
qed

theorem RemoveTimeout_cancels_witness:
  "handle_timeout calm_env 2
     (ml_RemoveTimeout 2 (fold (run_loop_op calm_env) [OpAddTimeout 100 7 9] (ml_Run_start (PosixMainLoop_new TIMEOUT_START)))) =
   (Inr (False, True),
     ml_RemoveTimeout 2 (fold (run_loop_op calm_env) [OpAddTimeout 100 7 9] (ml_Run_start (PosixMainLoop_new TIMEOUT_START))))"
  using RemoveTimeout_cancels [OF reachable_start] by blast

end
