(* ===== verification/GlibMainLoop_Model.thy ===== *)
theory GlibMainLoop_Model
  imports MainLoop_Model
begin

text \<open>
  The event loop of the builds with GLib, \<open>common/GlibMainLoop.cc\<close>, and the choice of the loop in
  \<open>common/MainLoopHandler.cc\<close>.

  GLib is a parameter: every call is recorded with its arguments, and what it returns (a pointer, an
  identifier, a truth value) is given by the environment from the calls before it.  GLib in turn calls
  the three static functions; they are operations.  The blocks \<open>new MainLoopCbData\<close> allocates are a
  map from addresses, and \<open>DestroyNotify\<close> removes one; using an address that holds none is undefined
  behaviour.
\<close>

unbundle bit_operations_syntax

record GlibCbData =
  gcb_cb :: nat
  gcb_data :: ptr
  gcb_result :: loop_event
  gcb_fd :: int
  gcb_ctx :: ptr

datatype ghandler = G_CallbackHandler | G_EventHandler

datatype gcall =
    G_main_context_new
  | G_main_context_unref ptr
  | G_main_context_find_source_by_id ptr nat
  | G_main_loop_new ptr
  | G_main_loop_unref ptr
  | G_main_loop_run ptr
  | G_main_loop_is_running ptr
  | G_main_loop_quit ptr
  | G_main_loop_get_context ptr
  | G_idle_source_new
  | G_timeout_source_new int
  | G_io_channel_unix_new int
  | G_io_create_watch ptr
  | G_source_set_priority_high ptr
  | G_source_set_callback ptr ghandler ptr
  | G_source_attach ptr ptr
  | G_source_unref ptr
  | G_source_destroy ptr

record glib_env =
  gl_ret :: "gcall list \<Rightarrow> gcall \<Rightarrow> nat"
  gl_callback :: "loop_call list \<Rightarrow> loop_call \<Rightarrow> loop_op list \<times> int"

record GlibMainLoop =
  gm_loop :: ptr
  callback_table :: "(int, ptr \<times> ptr) omap"
  gm_cb_data :: "(ptr, GlibCbData) omap"
  gm_next :: ptr
  gm_calls :: "gcall list"
  gm_app :: "loop_call list"

definition glib_call :: "glib_env \<Rightarrow> gcall \<Rightarrow> (GlibMainLoop, nat) act" where
  "glib_call G c = (\<lambda>s. (Inr (gl_ret G (gm_calls s) c), s\<lparr>gm_calls := gm_calls s @ [c]\<rparr>))"

lemma glib_call_run [act_simps]: "glib_call G c s = (Inr (gl_ret G (gm_calls s) c), s\<lparr>gm_calls := gm_calls s @ [c]\<rparr>)"
  by (simp add: glib_call_def)

section \<open>Operations\<close>

definition GlibMainLoop_ctor :: "glib_env \<Rightarrow> (GlibMainLoop, unit) act" where
  "GlibMainLoop_ctor G =
     bnd (glib_call G G_main_context_new) (\<lambda>ctx.
     if ctx = nullptr then raise (RuntimeError ''g_main_context_new() Fail'')
     else bnd (glib_call G (G_main_loop_new ctx)) (\<lambda>loop.
       if loop = nullptr
       then sq (glib_call G (G_main_context_unref ctx)) (raise (RuntimeError ''g_main_loop_new() Fail''))
       else sq (upd (\<lambda>s. s\<lparr>gm_loop := loop\<rparr>)) (sq (glib_call G (G_main_context_unref ctx)) (ret ()))))"

definition GlibMainLoop_dtor :: "glib_env \<Rightarrow> (GlibMainLoop, unit) act" where
  "GlibMainLoop_dtor G = bnd (rd gm_loop) (\<lambda>loop. sq (glib_call G (G_main_loop_unref loop)) (ret ()))"

definition glib_Run :: "glib_env \<Rightarrow> (GlibMainLoop, unit) act" where
  "glib_Run G = bnd (rd gm_loop) (\<lambda>loop. sq (glib_call G (G_main_loop_run loop)) (ret ()))"

definition glib_Quit :: "glib_env \<Rightarrow> (GlibMainLoop, bool) act" where
  "glib_Quit G =
     bnd (rd gm_loop) (\<lambda>loop.
     bnd (glib_call G (G_main_loop_is_running loop)) (\<lambda>running.
     if running = 0 then ret False else sq (glib_call G (G_main_loop_quit loop)) (ret True)))"

text \<open>\<open>new MainLoopCbData()\<close> with its fields set; the context is read before, which makes no difference.\<close>

definition new_cb_data :: "nat \<Rightarrow> ptr \<Rightarrow> int \<Rightarrow> ptr \<Rightarrow> (GlibMainLoop, ptr) act" where
  "new_cb_data cb data fd ctx =
     (\<lambda>s. (Inr (gm_next s),
           s\<lparr>gm_next := gm_next s + 1,
             gm_cb_data := omap_put (gm_next s)
               \<lparr>gcb_cb = cb, gcb_data = data, gcb_result = OKAY, gcb_fd = fd, gcb_ctx = ctx\<rparr> (gm_cb_data s)\<rparr>))"

definition glib_AddIdle :: "glib_env \<Rightarrow> nat \<Rightarrow> ptr \<Rightarrow> (GlibMainLoop, unit) act" where
  "glib_AddIdle G cb user_data =
     bnd (rd gm_loop) (\<lambda>loop. bnd (glib_call G (G_main_loop_get_context loop)) (\<lambda>ctx.
          bnd (new_cb_data cb user_data (- 1) ctx) (\<lambda>cb_data.
          bnd (glib_call G G_idle_source_new) (\<lambda>source.
          sq (glib_call G (G_source_set_priority_high source))
          (sq (glib_call G (G_source_set_callback source G_CallbackHandler cb_data))
          (sq (glib_call G (G_source_attach source ctx))
          (sq (glib_call G (G_source_unref source)) (ret ()))))))))"

definition glib_AddWatch :: "glib_env \<Rightarrow> int \<Rightarrow> nat \<Rightarrow> ptr \<Rightarrow> (GlibMainLoop, unit) act" where
  "glib_AddWatch G fd cb user_data =
     bnd (rd gm_loop) (\<lambda>loop. bnd (glib_call G (G_main_loop_get_context loop)) (\<lambda>ctx.
          bnd (new_cb_data cb user_data fd ctx) (\<lambda>cb_data.
          bnd (glib_call G (G_io_channel_unix_new fd)) (\<lambda>channel.
          bnd (glib_call G (G_io_create_watch channel)) (\<lambda>source.
          sq (glib_call G (G_source_set_callback source G_EventHandler cb_data))
          (sq (glib_call G (G_source_attach source ctx))
          (sq (glib_call G (G_source_unref source))
              (upd (\<lambda>s. s\<lparr>callback_table := omap_insert fd (source, cb_data) (callback_table s)\<rparr>)))))))))"

definition glib_RemoveWatch :: "glib_env \<Rightarrow> int \<Rightarrow> (GlibMainLoop, ptr) act" where
  "glib_RemoveWatch G fd =
     (\<lambda>s. case map_of (callback_table s) fd of
        None \<Rightarrow> (Inr nullptr, s)
      | Some (source, cb_data) \<Rightarrow>
          (case map_of (gm_cb_data s) cb_data of
             None \<Rightarrow> (Inl (UndefinedBehaviour ''callback data used after delete''), s)
           | Some c \<Rightarrow>
               sq (upd (\<lambda>s. s\<lparr>callback_table := omap_del fd (callback_table s)\<rparr>))
               (sq (glib_call G (G_source_destroy source)) (ret (gcb_data c))) s))"

definition glib_AddTimeout :: "glib_env \<Rightarrow> int \<Rightarrow> nat \<Rightarrow> ptr \<Rightarrow> (GlibMainLoop, nat) act" where
  "glib_AddTimeout G interval cb data =
     (if interval \<le> 0 then ret 0
      else bnd (rd gm_loop) (\<lambda>loop. bnd (glib_call G (G_main_loop_get_context loop)) (\<lambda>ctx.
          bnd (new_cb_data cb data (- 1) ctx) (\<lambda>cb_data.
          bnd (glib_call G (G_timeout_source_new interval)) (\<lambda>source.
          sq (glib_call G (G_source_set_callback source G_CallbackHandler cb_data))
          (bnd (glib_call G (G_source_attach source ctx)) (\<lambda>timer_id.
           sq (glib_call G (G_source_unref source)) (ret timer_id))))))))"

definition glib_RemoveTimeout :: "glib_env \<Rightarrow> nat \<Rightarrow> (GlibMainLoop, unit) act" where
  "glib_RemoveTimeout G timer_id =
     bnd (rd gm_loop) (\<lambda>loop. bnd (glib_call G (G_main_loop_get_context loop)) (\<lambda>ctx.
          bnd (glib_call G (G_main_context_find_source_by_id ctx timer_id)) (\<lambda>source.
          whenA (source \<noteq> nullptr) (sq (glib_call G (G_source_destroy source)) (ret ())))))"

section \<open>What GLib calls\<close>

text \<open>What a callback does to the loop before it returns; a timer identifier is an \<open>unsigned int\<close>.\<close>

fun glib_op :: "glib_env \<Rightarrow> loop_op \<Rightarrow> (GlibMainLoop, unit) act" where
  "glib_op G (OpAddIdle cb d) = glib_AddIdle G cb d"
| "glib_op G (OpAddWatch fd cb d) = glib_AddWatch G fd cb d"
| "glib_op G (OpRemoveWatch fd) = sq (glib_RemoveWatch G fd) (ret ())"
| "glib_op G (OpAddTimeout n cb d) = sq (glib_AddTimeout G n cb d) (ret ())"
| "glib_op G (OpRemoveTimeout i) = glib_RemoveTimeout G (nat (i mod 2 ^ 32))"
| "glib_op G OpQuit = sq (glib_Quit G) (ret ())"

definition glib_call_cb :: "glib_env \<Rightarrow> GlibCbData \<Rightarrow> (GlibMainLoop, int) act" where
  "glib_call_cb G c =
     (\<lambda>s. let k = LoopCall (gcb_cb c) (gcb_result c) (gcb_fd c) (gcb_data c) in
          case gl_callback G (gm_app s) k of
            (ops, r) \<Rightarrow> sq (forA ops (glib_op G)) (ret r) (s\<lparr>gm_app := gm_app s @ [k]\<rparr>))"

definition CallbackHandler :: "glib_env \<Rightarrow> ptr \<Rightarrow> (GlibMainLoop, int) act" where
  "CallbackHandler G user_data =
     (\<lambda>s. if user_data = nullptr then (Inr 0, s)
          else (case map_of (gm_cb_data s) user_data of
                  None \<Rightarrow> (Inl (UndefinedBehaviour ''callback data used after delete''), s)
                | Some c \<Rightarrow> glib_call_cb G c s))"

text \<open>\<open>ret &= cb(...)\<close> is a bitwise operation on \<open>int\<close>.\<close>

definition EventHandler :: "glib_env \<Rightarrow> bool \<Rightarrow> bool \<Rightarrow> ptr \<Rightarrow> (GlibMainLoop, int) act" where
  "EventHandler G hup err user_data =
     (\<lambda>s. if user_data = nullptr then (Inr 0, s)
          else (case map_of (gm_cb_data s) user_data of
                  None \<Rightarrow> (Inl (UndefinedBehaviour ''callback data used after delete''), s)
                | Some c0 \<Rightarrow>
                    let c = (if hup \<or> err then c0\<lparr>gcb_result := (if hup then HANGUP else ERROR)\<rparr> else c0) in
                    bnd (glib_call_cb G c) (\<lambda>r. ret ((if hup \<or> err then 0 else 1) AND r))
                      (s\<lparr>gm_cb_data := omap_put user_data c (gm_cb_data s)\<rparr>)))"

definition DestroyNotify :: "ptr \<Rightarrow> (GlibMainLoop, unit) act" where
  "DestroyNotify data =
     (\<lambda>s. case map_of (gm_cb_data s) data of
        None \<Rightarrow> (Inl (UndefinedBehaviour ''double delete''), s)
      | Some _ \<Rightarrow> (Inr (), s\<lparr>gm_cb_data := omap_del data (gm_cb_data s)\<rparr>))"

section \<open>The callback data of the watches\<close>

text \<open>
  An entry of the table is good while the data it points to is allocated.  The functions of the class
  never free anything: they rely on GLib, which calls \<open>DestroyNotify\<close> when it has destroyed a source.
\<close>

definition glib_ok :: "GlibMainLoop \<Rightarrow> bool" where
  "glib_ok s \<longleftrightarrow> (\<forall>fd source d. map_of (callback_table s) fd = Some (source, d) \<longrightarrow> map_of (gm_cb_data s) d \<noteq> None) \<and>
     (\<forall>d c. map_of (gm_cb_data s) d = Some c \<longrightarrow> d < gm_next s)"

definition glib_watches :: "GlibMainLoop \<Rightarrow> int \<rightharpoonup> ptr" where
  "glib_watches s fd =
     (case map_of (callback_table s) fd of
        None \<Rightarrow> None
      | Some (source, d) \<Rightarrow> map_option gcb_data (map_of (gm_cb_data s) d))"

definition glib_add :: "glib_env \<Rightarrow> int \<Rightarrow> nat \<Rightarrow> ptr \<Rightarrow> GlibMainLoop \<Rightarrow> GlibMainLoop" where
  "glib_add G fd cb d s = snd (glib_AddWatch G fd cb d s)"

lemma glib_ok_fresh: "glib_ok s \<Longrightarrow> map_of (gm_cb_data s) (gm_next s) = None"
  unfolding glib_ok_def by (meson less_irrefl not_None_eq)

lemma glib_ok_calls [simp]: "glib_ok (s\<lparr>gm_calls := x\<rparr>) = glib_ok s" "glib_ok (s\<lparr>gm_app := y\<rparr>) = glib_ok s"
  "glib_ok (s\<lparr>gm_loop := z\<rparr>) = glib_ok s"
  by (simp_all add: glib_ok_def)

lemma glib_ok_del: "glib_ok s \<Longrightarrow> glib_ok (s\<lparr>callback_table := omap_del fd (callback_table s)\<rparr>)"
  by (auto simp: glib_ok_def split: if_splits)

lemma preserves_glib_call [preserves_intros]: "preserves glib_ok (glib_call G c)"
  by (simp add: preserves_def act_simps)

lemma glib_ok_alive:
  assumes "glib_ok s" and "map_of (callback_table s) fd = Some (source, d)"
  obtains c where "map_of (gm_cb_data s) d = Some c"
  using assms unfolding glib_ok_def by fastforce

lemma glib_add_fields:
  "\<exists>source c. gcb_data c = d \<and> callback_table (glib_add G fd cb d s) = omap_insert fd (source, gm_next s) (callback_table s) \<and>
     gm_cb_data (glib_add G fd cb d s) = omap_put (gm_next s) c (gm_cb_data s) \<and>
     gm_next (glib_add G fd cb d s) = gm_next s + 1"
  unfolding glib_add_def glib_AddWatch_def new_cb_data_def act_simps by (simp add: act_simps) (intro exI conjI, auto)

lemma glib_add_law:
  assumes ok: "glib_ok s"
  shows "glib_ok (glib_add G fd cb d s) \<and> glib_watches (glib_add G fd cb d s) =
      (if glib_watches s fd = None then (glib_watches s)(fd \<mapsto> d) else glib_watches s)"
proof -
  obtain source c where run: "gcb_data c = d" "callback_table (glib_add G fd cb d s) = omap_insert fd (source, gm_next s) (callback_table s)"
    "gm_cb_data (glib_add G fd cb d s) = omap_put (gm_next s) c (gm_cb_data s)" "gm_next (glib_add G fd cb d s) = gm_next s + 1"
    using glib_add_fields [of d G fd cb s] by blast
  have new: "b \<noteq> gm_next s" if "map_of (callback_table s) k = Some (a, b)" for k a b
    using glib_ok_alive [OF ok that] glib_ok_fresh [OF ok] by fastforce
  have "glib_watches s fd = None \<longleftrightarrow> map_of (callback_table s) fd = None"
    using glib_ok_alive [OF ok, of fd] by (force simp: glib_watches_def split: option.splits)
  with new have "glib_watches (glib_add G fd cb d s) = (if glib_watches s fd = None then (glib_watches s)(fd \<mapsto> d) else glib_watches s)"
    using run by (auto simp: glib_watches_def map_of_omap_insert fun_eq_iff split: option.splits)
  moreover have "glib_ok (glib_add G fd cb d s)"
    using ok unfolding glib_ok_def run(2-4) by (auto simp: map_of_omap_insert less_SucI split: if_splits)
  ultimately show ?thesis by simp
qed

lemma glib_RemoveWatch_law:
  assumes ok: "glib_ok s"
  shows "glib_ok (snd (glib_RemoveWatch G fd s)) \<and> glib_watches (snd (glib_RemoveWatch G fd s)) = (glib_watches s)(fd := None) \<and>
      fst (glib_RemoveWatch G fd s) = Inr (case glib_watches s fd of None \<Rightarrow> nullptr | Some d \<Rightarrow> d)"
proof (cases "map_of (callback_table s) fd")
  case None
  with ok show ?thesis by (auto simp: glib_RemoveWatch_def glib_watches_def fun_eq_iff)
next
  case (Some e)
  obtain source d where e: "e = (source, d)" by (cases e)
  obtain c where c: "map_of (gm_cb_data s) d = Some c" using glib_ok_alive [OF ok] Some e by blast
  with Some e glib_ok_del [OF ok, of fd] show ?thesis
    by (auto simp: glib_RemoveWatch_def glib_watches_def act_simps fun_eq_iff split: option.split)
qed

interpretation glib_iface: watch_table glib_ok glib_watches "glib_add G" "glib_RemoveWatch G" for G
  by unfold_locales (fact glib_add_law, fact glib_RemoveWatch_law)

section \<open>Every operation and every call of GLib\<close>

lemma preserves_new_cb_data [preserves_intros]: "preserves glib_ok (new_cb_data cb data fd ctx)"
  by (auto simp: preserves_def new_cb_data_def glib_ok_def less_SucI)

lemma preserves_AddWatch [preserves_intros]: "preserves glib_ok (glib_AddWatch G fd cb d)"
  using glib_add_law by (simp add: preserves_def glib_add_def)

lemma preserves_RemoveWatch [preserves_intros]: "preserves glib_ok (glib_RemoveWatch G fd)"
  using glib_RemoveWatch_law by (simp add: preserves_def)

lemma preserves_glib_ops [preserves_intros]:
  "preserves glib_ok (glib_AddIdle G cb d)" "preserves glib_ok (glib_AddTimeout G n cb d)"
  "preserves glib_ok (glib_RemoveTimeout G i)" "preserves glib_ok (glib_Quit G)" "preserves glib_ok (glib_Run G)"
  unfolding glib_AddIdle_def glib_AddTimeout_def glib_RemoveTimeout_def glib_Quit_def glib_Run_def
  by (intro preserves_intros)+

lemma preserves_glib_op [preserves_intros]: "preserves glib_ok (glib_op G op)"
  by (cases op) (auto intro!: preserves_intros)

lemma preserves_glib_call_cb [preserves_intros]: "preserves glib_ok (glib_call_cb G c)"
proof (rule preservesI)
  fix s assume "glib_ok s"
  then have "glib_ok (s\<lparr>gm_app := x\<rparr>)" for x by simp
  moreover have "preserves glib_ok (sq (forA ops (glib_op G)) (ret r))" for ops and r :: int
    by (intro preserves_intros)
  ultimately have "glib_ok (snd (sq (forA ops (glib_op G)) (ret r) (s\<lparr>gm_app := x\<rparr>)))" for ops x and r :: int
    by (blast dest: preservesD)
  then show "glib_ok (snd (glib_call_cb G c s))"
    by (simp add: glib_call_cb_def Let_def split: prod.split)
qed

lemma preserves_CallbackHandler: "preserves glib_ok (CallbackHandler G d)"
  by (rule preservesI) (auto simp: CallbackHandler_def split: option.split dest: preservesD [OF preserves_glib_call_cb])

lemma glib_ok_put: "glib_ok s \<Longrightarrow> map_of (gm_cb_data s) d = Some c \<Longrightarrow> glib_ok (s\<lparr>gm_cb_data := omap_put d c' (gm_cb_data s)\<rparr>)"
  by (auto simp: glib_ok_def)

lemma preserves_EventHandler: "preserves glib_ok (EventHandler G hup err d)"
proof (rule preservesI)
  fix s assume ok: "glib_ok s"
  have "preserves glib_ok (bnd (glib_call_cb G c) (\<lambda>r. ret (f r)))" for c and f :: "int \<Rightarrow> int" by (intro preserves_intros)
  then have "glib_ok (snd (bnd (glib_call_cb G c) (\<lambda>r. ret (f r)) (s\<lparr>gm_cb_data := omap_put d c (gm_cb_data s)\<rparr>)))"
    if "map_of (gm_cb_data s) d = Some c0" for c c0 and f :: "int \<Rightarrow> int"
    using glib_ok_put [OF ok that] by (blast dest: preservesD)
  with ok show "glib_ok (snd (EventHandler G hup err d s))"
    by (simp add: EventHandler_def Let_def split: option.split)
qed

lemma DestroyNotify_ok:
  assumes "glib_ok s" and "\<forall>fd source. map_of (callback_table s) fd \<noteq> Some (source, d)"
  shows "glib_ok (snd (DestroyNotify d s))"
  using assms by (auto simp: DestroyNotify_def glib_ok_def split: option.split)

text \<open>
  What happens to the loop: its operations, the handlers GLib calls, and \<open>DestroyNotify\<close> for data that no watch
  uses any more.  GLib documents that it destroys the callback data of a source once the source is
  destroyed; a watch is destroyed by \<open>RemoveWatch\<close>, which takes it out of the table first.
\<close>

inductive glib_step :: "glib_env \<Rightarrow> GlibMainLoop \<Rightarrow> GlibMainLoop \<Rightarrow> bool" for G where
  g_op: "glib_step G s (snd (glib_op G op s))"
| g_run: "glib_step G s (snd (glib_Run G s))"
| g_callback: "glib_step G s (snd (CallbackHandler G d s))"
| g_event: "glib_step G s (snd (EventHandler G hup err d s))"
| g_destroy: "\<forall>fd source. map_of (callback_table s) fd \<noteq> Some (source, d) \<Longrightarrow> glib_step G s (snd (DestroyNotify d s))"

definition glib_init :: "glib_env \<Rightarrow> GlibMainLoop \<Rightarrow> bool" where
  "glib_init G s \<longleftrightarrow> GlibMainLoop_ctor G \<lparr>gm_loop = nullptr, callback_table = [], gm_cb_data = [], gm_next = 1, gm_calls = [], gm_app = []\<rparr>
     = (Inr (), s)"

interpretation glib: invariant_system "glib_init G" "glib_step G" glib_ok for G
proof
  fix s assume "glib_init G s"
  then show "glib_ok s"
    by (auto simp: glib_init_def GlibMainLoop_ctor_def act_simps glib_ok_def split: if_splits)
next
  fix s t assume ok: "glib_ok s" and "glib_step G s t"
  from this(2) ok show "glib_ok t"
    by cases (auto intro: preservesD [OF preserves_glib_op] preservesD [OF preserves_glib_ops(5)]
        preservesD [OF preserves_CallbackHandler] preservesD [OF preserves_EventHandler] DestroyNotify_ok)
qed

section \<open>Which loop a build uses\<close>

datatype MainLoop = Posix PosixMainLoop | Glib GlibMainLoop

definition new_loop :: "bool \<Rightarrow> glib_env \<Rightarrow> int \<Rightarrow> exn + MainLoop" where
  "new_loop USE_GLIB G next_timeout =
     (if USE_GLIB
      then (case GlibMainLoop_ctor G \<lparr>gm_loop = nullptr, callback_table = [], gm_cb_data = [], gm_next = 1, gm_calls = [], gm_app = []\<rparr> of
              (Inl e, _) \<Rightarrow> Inl e
            | (Inr _, s) \<Rightarrow> Inr (Glib s))
      else Inr (Posix (PosixMainLoop_new next_timeout)))"

text \<open>
  A watch whose descriptor reports a hangup or an error: the handler returns \<open>FALSE\<close> whatever the
  callback wants, GLib destroys the source and the callback data with it, and the table keeps the
  entry.  The next \<open>RemoveWatch\<close> of the descriptor reads the freed data.
\<close>

lemma ended_watch_reads_freed:
  assumes "map_of (callback_table s) fd = Some (source, d)" and "map_of (gm_cb_data s) d = Some c" and "d \<noteq> nullptr"
    and "gl_callback G = (\<lambda>_ _. ([], want))" and "hup \<or> err"
    and "EventHandler G hup err d s = (r, t)" and "DestroyNotify d t = (r', u)"
  shows "r = Inr 0 \<and> glib_RemoveWatch G fd u = (Inl (UndefinedBehaviour ''callback data used after delete''), u)"
  using assms
  by (auto simp: EventHandler_def glib_call_cb_def DestroyNotify_def glib_RemoveWatch_def act_simps Let_def split: prod.splits if_splits)

section \<open>Property\<close>

text \<open>C19. The two event loops are interchangeable for their clients: from states with the same watches, in every state
  the GLib loop can reach while watches are ended by \<open>RemoveWatch\<close> only, every sequence of \<open>AddWatch\<close> and \<open>RemoveWatch\<close> returns
  the same on both, which is what a map from descriptors to the user data added first returns.\<close>

theorem loops_agree:
  assumes "reachable (glib_init G) (glib_step G) s" and "posix_watches p = glib_watches s"
  shows "watch_outputs (glib_add G) (glib_RemoveWatch G) s ops = watch_outputs ml_AddWatch posix_remove p ops \<and>
     watch_outputs (glib_add G) (glib_RemoveWatch G) s ops = spec_outputs (posix_watches p) ops"
  using glib_iface.outputs_spec [OF glib.reachable_inv [OF assms(1)], of G ops] posix_iface.outputs_spec [of p ops] assms(2)
  by simp

definition sample_glib :: glib_env where
  "sample_glib = \<lparr>gl_ret = (\<lambda>_ _. 1), gl_callback = (\<lambda>_ _. ([], AITT_LOOP_EVENT_CONTINUE))\<rparr>"

theorem loops_agree_witness:
  "\<exists>s. reachable (glib_init sample_glib) (glib_step sample_glib) s \<and>
     watch_outputs (glib_add sample_glib) (glib_RemoveWatch sample_glib) s [WRemove 7, WAdd 7 2 9, WAdd 7 3 8, WRemove 7, WRemove 7] =
     [Inr nullptr, Inr 9, Inr nullptr]"
proof -
  define s where "s = snd (GlibMainLoop_ctor sample_glib
     \<lparr>gm_loop = nullptr, callback_table = [], gm_cb_data = [], gm_next = 1, gm_calls = [], gm_app = []\<rparr>)"
  have s: "glib_init sample_glib s" "glib_watches s = Map.empty"
    by (auto simp: s_def glib_init_def GlibMainLoop_ctor_def act_simps sample_glib_def glib_watches_def fun_eq_iff)
  then have r: "reachable (glib_init sample_glib) (glib_step sample_glib) s" by (intro reachable_init)
  have "posix_watches (PosixMainLoop_new 2) = glib_watches s"
    using s(2) by (simp add: posix_watches_def PosixMainLoop_new_def fun_eq_iff)
  from loops_agree [OF r this, of "[WRemove 7, WAdd 7 2 9, WAdd 7 3 8, WRemove 7, WRemove 7]"] r s(2) show ?thesis
    by (auto simp: posix_watches_def PosixMainLoop_new_def)
qed

end
