(* ===== verification/RTSP_Model.thy ===== *)
theory RTSP_Model
  imports AittDiscovery_Model "HOL-Library.Signed_Division"
begin

text \<open>
  The RTSP stream module: \<open>modules/rtsp/RTSPInfo.cc\<close>, \<open>modules/rtsp/RTSPClient.cc\<close> and
  \<open>modules/rtsp/Module.cc\<close>.

  The media player and the GLib main loop are not part of the sources: the calls the client makes
  are recorded in order, and the environment gives the result of a call from the calls before it.
  The callbacks the player and the loop make are operations of their own.  A callback of the
  application is a number, and its calls are recorded as events.
\<close>

section \<open>RTSPInfo\<close>

record RTSPInfo =
  ri_uri :: string
  ri_id :: string
  ri_password :: string

definition RTSPInfo_new :: RTSPInfo where
  "RTSPInfo_new = \<lparr>ri_uri = [], ri_id = [], ri_password = []\<rparr>"

definition info_SetURI :: "string \<Rightarrow> RTSPInfo \<Rightarrow> RTSPInfo" where
  "info_SetURI uri i = i\<lparr>ri_uri := uri\<rparr>"

definition info_SetID :: "string \<Rightarrow> RTSPInfo \<Rightarrow> RTSPInfo" where
  "info_SetID ident i = i\<lparr>ri_id := ident\<rparr>"

definition info_SetPassword :: "string \<Rightarrow> RTSPInfo \<Rightarrow> RTSPInfo" where
  "info_SetPassword password i = i\<lparr>ri_password := password\<rparr>"

declare info_SetURI_def [simp] info_SetID_def [simp] info_SetPassword_def [simp]

definition GetCompleteURI :: "RTSPInfo \<Rightarrow> exn + string" where
  "GetCompleteURI i =
     (if ri_id i \<noteq> [] \<and> ri_password i \<noteq> []
      then str_insert (ri_uri i) 7 (ri_id i @ '':'' @ ri_password i @ ''@'')
      else Inr (ri_uri i))"

section \<open>RTSPClient\<close>

datatype player_call =
    PlayerCreate
  | PlayerSetInterruptedCb
  | PlayerDestroy
  | PlayerSetDisplay ptr
  | PlayerSetUri string
  | PlayerGetState
  | PlayerPrepareAsync
  | PlayerStart
  | PlayerStop
  | PlayerCaptureVideo
  | GTimeoutAdd "32 word"
  | GSourceRemove "32 word"

datatype player_state = PLAYER_STATE_NONE | PLAYER_STATE_IDLE | PLAYER_STATE_READY | PLAYER_STATE_PLAYING | PLAYER_STATE_PAUSED

record player_env =
  pe_ret :: "player_call list \<Rightarrow> player_call \<Rightarrow> int"
  pe_state :: "player_call list \<Rightarrow> player_state"
  pe_source :: "player_call list \<Rightarrow> 32 word"

abbreviation (input) PLAYER_ERROR_NONE :: int where "PLAYER_ERROR_NONE \<equiv> 0"

record RTSPClient =
  rc_is_start :: bool
  rc_player :: bool
  rc_display :: ptr
  rc_fps :: int
  rc_source :: "32 word"
  rc_receive_cb :: "nat option \<times> ptr"
  rc_state_cb :: "nat option \<times> ptr"
  rc_calls :: "player_call list"

definition client_SetReceiveCallback :: "nat \<Rightarrow> ptr \<Rightarrow> RTSPClient \<Rightarrow> RTSPClient" where
  "client_SetReceiveCallback cb user_data c = c\<lparr>rc_receive_cb := (Some cb, user_data)\<rparr>"

definition client_UnsetReceiveCallback :: "RTSPClient \<Rightarrow> RTSPClient" where
  "client_UnsetReceiveCallback c = c\<lparr>rc_receive_cb := (None, nullptr)\<rparr>"

definition client_SetStateCallback :: "nat \<Rightarrow> ptr \<Rightarrow> RTSPClient \<Rightarrow> RTSPClient" where
  "client_SetStateCallback cb user_data c = c\<lparr>rc_state_cb := (Some cb, user_data)\<rparr>"

definition client_UnsetStateCallback :: "RTSPClient \<Rightarrow> RTSPClient" where
  "client_UnsetStateCallback c = c\<lparr>rc_state_cb := (None, nullptr)\<rparr>"

declare client_SetReceiveCallback_def [simp] client_UnsetReceiveCallback_def [simp]
  client_SetStateCallback_def [simp] client_UnsetStateCallback_def [simp]

definition player :: "player_env \<Rightarrow> player_call \<Rightarrow> (RTSPClient, int) act" where
  "player E c = (\<lambda>s. (Inr (pe_ret E (rc_calls s) c), s\<lparr>rc_calls := rc_calls s @ [c]\<rparr>))"

definition g_source_remove :: "(RTSPClient, unit) act" where
  "g_source_remove = upd (\<lambda>s. s\<lparr>rc_calls := rc_calls s @ [GSourceRemove (rc_source s)]\<rparr>)"

text \<open>The object before its constructor body; the pointer to the player is set by \<open>player_create\<close>.\<close>

definition RTSPClient_init :: RTSPClient where
  "RTSPClient_init =
     \<lparr>rc_is_start = False, rc_player = False, rc_display = nullptr, rc_fps = 2, rc_source = 0,
      rc_receive_cb = (None, nullptr), rc_state_cb = (None, nullptr), rc_calls = []\<rparr>"

definition RTSPClient_ctor :: "player_env \<Rightarrow> (RTSPClient, unit) act" where
  "RTSPClient_ctor E =
     bnd (player E PlayerCreate) (\<lambda>r.
     if r \<noteq> PLAYER_ERROR_NONE then raise (RuntimeError ''player_create() Fail'')
     else sq (upd (\<lambda>s. s\<lparr>rc_player := True\<rparr>))
         (bnd (player E PlayerSetInterruptedCb) (\<lambda>r.
          if r \<noteq> PLAYER_ERROR_NONE then raise (RuntimeError ''player_set_interrupted_cb() Fail'') else ret ())))"

definition RTSPClient_dtor :: "player_env \<Rightarrow> (RTSPClient, unit) act" where
  "RTSPClient_dtor E = sq g_source_remove (sq (player E PlayerDestroy) (ret ()))"

definition SetFPS :: "int \<Rightarrow> (RTSPClient, unit) act" where
  "SetFPS fps = upd (\<lambda>s. s\<lparr>rc_fps := fps\<rparr>)"

definition SetDisplay :: "player_env \<Rightarrow> ptr \<Rightarrow> (RTSPClient, unit) act" where
  "SetDisplay E display =
     (\<lambda>s. if \<not> rc_player s \<or> display = nullptr \<or> rc_is_start s then (Inr (), s)
          else sq (upd (\<lambda>s. s\<lparr>rc_display := nullptr\<rparr>))
              (bnd (player E (PlayerSetDisplay display)) (\<lambda>r.
               whenA (r = PLAYER_ERROR_NONE) (upd (\<lambda>s. s\<lparr>rc_display := display\<rparr>)))) s)"

definition client_SetURI :: "player_env \<Rightarrow> string \<Rightarrow> (RTSPClient, unit) act" where
  "client_SetURI E uri =
     (\<lambda>s. if \<not> rc_player s \<or> uri = [] \<or> rc_is_start s then (Inr (), s)
          else sq (player E (PlayerSetUri uri)) (ret ()) s)"

text \<open>The interval \<open>1000 / fps\<close>: integer division, undefined for zero, converted to \<open>guint\<close>.\<close>

definition add_capture_timeout :: "player_env \<Rightarrow> (RTSPClient, unit) act" where
  "add_capture_timeout E =
     (\<lambda>s. if rc_fps s = 0 then (Inl (UndefinedBehaviour ''division by zero''), s)
          else let c = GTimeoutAdd (word_of_int (1000 sdiv rc_fps s))
               in (Inr (), s\<lparr>rc_source := pe_source E (rc_calls s), rc_calls := rc_calls s @ [c]\<rparr>))"

definition start_player :: "player_env \<Rightarrow> (RTSPClient, bool) act" where
  "start_player E =
     bnd (player E PlayerStart) (\<lambda>r.
     if r \<noteq> PLAYER_ERROR_NONE then ret False else sq (add_capture_timeout E) (ret True))"

definition PlayerPreparedCB :: "player_env \<Rightarrow> (RTSPClient, unit) act" where
  "PlayerPreparedCB E = (\<lambda>s. if \<not> rc_player s then (Inr (), s) else sq (start_player E) (ret ()) s)"

text \<open>\<open>TimeoutCB\<close> returns whether the timeout is kept.\<close>

definition TimeoutCB :: "player_env \<Rightarrow> (RTSPClient, bool) act" where
  "TimeoutCB E =
     (\<lambda>s. if \<not> rc_player s then (Inr False, s) else sq (player E PlayerCaptureVideo) (ret True) s)"

definition client_Start :: "player_env \<Rightarrow> (RTSPClient, unit) act" where
  "client_Start E =
     (\<lambda>s. if \<not> rc_player s \<or> rc_is_start s \<or> rc_display s = nullptr then (Inr (), s)
          else bnd (player E PlayerGetState) (\<lambda>r.
               if r \<noteq> PLAYER_ERROR_NONE then ret ()
               else bnd (case pe_state E (rc_calls s) of
                           PLAYER_STATE_IDLE \<Rightarrow> bnd (player E PlayerPrepareAsync) (\<lambda>r. ret (r = PLAYER_ERROR_NONE))
                         | PLAYER_STATE_READY \<Rightarrow> start_player E
                         | PLAYER_STATE_PAUSED \<Rightarrow> start_player E
                         | _ \<Rightarrow> ret False) (\<lambda>started.
                    whenA started (upd (\<lambda>s. s\<lparr>rc_is_start := True\<rparr>)))) s)"

definition client_Stop :: "player_env \<Rightarrow> (RTSPClient, unit) act" where
  "client_Stop E =
     (\<lambda>s. if \<not> rc_player s \<or> \<not> rc_is_start s then (Inr (), s)
          else sq (upd (\<lambda>s. s\<lparr>rc_is_start := False\<rparr>))
              (sq g_source_remove
              (sq (upd (\<lambda>s. s\<lparr>rc_source := 0\<rparr>)) (sq (player E PlayerStop) (ret ())))) s)"

section \<open>The module\<close>

datatype stream_event =
    StateChanged nat int ptr
  | Received nat ptr ptr

record RTSPModule =
  rm_topic :: string
  rm_role :: AittStreamRole
  rm_discovery_cb :: int
  rm_info :: RTSPInfo
  rm_client :: RTSPClient
  rm_server_state :: int
  rm_client_state :: int
  rm_state_cb :: "nat option \<times> ptr"
  rm_receive_cb :: "nat option \<times> ptr"
  rm_events :: "stream_event list"

type_synonym rtsp_world = "RTSPModule \<times> AittDiscovery"

record rtsp_env =
  re_mq :: mq_env
  re_fb :: flexbuf
  re_player :: player_env

definition on_rtsp :: "(RTSPModule, 'a) act \<Rightarrow> (rtsp_world, 'a) act" where
  "on_rtsp = zoom fst (\<lambda>m w. (m, snd w))"

definition on_client :: "(RTSPClient, 'a) act \<Rightarrow> (RTSPModule, 'a) act" where
  "on_client = zoom rm_client (\<lambda>c m. m\<lparr>rm_client := c\<rparr>)"

definition on_rtsp_disc :: "(AittDiscovery, 'a) act \<Rightarrow> (rtsp_world, 'a) act" where
  "on_rtsp_disc = zoom snd (\<lambda>d w. (fst w, d))"

lemma on_rtsp_run [act_simps]:
  "on_rtsp a w = (case a (fst w) of (r, m) \<Rightarrow> (r, (m, snd w)))"
  "on_rtsp_disc b w = (case b (snd w) of (r', d) \<Rightarrow> (r', (fst w, d)))"
  "on_client c m = (case c (rm_client m) of (r'', cl) \<Rightarrow> (r'', m\<lparr>rm_client := cl\<rparr>))"
  by (simp_all add: on_rtsp_def on_rtsp_disc_def on_client_def act_simps)

abbreviation (input) RTSP_DISCOVERY_CB :: nat where "RTSP_DISCOVERY_CB \<equiv> 6"
abbreviation (input) MODULE_RECEIVE_CB :: nat where "MODULE_RECEIVE_CB \<equiv> 1"
abbreviation (input) MODULE_STATE_CB :: nat where "MODULE_STATE_CB \<equiv> 2"

text \<open>The members are constructed before the body runs; the client's constructor may throw.\<close>

definition RTSPModule_ctor :: "rtsp_env \<Rightarrow> string \<Rightarrow> AittStreamRole \<Rightarrow> (AittDiscovery, RTSPModule) act" where
  "RTSPModule_ctor E topic role =
     (\<lambda>d. case RTSPClient_ctor (re_player E) RTSPClient_init of
        (Inl e, _) \<Rightarrow> (Inl e, d)
      | (Inr _, c) \<Rightarrow>
          bnd (AddDiscoveryCB topic RTSP_DISCOVERY_CB) (\<lambda>cb.
          ret \<lparr>rm_topic = topic, rm_role = role, rm_discovery_cb = cb, rm_info = RTSPInfo_new,
               rm_client = client_SetStateCallback MODULE_STATE_CB nullptr (client_SetReceiveCallback MODULE_RECEIVE_CB nullptr c),
               rm_server_state = AITT_STREAM_STATE_INIT, rm_client_state = AITT_STREAM_STATE_INIT,
               rm_state_cb = (None, nullptr), rm_receive_cb = (None, nullptr), rm_events = []\<rparr>) d)"

text \<open>The entry point of the library, and the getters, which know nothing of the player.\<close>

definition rtsp_AITT_STREAM_NEW :: "rtsp_env \<Rightarrow> string \<Rightarrow> AittStreamRole \<Rightarrow> (AittDiscovery, RTSPModule) act" where
  "rtsp_AITT_STREAM_NEW E topic role = RTSPModule_ctor E topic role"

definition rtsp_GetFormat :: "RTSPModule \<Rightarrow> string" where
  "rtsp_GetFormat m = []"

definition rtsp_GetWidth :: "RTSPModule \<Rightarrow> int" where
  "rtsp_GetWidth m = 0"

definition rtsp_GetHeight :: "RTSPModule \<Rightarrow> int" where
  "rtsp_GetHeight m = 0"

definition RTSPModule_dtor :: "rtsp_env \<Rightarrow> (rtsp_world, unit) act" where
  "RTSPModule_dtor E =
     sq (on_rtsp (on_client (upd (\<lambda>c. client_UnsetStateCallback (client_UnsetReceiveCallback c)))))
     (sq (\<lambda>w. on_rtsp_disc (RemoveDiscoveryCB (rm_discovery_cb (fst w))) w)
         (on_rtsp (on_client (RTSPClient_dtor (re_player E)))))"

definition rtsp_SetConfig :: "string \<Rightarrow> string \<Rightarrow> (RTSPModule, unit) act" where
  "rtsp_SetConfig key value =
     (\<lambda>m. case rm_role m of
        AITT_STREAM_ROLE_PUBLISHER \<Rightarrow>
          if key = ''URI''
          then if str_find value ''rtsp://'' 0 \<noteq> Some 0 then (Inl (AittException INVALID_ARG), m)
               else (Inr (), m\<lparr>rm_info := info_SetURI value (rm_info m)\<rparr>)
          else if key = ''ID'' then (Inr (), m\<lparr>rm_info := info_SetID value (rm_info m)\<rparr>)
          else if key = ''Password'' then (Inr (), m\<lparr>rm_info := info_SetPassword value (rm_info m)\<rparr>)
          else (Inr (), m)
      | AITT_STREAM_ROLE_SUBSCRIBER \<Rightarrow>
          if key = ''FPS''
          then (case stoi value of
                  Inl _ \<Rightarrow> (Inl (AittException INVALID_ARG), m)
                | Inr fps \<Rightarrow> on_client (SetFPS fps) m)
          else (Inr (), m))"

definition rtsp_SetConfig_obj :: "rtsp_env \<Rightarrow> string \<Rightarrow> ptr \<Rightarrow> (RTSPModule, unit) act" where
  "rtsp_SetConfig_obj E key obj =
     (\<lambda>m. if rm_role m = AITT_STREAM_ROLE_SUBSCRIBER \<and> key = ''display''
          then on_client (SetDisplay (re_player E) obj) m else (Inr (), m))"

definition UpdateState :: "AittStreamRole \<Rightarrow> int \<Rightarrow> RTSPModule \<Rightarrow> RTSPModule" where
  "UpdateState role state m =
     (let m1 = (if role = AITT_STREAM_ROLE_PUBLISHER then m\<lparr>rm_server_state := state\<rparr> else m\<lparr>rm_client_state := state\<rparr>)
      in if role = rm_role m
         then (case fst (rm_state_cb m) of
                 None \<Rightarrow> m1
               | Some n \<Rightarrow> m1\<lparr>rm_events := rm_events m1 @ [StateChanged n state (snd (rm_state_cb m))]\<rparr>)
         else m1)"

abbreviation upd_state :: "AittStreamRole \<Rightarrow> int \<Rightarrow> (RTSPModule, unit) act" where
  "upd_state role state \<equiv> upd (UpdateState role state)"

definition rtsp_fb :: "int \<Rightarrow> RTSPInfo \<Rightarrow> fb" where
  "rtsp_fb server_state info =
     FbMap [(''server_state'', FbInt server_state), (''URI'', FbString (ri_uri info)),
            (''ID'', FbString (ri_id info)), (''Password'', FbString (ri_password info))]"

definition rtsp_UpdateDiscoveryMsg :: "rtsp_env \<Rightarrow> (rtsp_world, unit) act" where
  "rtsp_UpdateDiscoveryMsg E =
     (\<lambda>w. if rm_role (fst w) = AITT_STREAM_ROLE_SUBSCRIBER then (Inr (), w)
          else on_rtsp_disc (UpdateDiscoveryMsg (re_mq E) (re_fb E) (rm_topic (fst w))
                 (fb_finish (re_fb E) (rtsp_fb (rm_server_state (fst w)) (rm_info (fst w))))) w)"

definition rtsp_Start :: "rtsp_env \<Rightarrow> (rtsp_world, unit) act" where
  "rtsp_Start E =
     (\<lambda>w. case rm_role (fst w) of
        AITT_STREAM_ROLE_PUBLISHER \<Rightarrow>
          sq (on_rtsp (upd_state AITT_STREAM_ROLE_PUBLISHER AITT_STREAM_STATE_READY)) (rtsp_UpdateDiscoveryMsg E) w
      | AITT_STREAM_ROLE_SUBSCRIBER \<Rightarrow>
          if rm_server_state (fst w) = AITT_STREAM_STATE_READY
          then on_rtsp (sq (on_client (client_Start (re_player E)))
                           (upd_state AITT_STREAM_ROLE_SUBSCRIBER AITT_STREAM_STATE_PLAYING)) w
          else on_rtsp (upd_state AITT_STREAM_ROLE_SUBSCRIBER AITT_STREAM_STATE_READY) w)"

definition rtsp_Stop :: "rtsp_env \<Rightarrow> (rtsp_world, unit) act" where
  "rtsp_Stop E =
     (\<lambda>w. case rm_role (fst w) of
        AITT_STREAM_ROLE_PUBLISHER \<Rightarrow>
          sq (on_rtsp (upd_state AITT_STREAM_ROLE_PUBLISHER AITT_STREAM_STATE_INIT)) (rtsp_UpdateDiscoveryMsg E) w
      | AITT_STREAM_ROLE_SUBSCRIBER \<Rightarrow>
          on_rtsp (sq (whenA (rm_client_state (fst w) = AITT_STREAM_STATE_PLAYING) (on_client (client_Stop (re_player E))))
                      (upd_state AITT_STREAM_ROLE_SUBSCRIBER AITT_STREAM_STATE_INIT)) w)"

definition rtsp_Push :: "ptr \<Rightarrow> int" where
  "rtsp_Push obj = error_code AITT_ERROR_NOT_SUPPORTED"

text \<open>\<open>AsString().c_str()\<close> given to a \<open>const std::string &\<close> ends at the first NUL.\<close>

definition c_str :: "string \<Rightarrow> string" where
  "c_str s = takeWhile (\<lambda>c. c \<noteq> CHR 0x00) s"

definition read_info :: "flexbuf \<Rightarrow> fb \<Rightarrow> RTSPInfo" where
  "read_info F v =
     \<lparr>ri_uri = c_str (fb_as_string F (fb_lookup F v ''URI'')), ri_id = c_str (fb_as_string F (fb_lookup F v ''ID'')),
      ri_password = c_str (fb_as_string F (fb_lookup F v ''Password''))\<rparr>"

text \<open>What the subscriber does once the state of the server is known.\<close>

definition follow_server :: "rtsp_env \<Rightarrow> (RTSPModule, unit) act" where
  "follow_server E =
     (\<lambda>m. if rm_server_state m = AITT_STREAM_STATE_READY
          then whenA (rm_client_state m = AITT_STREAM_STATE_READY)
                 (sq (on_client (client_Start (re_player E)))
                     (upd_state AITT_STREAM_ROLE_SUBSCRIBER AITT_STREAM_STATE_PLAYING)) m
          else whenA (rm_server_state m = AITT_STREAM_STATE_INIT \<and> rm_client_state m = AITT_STREAM_STATE_PLAYING)
                 (sq (on_client (client_Stop (re_player E)))
                     (upd_state AITT_STREAM_ROLE_SUBSCRIBER AITT_STREAM_STATE_READY)) m)"

definition rtsp_DiscoveryMessageCallback ::
  "rtsp_env \<Rightarrow> string \<Rightarrow> string \<Rightarrow> byte list \<Rightarrow> (RTSPModule, unit) act" where
  "rtsp_DiscoveryMessageCallback E clientId status msg =
     (\<lambda>m. if rm_role m = AITT_STREAM_ROLE_PUBLISHER then (Inr (), m)
          else if status = WILL_LEAVE_NETWORK
          then (if rm_client_state m = AITT_STREAM_STATE_PLAYING
                then sq (on_client (client_Stop (re_player E))) (upd_state (rm_role m) AITT_STREAM_STATE_READY) m
                else upd_state (rm_role m) AITT_STREAM_STATE_INIT m)
          else let map = fb_root (re_fb E) msg in
               if length (fb_as_map (re_fb E) map) \<noteq> 4 then (Inr (), m)
               else sq (upd_state AITT_STREAM_ROLE_PUBLISHER
                          (wrap32 (fb_as_int (re_fb E) (fb_lookup (re_fb E) map ''server_state''))))
                   (sq (upd (\<lambda>m. m\<lparr>rm_info := read_info (re_fb E) map\<rparr>))
                   (\<lambda>m. case GetCompleteURI (rm_info m) of
                      Inl e \<Rightarrow> (Inl e, m)
                    | Inr uri \<Rightarrow> sq (on_client (client_SetURI (re_player E) uri)) (follow_server E) m)) m)"

definition rtsp_SetStateCallback :: "nat option \<Rightarrow> ptr \<Rightarrow> RTSPModule \<Rightarrow> RTSPModule" where
  "rtsp_SetStateCallback cb user_data m =
     (if rm_role m = AITT_STREAM_ROLE_PUBLISHER then m else m\<lparr>rm_state_cb := (cb, user_data)\<rparr>)"

definition rtsp_SetReceiveCallback :: "nat option \<Rightarrow> ptr \<Rightarrow> RTSPModule \<Rightarrow> RTSPModule" where
  "rtsp_SetReceiveCallback cb user_data m =
     (if rm_role m = AITT_STREAM_ROLE_PUBLISHER then m else m\<lparr>rm_receive_cb := (cb, user_data)\<rparr>)"

text \<open>The callbacks of the player, through the lambdas the module gave the client.\<close>

definition PlayerInterruptedCB :: "RTSPModule \<Rightarrow> RTSPModule" where
  "PlayerInterruptedCB m =
     (if fst (rc_state_cb (rm_client m)) = None then m else UpdateState (rm_role m) AITT_STREAM_STATE_INIT m)"

definition VideoCapturedCB :: "ptr \<Rightarrow> RTSPModule \<Rightarrow> RTSPModule" where
  "VideoCapturedCB frame m =
     (if frame = nullptr \<or> fst (rc_receive_cb (rm_client m)) = None then m
      else case fst (rm_receive_cb m) of
             None \<Rightarrow> m
           | Some n \<Rightarrow> m\<lparr>rm_events := rm_events m @ [Received n frame (snd (rm_receive_cb m))]\<rparr>)"

section \<open>The session: what a started publisher makes a waiting subscriber do\<close>

lemma c_str_id: "CHR 0x00 \<notin> set s \<Longrightarrow> c_str s = s"
  by (auto simp: c_str_def takeWhile_eq_all_conv)

definition info_ok :: "RTSPInfo \<Rightarrow> bool" where
  "info_ok i \<longleftrightarrow> CHR 0x00 \<notin> set (ri_uri i) \<and> CHR 0x00 \<notin> set (ri_id i) \<and> CHR 0x00 \<notin> set (ri_password i)"

lemma rtsp_fb_wf: "fb_wf (rtsp_fb st info)"
  by (simp add: rtsp_fb_def)

lemma rtsp_fb_read:
  assumes "flexbuf_ok F" and "info_ok info"
  shows "length (fb_as_map F (fb_root F (fb_finish F (rtsp_fb st info)))) = 4"
    and "fb_as_int F (fb_lookup F (fb_root F (fb_finish F (rtsp_fb st info))) ''server_state'') = st"
    and "read_info F (fb_root F (fb_finish F (rtsp_fb st info))) = info"
proof -
  note F = flexbuf_okD [OF assms(1)]
  have root: "fb_root F (fb_finish F (rtsp_fb st info)) = fb_norm (rtsp_fb st info)" by (simp add: F rtsp_fb_wf)
  have lookup: "fb_lookup F (fb_norm (rtsp_fb st info)) k =
      (case map_of [(''server_state'', FbInt st), (''URI'', FbString (ri_uri info)), (''ID'', FbString (ri_id info)),
        (''Password'', FbString (ri_password info))] k of None \<Rightarrow> FbNull | Some v \<Rightarrow> fb_norm v)" for k
    unfolding rtsp_fb_def by (rule fb_lookup_norm [OF assms(1)]) simp
  show "length (fb_as_map F (fb_root F (fb_finish F (rtsp_fb st info)))) = 4"
    by (simp add: root) (simp add: rtsp_fb_def F)
  show "fb_as_int F (fb_lookup F (fb_root F (fb_finish F (rtsp_fb st info))) ''server_state'') = st"
    by (simp add: root lookup F)
  show "read_info F (fb_root F (fb_finish F (rtsp_fb st info))) = info"
    using assms(2) by (simp add: root read_info_def lookup F c_str_id info_ok_def)
qed

text \<open>A subscriber that receives the publisher's message knows its state and address, then follows it.\<close>

lemma rtsp_receive:
  assumes "flexbuf_ok (re_fb E)" and "info_ok info" and "int32_range st" and "GetCompleteURI info = Inr uri"
    and "rm_role m = AITT_STREAM_ROLE_SUBSCRIBER"
  shows "rtsp_DiscoveryMessageCallback E cid JOIN_NETWORK (fb_finish (re_fb E) (rtsp_fb st info)) m =
         sq (on_client (client_SetURI (re_player E) uri)) (follow_server E) (m\<lparr>rm_server_state := st, rm_info := info\<rparr>)"
  using assms
  by (simp add: rtsp_DiscoveryMessageCallback_def rtsp_fb_read Let_def act_simps UpdateState_def wrap32_id
      JOIN_NETWORK_def WILL_LEAVE_NETWORK_def)

lemma Start_advertises:
  assumes "rm_role p = AITT_STREAM_ROLE_PUBLISHER" and "rtsp_Start E (p, d) = (r, (p', d'))"
  shows "map_of (discovery_map d') (rm_topic p) =
         Some (fb_finish (re_fb E) (rtsp_fb AITT_STREAM_STATE_READY (rm_info p)))"
  using assms
  by (auto simp: rtsp_Start_def rtsp_UpdateDiscoveryMsg_def UpdateState_def UpdateDiscoveryMsg_def PublishDiscoveryMsg_def
      act_simps Let_def split: option.splits prod.splits)

text \<open>A player that accepts every call and has not been prepared yet.\<close>

definition idle_player :: "player_env \<Rightarrow> bool" where
  "idle_player P \<longleftrightarrow> (\<forall>cs c. pe_ret P cs c = PLAYER_ERROR_NONE) \<and> (\<forall>cs. pe_state P cs = PLAYER_STATE_IDLE)"


text \<open>A publisher and a waiting subscriber, over the sample codec and broker.\<close>

definition sample_player :: player_env where
  "sample_player = \<lparr>pe_ret = \<lambda>_ _. 0, pe_state = \<lambda>_. PLAYER_STATE_IDLE, pe_source = \<lambda>cs. word_of_nat (length cs)\<rparr>"

definition sample_rtsp :: "AittStreamRole \<Rightarrow> RTSPModule" where
  "sample_rtsp role =
     \<lparr>rm_topic = ''cam'', rm_role = role, rm_discovery_cb = 1,
      rm_info = (if role = AITT_STREAM_ROLE_PUBLISHER
                 then \<lparr>ri_uri = ''rtsp://10.0.0.2/live'', ri_id = ''admin'', ri_password = ''pw''\<rparr> else RTSPInfo_new),
      rm_client = \<lparr>rc_is_start = False, rc_player = True, rc_display = 9, rc_fps = 4, rc_source = 0, rc_receive_cb = (Some 1, 0),
                   rc_state_cb = (Some 2, 0), rc_calls = [PlayerCreate, PlayerSetInterruptedCb, PlayerSetDisplay 9]\<rparr>,
      rm_server_state = 0, rm_client_state = AITT_STREAM_STATE_READY, rm_state_cb = (Some 7, 8), rm_receive_cb = (None, 0), rm_events = []\<rparr>"

definition sample_rtsp_env :: rtsp_env where
  "sample_rtsp_env = \<lparr>re_mq = plain_env (\<lambda>_ _ _. []), re_fb = sample_flexbuf, re_player = sample_player\<rparr>"


section \<open>The client plays when the stream does\<close>

text \<open>
  The steps of a module: the calls of the application, the messages that publishers send and the
  news that a peer left, and the callbacks of the player and the loop, which come only after they
  were asked for.  An interruption of the player is not among them.
\<close>

definition published :: "rtsp_env \<Rightarrow> byte list \<Rightarrow> bool" where
  "published E msg \<longleftrightarrow> (\<exists>st info uri. msg = fb_finish (re_fb E) (rtsp_fb st info) \<and>
     st \<in> {AITT_STREAM_STATE_INIT, AITT_STREAM_STATE_READY} \<and> info_ok info \<and> GetCompleteURI info = Inr uri)"

inductive rtsp_step :: "rtsp_env \<Rightarrow> rtsp_world \<Rightarrow> rtsp_world \<Rightarrow> bool" for E where
  "on_rtsp (rtsp_SetConfig key value) w = (r, w') \<Longrightarrow> rtsp_step E w w'"
| "on_rtsp (rtsp_SetConfig_obj E key obj) w = (r, w') \<Longrightarrow> rtsp_step E w w'"
| "rtsp_Start E w = (r, w') \<Longrightarrow> rtsp_step E w w'"
| "rtsp_Stop E w = (r, w') \<Longrightarrow> rtsp_step E w w'"
| "published E msg \<Longrightarrow> on_rtsp (rtsp_DiscoveryMessageCallback E cid JOIN_NETWORK msg) w = (r, w') \<Longrightarrow> rtsp_step E w w'"
| "on_rtsp (rtsp_DiscoveryMessageCallback E cid WILL_LEAVE_NETWORK msg) w = (r, w') \<Longrightarrow> rtsp_step E w w'"
| "on_rtsp (upd (rtsp_SetStateCallback cb ud)) w = (r, w') \<Longrightarrow> rtsp_step E w w'"
| "on_rtsp (upd (rtsp_SetReceiveCallback cb ud)) w = (r, w') \<Longrightarrow> rtsp_step E w w'"
| "on_rtsp (upd (VideoCapturedCB frame)) w = (r, w') \<Longrightarrow> rtsp_step E w w'"
| "PlayerPrepareAsync \<in> set (rc_calls (rm_client (fst w))) \<Longrightarrow>
   on_rtsp (on_client (PlayerPreparedCB (re_player E))) w = (r, w') \<Longrightarrow> rtsp_step E w w'"
| "GTimeoutAdd n \<in> set (rc_calls (rm_client (fst w))) \<Longrightarrow>
   on_rtsp (on_client (TimeoutCB (re_player E))) w = (r', w') \<Longrightarrow> rtsp_step E w w'"

definition rtsp_inv :: "RTSPModule \<Rightarrow> bool" where
  "rtsp_inv m \<longleftrightarrow> rc_player (rm_client m) \<and>
     (rc_is_start (rm_client m) \<longrightarrow> rm_client_state m = AITT_STREAM_STATE_PLAYING) \<and>
     rm_client_state m \<in> {AITT_STREAM_STATE_INIT, AITT_STREAM_STATE_READY, AITT_STREAM_STATE_PLAYING} \<and>
     (rm_role m = AITT_STREAM_ROLE_PUBLISHER \<longrightarrow>
        rm_client_state m = AITT_STREAM_STATE_INIT \<and> rc_calls (rm_client m) = [PlayerCreate, PlayerSetInterruptedCb])"

abbreviation subscriber_inv :: "RTSPModule \<Rightarrow> bool" where
  "subscriber_inv m \<equiv> rtsp_inv m \<and> rm_role m = AITT_STREAM_ROLE_SUBSCRIBER"

lemma UpdateState_simps [simp]:
  "rm_role (UpdateState role st m) = rm_role m" "rm_client (UpdateState role st m) = rm_client m"
  "rm_client_state (UpdateState role st m) = (if role = AITT_STREAM_ROLE_PUBLISHER then rm_client_state m else st)"
  "rm_server_state (UpdateState role st m) = (if role = AITT_STREAM_ROLE_PUBLISHER then st else rm_server_state m)"
  by (simp_all add: UpdateState_def Let_def split: option.splits)

lemma client_Start_started:
  "client_Start P c = (r, c') \<Longrightarrow> (rc_is_start c' \<longrightarrow> rc_is_start c \<or> r = Inr ()) \<and> rc_player c' = rc_player c"
  by (auto simp: client_Start_def act_simps player_def start_player_def add_capture_timeout_def Let_def
      split: if_splits player_state.splits)

lemma client_Stop_stopped:
  "client_Stop P c = (r, c') \<Longrightarrow> rc_player c \<Longrightarrow> r = Inr () \<and> \<not> rc_is_start c' \<and> rc_player c'"
  by (auto simp: client_Stop_def act_simps player_def g_source_remove_def split: if_splits)

text \<open>The other calls leave alone whether the client is started.\<close>

definition keeps_start :: "(RTSPClient, 'a) act \<Rightarrow> bool" where
  "keeps_start a \<longleftrightarrow> (\<forall>c. rc_is_start (snd (a c)) = rc_is_start c \<and> rc_player (snd (a c)) = rc_player c)"

lemma client_keeps_start:
  "keeps_start (client_SetURI P uri)" "keeps_start (SetDisplay P x)" "keeps_start (SetFPS n)"
  "keeps_start (PlayerPreparedCB P)" "keeps_start (TimeoutCB P)"
  by (auto simp: keeps_start_def client_SetURI_def SetDisplay_def SetFPS_def PlayerPreparedCB_def TimeoutCB_def start_player_def
      add_capture_timeout_def player_def act_simps Let_def split: if_splits)

lemma on_client_inv: "keeps_start a \<Longrightarrow> preserves subscriber_inv (on_client a)"
proof (rule preservesI)
  fix m assume a: "keeps_start a" and m: "subscriber_inv m"
  obtain r c where c: "a (rm_client m) = (r, c)" by fastforce
  from a have "rc_is_start c = rc_is_start (rm_client m)" "rc_player c = rc_player (rm_client m)"
    unfolding keeps_start_def by (metis c snd_conv)+
  with m show "subscriber_inv (snd (on_client a m))" by (simp add: act_simps rtsp_inv_def c)
qed

lemma Start_client_inv:
  "preserves subscriber_inv (sq (on_client (client_Start P)) (upd_state AITT_STREAM_ROLE_SUBSCRIBER AITT_STREAM_STATE_PLAYING))"
proof (rule preservesI)
  fix m assume m: "subscriber_inv m"
  obtain r c where c: "client_Start P (rm_client m) = (r, c)" by fastforce
  from m client_Start_started [OF c] c show
    "subscriber_inv (snd (sq (on_client (client_Start P)) (upd_state AITT_STREAM_ROLE_SUBSCRIBER AITT_STREAM_STATE_PLAYING) m))"
    by (cases r) (auto simp: act_simps rtsp_inv_def)
qed

lemma Stop_client_inv:
  assumes "st \<in> {AITT_STREAM_STATE_INIT, AITT_STREAM_STATE_READY}"
  shows "preserves subscriber_inv (sq (on_client (client_Stop P)) (upd_state AITT_STREAM_ROLE_SUBSCRIBER st))"
proof (rule preservesI)
  fix m assume m: "subscriber_inv m"
  obtain r c where c: "client_Stop P (rm_client m) = (r, c)" by fastforce
  from m assms client_Stop_stopped [OF c] c show
    "subscriber_inv (snd (sq (on_client (client_Stop P)) (upd_state AITT_STREAM_ROLE_SUBSCRIBER st) m))"
    by (auto simp: act_simps rtsp_inv_def)
qed

lemma idle_state_inv:
  "subscriber_inv m \<Longrightarrow> rm_client_state m \<noteq> AITT_STREAM_STATE_PLAYING \<Longrightarrow>
   st \<in> {AITT_STREAM_STATE_INIT, AITT_STREAM_STATE_READY} \<Longrightarrow>
   subscriber_inv (UpdateState AITT_STREAM_ROLE_SUBSCRIBER st m)"
  by (auto simp: rtsp_inv_def)

lemma follow_server_inv: "preserves subscriber_inv (follow_server E)"
proof (rule preservesI)
  fix m assume "subscriber_inv m"
  with preservesD [OF Start_client_inv] preservesD [OF Stop_client_inv [of AITT_STREAM_STATE_READY]]
  show "subscriber_inv (snd (follow_server E m))" by (simp add: follow_server_def whenA_run)
qed

text \<open>After following the server the client plays only if the server is ready.\<close>

definition plays_ready :: "RTSPModule \<Rightarrow> bool" where
  "plays_ready m \<longleftrightarrow> (rm_client_state m = AITT_STREAM_STATE_PLAYING \<longrightarrow> rm_server_state m = AITT_STREAM_STATE_READY)"

lemma follow_server_plays:
  assumes "subscriber_inv m" and "rm_server_state m \<in> {AITT_STREAM_STATE_INIT, AITT_STREAM_STATE_READY}"
  shows "plays_ready (snd (follow_server E m))"
proof -
  obtain r c where c: "client_Stop (re_player E) (rm_client m) = (r, c)" by fastforce
  with assms client_Stop_stopped [OF c] show ?thesis
    by (auto simp: follow_server_def plays_ready_def act_simps rtsp_inv_def split: prod.splits sum.splits)
qed

lemma published_inv:
  assumes "flexbuf_ok (re_fb E)" and "published E msg" and "subscriber_inv m"
  shows "subscriber_inv (snd (rtsp_DiscoveryMessageCallback E cid JOIN_NETWORK msg m)) \<and>
         plays_ready (snd (rtsp_DiscoveryMessageCallback E cid JOIN_NETWORK msg m))"
proof -
  from assms(2) obtain st info uri where msg: "msg = fb_finish (re_fb E) (rtsp_fb st info)" "info_ok info"
    "st \<in> {AITT_STREAM_STATE_INIT, AITT_STREAM_STATE_READY}" "GetCompleteURI info = Inr uri"
    by (auto simp: published_def)
  define m1 where "m1 = m\<lparr>rm_server_state := st, rm_info := info\<rparr>"
  have m1: "subscriber_inv m1" using assms(3) by (simp add: m1_def rtsp_inv_def)
  obtain r m2 where m2: "on_client (client_SetURI (re_player E) uri) m1 = (r, m2)" by fastforce
  have "r = Inr ()" "rm_server_state m2 = st"
    using m2 by (auto simp: client_SetURI_def player_def act_simps m1_def split: if_splits)
  moreover from preservesD [OF on_client_inv [OF client_keeps_start(1)] m1, of "re_player E" uri] m2 have m2i: "subscriber_inv m2" by simp
  moreover have "int32_range st" using msg(3) by (auto simp: int32_range_def)
  ultimately have "rtsp_DiscoveryMessageCallback E cid JOIN_NETWORK msg m = follow_server E m2"
    using rtsp_receive [OF assms(1) msg(2) _ msg(4)] assms(3) m2 by (simp add: msg(1) m1_def sq_run)
  with preservesD [OF follow_server_inv m2i] follow_server_plays [OF m2i] \<open>rm_server_state m2 = st\<close> msg(3)
  show ?thesis by simp
qed

lemma leave_inv:
  assumes "subscriber_inv m"
  shows "subscriber_inv (snd (rtsp_DiscoveryMessageCallback E cid WILL_LEAVE_NETWORK msg m)) \<and>
         plays_ready (snd (rtsp_DiscoveryMessageCallback E cid WILL_LEAVE_NETWORK msg m))"
proof -
  obtain r c where c: "client_Stop (re_player E) (rm_client m) = (r, c)" by fastforce
  with assms client_Stop_stopped [OF c] show ?thesis
    by (auto simp: rtsp_DiscoveryMessageCallback_def act_simps rtsp_inv_def plays_ready_def)
qed

abbreviation plays_inv :: "RTSPModule \<Rightarrow> bool" where
  "plays_inv m \<equiv> subscriber_inv m \<and> plays_ready m"

lemma Start_inv: "plays_inv (fst w) \<Longrightarrow> rtsp_Start E w = (r, w') \<Longrightarrow> plays_inv (fst w')"
proof -
  assume w: "plays_inv (fst w)" and st: "rtsp_Start E w = (r, w')"
  obtain r' c where c: "client_Start (re_player E) (rm_client (fst w)) = (r', c)" by fastforce
  with w st client_Start_started [OF c] show "plays_inv (fst w')"
    by (cases r'; cases w') (auto simp: rtsp_Start_def act_simps rtsp_inv_def plays_ready_def split: if_splits)
qed

lemma Stop_inv: "plays_inv (fst w) \<Longrightarrow> rtsp_Stop E w = (r, w') \<Longrightarrow> plays_inv (fst w')"
proof -
  assume w: "plays_inv (fst w)" and st: "rtsp_Stop E w = (r, w')"
  obtain r' c where c: "client_Stop (re_player E) (rm_client (fst w)) = (r', c)" by fastforce
  with w st client_Stop_stopped [OF c] show "plays_inv (fst w')"
    by (cases w') (auto simp: rtsp_Stop_def act_simps rtsp_inv_def plays_ready_def split: if_splits)
qed

lemma on_client_plays: "keeps_start a \<Longrightarrow> preserves plays_inv (on_client a)"
  using on_client_inv [of a] by (auto simp: preserves_def act_simps plays_ready_def split: prod.splits)

lemma subscriber_calls_inv:
  "preserves plays_inv (rtsp_SetConfig k v)" "preserves plays_inv (rtsp_SetConfig_obj E k x)"
  "preserves plays_inv (upd (rtsp_SetStateCallback cb ud))" "preserves plays_inv (upd (rtsp_SetReceiveCallback cb ud))"
  "preserves plays_inv (upd (VideoCapturedCB fr))"
proof -
  show "preserves plays_inv (rtsp_SetConfig k v)"
    using preservesD [OF on_client_plays [OF client_keeps_start(3)]]
    by (intro preservesI) (auto simp: rtsp_SetConfig_def split: sum.splits)
  show "preserves plays_inv (rtsp_SetConfig_obj E k x)"
    using preservesD [OF on_client_plays [OF client_keeps_start(2)]]
    by (intro preservesI) (auto simp: rtsp_SetConfig_obj_def)
qed (auto simp: preserves_def act_simps rtsp_SetStateCallback_def rtsp_SetReceiveCallback_def VideoCapturedCB_def rtsp_inv_def
      plays_ready_def split: option.splits)

lemma on_rtsp_step: "on_rtsp a w = (r, w') \<Longrightarrow> fst w' = snd (a (fst w))"
  by (auto simp: act_simps split: prod.splits)

lemma subscriber_step:
  assumes "flexbuf_ok (re_fb E)" and "rtsp_step E w w'" and "plays_inv (fst w)"
  shows "plays_inv (fst w')"
  using assms(2)
proof cases
  case (1 k v r)
  with preservesD [OF subscriber_calls_inv(1) assms(3)] on_rtsp_step show ?thesis by metis
next
  case (2 key obj r)
  with preservesD [OF subscriber_calls_inv(2) assms(3)] on_rtsp_step show ?thesis by metis
next
  case (3 r)
  with Start_inv assms(3) show ?thesis by blast
next
  case (4 r)
  with Stop_inv assms(3) show ?thesis by blast
next
  case (5 msg cid r)
  with published_inv [OF assms(1) 5(1)] assms(3) on_rtsp_step [OF 5(2)] show ?thesis by simp
next
  case (6 cid msg r)
  with leave_inv assms(3) on_rtsp_step [OF 6] show ?thesis by simp
next
  case (7 cb ud r)
  with preservesD [OF subscriber_calls_inv(3) assms(3)] on_rtsp_step show ?thesis by metis
next
  case (8 cb ud r)
  with preservesD [OF subscriber_calls_inv(4) assms(3)] on_rtsp_step show ?thesis by metis
next
  case (9 frame r)
  with preservesD [OF subscriber_calls_inv(5) assms(3)] on_rtsp_step show ?thesis by metis
next
  case (10 r)
  with preservesD [OF on_client_plays [OF client_keeps_start(4)] assms(3)] on_rtsp_step show ?thesis by metis
next
  case (11 n r')
  with preservesD [OF on_client_plays [OF client_keeps_start(5)] assms(3)] on_rtsp_step show ?thesis by metis
qed

abbreviation publisher_inv :: "RTSPModule \<Rightarrow> bool" where
  "publisher_inv m \<equiv> rtsp_inv m \<and> rm_role m = AITT_STREAM_ROLE_PUBLISHER"

lemma publisher_step:
  assumes "rtsp_step E w w'" and "publisher_inv (fst w)"
  shows "publisher_inv (fst w')"
  using assms
  by cases (auto simp: rtsp_SetConfig_def rtsp_SetConfig_obj_def rtsp_Start_def rtsp_Stop_def rtsp_UpdateDiscoveryMsg_def
      rtsp_DiscoveryMessageCallback_def rtsp_SetStateCallback_def rtsp_SetReceiveCallback_def VideoCapturedCB_def act_simps
      rtsp_inv_def split: if_splits prod.splits option.splits)

definition rtsp_start :: "rtsp_env \<Rightarrow> rtsp_world \<Rightarrow> bool" where
  "rtsp_start E w \<longleftrightarrow> (\<exists>topic role d. RTSPModule_ctor E topic role d = (Inr (fst w), snd w))"

definition rtsp_world_inv :: "rtsp_world \<Rightarrow> bool" where
  "rtsp_world_inv w \<longleftrightarrow> publisher_inv (fst w) \<or> plays_inv (fst w)"

lemma rtsp_start_inv: "rtsp_start E w \<Longrightarrow> rtsp_world_inv w"
  by (cases "rm_role (fst w)"; cases w)
    (auto simp: rtsp_start_def rtsp_world_inv_def rtsp_inv_def plays_ready_def RTSPModule_ctor_def RTSPClient_ctor_def
      RTSPClient_init_def AddDiscoveryCB_def player_def act_simps Let_def split: if_splits)

interpretation rtsp: invariant_system "rtsp_start E" "\<lambda>w w'. flexbuf_ok (re_fb E) \<and> rtsp_step E w w'" rtsp_world_inv for E
proof
  fix w w' assume "rtsp_world_inv w" and "flexbuf_ok (re_fb E) \<and> rtsp_step E w w'"
  then show "rtsp_world_inv w'"
    unfolding rtsp_world_inv_def using publisher_step [of E w w'] subscriber_step [of E w w'] by blast
qed (rule rtsp_start_inv)



section \<open>Where the module does not follow the stream\<close>

text \<open>An interrupted player counts as started for ever: after stopping and starting the stream no call reaches it.\<close>

lemma interrupted_never_restarts:
  assumes "rm_role m = AITT_STREAM_ROLE_SUBSCRIBER" and "rc_is_start (rm_client m)"
    and "fst (rc_state_cb (rm_client m)) \<noteq> None" and "rm_server_state m = AITT_STREAM_STATE_READY"
  shows "\<exists>m'. sq (rtsp_Stop E) (rtsp_Start E) (PlayerInterruptedCB m, d) = (Inr (), (m', d)) \<and>
     rm_client_state m' = AITT_STREAM_STATE_PLAYING \<and> rc_calls (rm_client m') = rc_calls (rm_client m)"
  using assms by (auto simp: PlayerInterruptedCB_def rtsp_Stop_def rtsp_Start_def client_Start_def act_simps)

text \<open>Any peer that leaves the network stops the stream, whether it is the server or not.\<close>

lemma any_leaving_peer_stops:
  assumes "rm_role m = AITT_STREAM_ROLE_SUBSCRIBER" and "rm_client_state m = AITT_STREAM_STATE_PLAYING"
    and "rc_player (rm_client m)"
  shows "\<exists>m'. rtsp_DiscoveryMessageCallback E cid WILL_LEAVE_NETWORK msg m = (Inr (), m') \<and>
     rm_client_state m' = AITT_STREAM_STATE_READY \<and> \<not> rc_is_start (rm_client m')"
proof -
  obtain r c where c: "client_Stop (re_player E) (rm_client m) = (r, c)" by fastforce
  with assms client_Stop_stopped [OF c] show ?thesis
    by (auto simp: rtsp_DiscoveryMessageCallback_def act_simps)
qed

text \<open>A rate of zero frames is accepted and divided by.\<close>

lemma zero_fps_divides:
  assumes "rm_role m = AITT_STREAM_ROLE_SUBSCRIBER"
  shows "\<exists>m'. rtsp_SetConfig ''FPS'' ''0'' m = (Inr (), m') \<and>
    add_capture_timeout P (rm_client m') = (Inl (UndefinedBehaviour ''division by zero''), rm_client m')"
proof -
  have "stoi ''0'' = Inr 0" by code_simp
  with assms show ?thesis by (simp add: rtsp_SetConfig_def SetFPS_def add_capture_timeout_def act_simps)
qed

text \<open>An address shorter than the scheme, with a user and a password, makes \<open>insert\<close> throw.\<close>

lemma short_uri_throws: "GetCompleteURI \<lparr>ri_uri = [], ri_id = ''a'', ri_password = ''b''\<rparr> = Inl OutOfRange"
  by (simp add: GetCompleteURI_def str_insert_def)

end
