(* ===== verification/WebRtcStream_Model.thy ===== *)
theory WebRtcStream_Model
  imports AittDiscovery_Model
begin

text \<open>
  One WebRTC connection: the states of \<open>modules/webrtc/WebRtcState.cc\<close>, the checks of
  \<open>modules/webrtc/WebRtcMessage.cc\<close>, the event handler \<open>modules/webrtc/WebRtcEventHandler.h\<close> and
  \<open>modules/webrtc/WebRtcStream.cc\<close>.

  The WebRTC library is not part of the sources: the calls the class makes are recorded in order, and
  the environment gives the result of a call from the calls before it.  The library's callbacks are
  operations that return the events the event handler passes on.
\<close>

section \<open>WebRtcState\<close>

text \<open>The enumerations of the library, with any other value the type can hold.\<close>

datatype webrtc_state_e = WEBRTC_STATE_IDLE | WEBRTC_STATE_NEGOTIATING | WEBRTC_STATE_PLAYING | WEBRTC_STATE_other

datatype webrtc_signaling_state_e =
    WEBRTC_SIGNALING_STATE_STABLE | WEBRTC_SIGNALING_STATE_CLOSED | WEBRTC_SIGNALING_STATE_HAVE_LOCAL_OFFER
  | WEBRTC_SIGNALING_STATE_HAVE_REMOTE_OFFER | WEBRTC_SIGNALING_STATE_HAVE_LOCAL_PRANSWER
  | WEBRTC_SIGNALING_STATE_HAVE_REMOTE_PRANSWER | WEBRTC_SIGNALING_STATE_other

datatype webrtc_ice_gathering_state_e =
    WEBRTC_ICE_GATHERING_STATE_NEW | WEBRTC_ICE_GATHERING_STATE_GATHERING | WEBRTC_ICE_GATHERING_STATE_COMPLETE
  | WEBRTC_ICE_GATHERING_STATE_other

datatype webrtc_ice_connection_state_e =
    WEBRTC_ICE_CONNECTION_STATE_NEW | WEBRTC_ICE_CONNECTION_STATE_CHECKING | WEBRTC_ICE_CONNECTION_STATE_CONNECTED
  | WEBRTC_ICE_CONNECTION_STATE_COMPLETED | WEBRTC_ICE_CONNECTION_STATE_FAILED | WEBRTC_ICE_CONNECTION_STATE_DISCONNECTED
  | WEBRTC_ICE_CONNECTION_STATE_CLOSED | WEBRTC_ICE_CONNECTION_STATE_other

datatype webrtc_buffer_state_e = BUFFER_STATE_UNDERFLOW | BUFFER_STATE_OVERFLOW | BUFFER_STATE_other

datatype WebRtcState_Stream = Stream_IDLE | Stream_NEGOTIATING | Stream_PLAYING

datatype WebRtcState_Signaling =
    Signaling_STABLE | Signaling_CLOSED | Signaling_HAVE_LOCAL_OFFER | Signaling_HAVE_REMOTE_OFFER
  | Signaling_HAVE_LOCAL_PRANSWER | Signaling_HAVE_REMOTE_PRANSWER

datatype WebRtcState_IceGathering = IceGathering_NEW | IceGathering_GATHERING | IceGathering_COMPLETE

datatype WebRtcState_IceConnection =
    IceConnection_NEW | IceConnection_CHECKING | IceConnection_CONNECTED | IceConnection_COMPLETED
  | IceConnection_FAILED | IceConnection_DISCONNECTED | IceConnection_CLOSED

datatype WebRtcState_SourceBufferState = SourceBuffer_UNDERFLOW | SourceBuffer_OVERFLOW

fun ToStreamState :: "webrtc_state_e \<Rightarrow> WebRtcState_Stream" where
  "ToStreamState WEBRTC_STATE_IDLE = Stream_IDLE"
| "ToStreamState WEBRTC_STATE_NEGOTIATING = Stream_NEGOTIATING"
| "ToStreamState WEBRTC_STATE_PLAYING = Stream_PLAYING"
| "ToStreamState WEBRTC_STATE_other = Stream_IDLE"

fun StreamToStr :: "WebRtcState_Stream \<Rightarrow> string" where
  "StreamToStr Stream_IDLE = ''IDLE''"
| "StreamToStr Stream_NEGOTIATING = ''NEGOTIATING''"
| "StreamToStr Stream_PLAYING = ''PLAYING''"

fun ToSignalingState :: "webrtc_signaling_state_e \<Rightarrow> WebRtcState_Signaling" where
  "ToSignalingState WEBRTC_SIGNALING_STATE_STABLE = Signaling_STABLE"
| "ToSignalingState WEBRTC_SIGNALING_STATE_HAVE_LOCAL_OFFER = Signaling_HAVE_LOCAL_OFFER"
| "ToSignalingState WEBRTC_SIGNALING_STATE_HAVE_REMOTE_OFFER = Signaling_HAVE_REMOTE_OFFER"
| "ToSignalingState WEBRTC_SIGNALING_STATE_HAVE_LOCAL_PRANSWER = Signaling_HAVE_LOCAL_PRANSWER"
| "ToSignalingState WEBRTC_SIGNALING_STATE_HAVE_REMOTE_PRANSWER = Signaling_HAVE_REMOTE_PRANSWER"
| "ToSignalingState WEBRTC_SIGNALING_STATE_CLOSED = Signaling_CLOSED"
| "ToSignalingState WEBRTC_SIGNALING_STATE_other = Signaling_STABLE"

fun SignalingToStr :: "WebRtcState_Signaling \<Rightarrow> string" where
  "SignalingToStr Signaling_STABLE = ''STABLE''"
| "SignalingToStr Signaling_CLOSED = ''CLOSED''"
| "SignalingToStr Signaling_HAVE_LOCAL_OFFER = ''HAVE_LOCAL_OFFER''"
| "SignalingToStr Signaling_HAVE_REMOTE_OFFER = ''HAVE_REMOTE_OFFER''"
| "SignalingToStr Signaling_HAVE_LOCAL_PRANSWER = ''HAVE_LOCAL_PRANSWER''"
| "SignalingToStr Signaling_HAVE_REMOTE_PRANSWER = ''HAVE_REMOTE_PRANSWER''"

fun ToIceGatheringState :: "webrtc_ice_gathering_state_e \<Rightarrow> WebRtcState_IceGathering" where
  "ToIceGatheringState WEBRTC_ICE_GATHERING_STATE_COMPLETE = IceGathering_COMPLETE"
| "ToIceGatheringState WEBRTC_ICE_GATHERING_STATE_GATHERING = IceGathering_GATHERING"
| "ToIceGatheringState WEBRTC_ICE_GATHERING_STATE_NEW = IceGathering_NEW"
| "ToIceGatheringState WEBRTC_ICE_GATHERING_STATE_other = IceGathering_NEW"

fun IceGatheringToStr :: "WebRtcState_IceGathering \<Rightarrow> string" where
  "IceGatheringToStr IceGathering_NEW = ''NEW''"
| "IceGatheringToStr IceGathering_GATHERING = ''GATHERING''"
| "IceGatheringToStr IceGathering_COMPLETE = ''COMPLETE''"

fun ToIceConnectionState :: "webrtc_ice_connection_state_e \<Rightarrow> WebRtcState_IceConnection" where
  "ToIceConnectionState WEBRTC_ICE_CONNECTION_STATE_CHECKING = IceConnection_CHECKING"
| "ToIceConnectionState WEBRTC_ICE_CONNECTION_STATE_CLOSED = IceConnection_CLOSED"
| "ToIceConnectionState WEBRTC_ICE_CONNECTION_STATE_COMPLETED = IceConnection_COMPLETED"
| "ToIceConnectionState WEBRTC_ICE_CONNECTION_STATE_CONNECTED = IceConnection_CONNECTED"
| "ToIceConnectionState WEBRTC_ICE_CONNECTION_STATE_DISCONNECTED = IceConnection_DISCONNECTED"
| "ToIceConnectionState WEBRTC_ICE_CONNECTION_STATE_FAILED = IceConnection_FAILED"
| "ToIceConnectionState WEBRTC_ICE_CONNECTION_STATE_NEW = IceConnection_NEW"
| "ToIceConnectionState WEBRTC_ICE_CONNECTION_STATE_other = IceConnection_NEW"

fun IceConnectionToStr :: "WebRtcState_IceConnection \<Rightarrow> string" where
  "IceConnectionToStr IceConnection_NEW = ''NEW''"
| "IceConnectionToStr IceConnection_CHECKING = ''CHECKING''"
| "IceConnectionToStr IceConnection_CONNECTED = ''CONNECTED''"
| "IceConnectionToStr IceConnection_COMPLETED = ''COMPLETED''"
| "IceConnectionToStr IceConnection_FAILED = ''FAILED''"
| "IceConnectionToStr IceConnection_DISCONNECTED = ''DISCONNECTED''"
| "IceConnectionToStr IceConnection_CLOSED = ''CLOSED''"

fun ToSourceBufferState :: "webrtc_buffer_state_e \<Rightarrow> WebRtcState_SourceBufferState" where
  "ToSourceBufferState BUFFER_STATE_UNDERFLOW = SourceBuffer_UNDERFLOW"
| "ToSourceBufferState BUFFER_STATE_OVERFLOW = SourceBuffer_OVERFLOW"
| "ToSourceBufferState BUFFER_STATE_other = SourceBuffer_OVERFLOW"

fun SourceBufferStateToStr :: "WebRtcState_SourceBufferState \<Rightarrow> string" where
  "SourceBufferStateToStr SourceBuffer_UNDERFLOW = ''UNDERFLOW''"
| "SourceBufferStateToStr SourceBuffer_OVERFLOW = ''OVERFLOW''"

section \<open>WebRtcMessage\<close>

text \<open>The type tests of a FlexBuffers reference; \<open>IsVector\<close> holds of a map too.\<close>

definition IsString :: "fb \<Rightarrow> bool" where
  "IsString v \<longleftrightarrow> (case v of FbString _ \<Rightarrow> True | _ \<Rightarrow> False)"

definition IsMap :: "fb \<Rightarrow> bool" where
  "IsMap v \<longleftrightarrow> (case v of FbMap _ \<Rightarrow> True | _ \<Rightarrow> False)"

definition IsVector :: "fb \<Rightarrow> bool" where
  "IsVector v \<longleftrightarrow> (case v of FbVector _ \<Rightarrow> True | FbMap _ \<Rightarrow> True | _ \<Rightarrow> False)"

definition IsValidStream :: "flexbuf \<Rightarrow> fb \<Rightarrow> bool" where
  "IsValidStream F info \<longleftrightarrow>
     IsString (fb_lookup F info ''id'') \<and> IsString (fb_lookup F info ''peer_id'') \<and> IsString (fb_lookup F info ''sdp'')
     \<and> IsVector (fb_lookup F info ''ice_candidates'')"

definition IsValidStreamInfo :: "flexbuf \<Rightarrow> byte list \<Rightarrow> bool" where
  "IsValidStreamInfo F message \<longleftrightarrow> IsMap (fb_root F message) \<and> IsValidStream F (fb_root F message)"

text \<open>
  The JSON parser is a parameter: \<open>None\<close> when the text cannot be read, \<open>Some None\<close> when the root is
  no object, and otherwise the member names of the object.
\<close>

datatype WebRtcMessage_Type = Message_SDP | Message_ICE | Message_UNKNOWN

definition getMessageType :: "(string \<Rightarrow> string list option option) \<Rightarrow> string \<Rightarrow> WebRtcMessage_Type" where
  "getMessageType json message =
     (case json message of
        None \<Rightarrow> Message_UNKNOWN
      | Some None \<Rightarrow> Message_UNKNOWN
      | Some (Some members) \<Rightarrow>
          if ''sdp'' \<in> set members then Message_SDP
          else if ''ice'' \<in> set members then Message_ICE else Message_UNKNOWN)"

section \<open>The library\<close>

datatype source_type = WEBRTC_MEDIA_SOURCE_TYPE_NULL | WEBRTC_MEDIA_SOURCE_TYPE_CAMERA | WEBRTC_MEDIA_SOURCE_TYPE_MEDIA_PACKET

datatype codec = CODEC_VP8 | CODEC_VP9 | CODEC_H264

datatype mime = MEDIA_FORMAT_I420 | MEDIA_FORMAT_NV12 | MEDIA_FORMAT_VP8 | MEDIA_FORMAT_VP9 | MEDIA_FORMAT_H264_HP
  | MEDIA_FORMAT_MJPEG | MEDIA_FORMAT_MAX

datatype signal =
    error_cb | state_changed_cb | signaling_state_change_cb | ice_gathering_state_change_cb | ice_connection_state_change_cb
  | ice_candidate_cb | encoded_video_frame_cb | track_added_cb | data_channel_open_cb

datatype rtc_call =
    Rtc_create
  | Rtc_destroy ptr
  | Rtc_start ptr
  | Rtc_stop ptr
  | Rtc_create_data_channel ptr
  | Rtc_destroy_data_channel ptr
  | Rtc_push_packet ptr "32 word" ptr
  | Rtc_add_media_source ptr source_type
  | Rtc_remove_media_source ptr "32 word"
  | Rtc_set_buffer_state_changed_cb ptr "32 word"
  | Rtc_set_video_resolution ptr "32 word" int int
  | Rtc_set_video_framerate ptr "32 word" int
  | Rtc_set_format ptr "32 word" mime int int int
  | Rtc_set_payload_type ptr "32 word" int
  | Rtc_set_transceiver_codec ptr "32 word" codec
  | Rtc_set_cb signal ptr
  | Rtc_unset_cb signal ptr
  | Rtc_create_offer_async ptr
  | Rtc_create_answer_async ptr
  | Rtc_set_local_description ptr string
  | Rtc_set_remote_description ptr string
  | Rtc_add_ice_candidate ptr string
  | Rtc_get_state ptr
  | Rtc_set_display ptr "32 word" ptr
  | Rtc_foreach_stats ptr
  | Media_format_create
  | Media_format_set mime int int int

text \<open>
  \<open>we_ret\<close> gives the code a call returns, \<open>we_ptr\<close> and \<open>we_source\<close> what a creating call writes through
  its pointer, \<open>we_state\<close> what \<open>webrtc_get_state\<close> writes; \<open>we_this\<close> is the stream's own address in hexadecimal.
\<close>

record rtc_env =
  we_ret :: "rtc_call list \<Rightarrow> rtc_call \<Rightarrow> int"
  we_ptr :: "rtc_call list \<Rightarrow> ptr"
  we_source :: "rtc_call list \<Rightarrow> 32 word"
  we_state :: "rtc_call list \<Rightarrow> webrtc_state_e"
  we_this :: string

abbreviation (input) WEBRTC_ERROR_NONE :: int where "WEBRTC_ERROR_NONE \<equiv> 0"

section \<open>WebRtcEventHandler\<close>

text \<open>Which handlers are set, and the calls of the ones that are.\<close>

record WebRtcEventHandler =
  eh_state_changed :: bool
  eh_signaling :: bool
  eh_ice_candidate :: bool
  eh_ice_gathering :: bool
  eh_ice_connection :: bool
  eh_encoded_frame :: bool
  eh_track_added :: bool
  eh_source_buffer :: bool

definition WebRtcEventHandler_new :: WebRtcEventHandler where
  "WebRtcEventHandler_new =
     \<lparr>eh_state_changed = False, eh_signaling = False, eh_ice_candidate = False, eh_ice_gathering = False,
      eh_ice_connection = False, eh_encoded_frame = False, eh_track_added = False, eh_source_buffer = False\<rparr>"

datatype rtc_event =
    OnStateChangedCb WebRtcState_Stream
  | OnSignalingStateNotifyCb WebRtcState_Signaling
  | OnIceCandidateCb string
  | OnIceGatheringStateNotifyCb WebRtcState_IceGathering
  | OnIceConnectionStateNotifyCb WebRtcState_IceConnection
  | OnEncodedFrameCb ptr
  | OnTrackAddedCb "32 word"
  | OnSourceBufferStateCb WebRtcState_SourceBufferState

text \<open>A function is set or is the null function; the call of one that is set is returned.\<close>

definition SetOnStateChangedCb :: "bool \<Rightarrow> WebRtcEventHandler \<Rightarrow> WebRtcEventHandler" where
  "SetOnStateChangedCb cb h = h\<lparr>eh_state_changed := cb\<rparr>"

definition CallOnStateChangedCb :: "WebRtcState_Stream \<Rightarrow> WebRtcEventHandler \<Rightarrow> rtc_event list" where
  "CallOnStateChangedCb st h = (if eh_state_changed h then [OnStateChangedCb st] else [])"

definition UnsetOnStateChangedCb :: "WebRtcEventHandler \<Rightarrow> WebRtcEventHandler" where
  "UnsetOnStateChangedCb h = h\<lparr>eh_state_changed := False\<rparr>"

definition SetOnSignalingStateNotifyCb :: "bool \<Rightarrow> WebRtcEventHandler \<Rightarrow> WebRtcEventHandler" where
  "SetOnSignalingStateNotifyCb cb h = h\<lparr>eh_signaling := cb\<rparr>"

definition CallOnSignalingStateNotifyCb :: "WebRtcState_Signaling \<Rightarrow> WebRtcEventHandler \<Rightarrow> rtc_event list" where
  "CallOnSignalingStateNotifyCb st h = (if eh_signaling h then [OnSignalingStateNotifyCb st] else [])"

definition UnsetOnSignalingStateNotifyCb :: "WebRtcEventHandler \<Rightarrow> WebRtcEventHandler" where
  "UnsetOnSignalingStateNotifyCb h = h\<lparr>eh_signaling := False\<rparr>"

definition SetOnIceCandidateCb :: "bool \<Rightarrow> WebRtcEventHandler \<Rightarrow> WebRtcEventHandler" where
  "SetOnIceCandidateCb cb h = h\<lparr>eh_ice_candidate := cb\<rparr>"

definition CallOnIceCandidateCb :: "string \<Rightarrow> WebRtcEventHandler \<Rightarrow> rtc_event list" where
  "CallOnIceCandidateCb candidate h = (if eh_ice_candidate h then [OnIceCandidateCb candidate] else [])"

definition UnsetOnIceCandidateCb :: "WebRtcEventHandler \<Rightarrow> WebRtcEventHandler" where
  "UnsetOnIceCandidateCb h = h\<lparr>eh_ice_candidate := False\<rparr>"

definition SetOnIceGatheringStateNotifyCb :: "bool \<Rightarrow> WebRtcEventHandler \<Rightarrow> WebRtcEventHandler" where
  "SetOnIceGatheringStateNotifyCb cb h = h\<lparr>eh_ice_gathering := cb\<rparr>"

definition CallOnIceGatheringStateNotifyCb :: "WebRtcState_IceGathering \<Rightarrow> WebRtcEventHandler \<Rightarrow> rtc_event list" where
  "CallOnIceGatheringStateNotifyCb st h = (if eh_ice_gathering h then [OnIceGatheringStateNotifyCb st] else [])"

definition UnsetOnIceGatheringStateNotifyeCb :: "WebRtcEventHandler \<Rightarrow> WebRtcEventHandler" where
  "UnsetOnIceGatheringStateNotifyeCb h = h\<lparr>eh_ice_gathering := False\<rparr>"

definition SetOnIceConnectionStateNotifyCb :: "bool \<Rightarrow> WebRtcEventHandler \<Rightarrow> WebRtcEventHandler" where
  "SetOnIceConnectionStateNotifyCb cb h = h\<lparr>eh_ice_connection := cb\<rparr>"

definition CallOnIceConnectionStateNotifyCb :: "WebRtcState_IceConnection \<Rightarrow> WebRtcEventHandler \<Rightarrow> rtc_event list" where
  "CallOnIceConnectionStateNotifyCb st h = (if eh_ice_connection h then [OnIceConnectionStateNotifyCb st] else [])"

definition UnsetOnIceConnectionStateNotifyeCb :: "WebRtcEventHandler \<Rightarrow> WebRtcEventHandler" where
  "UnsetOnIceConnectionStateNotifyeCb h = h\<lparr>eh_ice_connection := False\<rparr>"

definition SetOnEncodedFrameCb :: "bool \<Rightarrow> WebRtcEventHandler \<Rightarrow> WebRtcEventHandler" where
  "SetOnEncodedFrameCb cb h = h\<lparr>eh_encoded_frame := cb\<rparr>"

definition CallOnEncodedFrameCb :: "ptr \<Rightarrow> WebRtcEventHandler \<Rightarrow> rtc_event list" where
  "CallOnEncodedFrameCb packet h = (if eh_encoded_frame h then [OnEncodedFrameCb packet] else [])"

definition UnsetEncodedFrameCb :: "WebRtcEventHandler \<Rightarrow> WebRtcEventHandler" where
  "UnsetEncodedFrameCb h = h\<lparr>eh_encoded_frame := False\<rparr>"

definition SetOnTrackAddedCb :: "bool \<Rightarrow> WebRtcEventHandler \<Rightarrow> WebRtcEventHandler" where
  "SetOnTrackAddedCb cb h = h\<lparr>eh_track_added := cb\<rparr>"

definition CallOnTrakAddedCb :: "32 word \<Rightarrow> WebRtcEventHandler \<Rightarrow> rtc_event list" where
  "CallOnTrakAddedCb i h = (if eh_track_added h then [OnTrackAddedCb i] else [])"

definition UnsetTrackAddedCb :: "WebRtcEventHandler \<Rightarrow> WebRtcEventHandler" where
  "UnsetTrackAddedCb h = h\<lparr>eh_track_added := False\<rparr>"

definition SetOnSourceBufferStateCb :: "bool \<Rightarrow> WebRtcEventHandler \<Rightarrow> WebRtcEventHandler" where
  "SetOnSourceBufferStateCb cb h = h\<lparr>eh_source_buffer := cb\<rparr>"

definition CallOnSourceBufferStateCb :: "WebRtcState_SourceBufferState \<Rightarrow> WebRtcEventHandler \<Rightarrow> rtc_event list" where
  "CallOnSourceBufferStateCb st h = (if eh_source_buffer h then [OnSourceBufferStateCb st] else [])"

definition UnsetSourceBufferStateCb :: "WebRtcEventHandler \<Rightarrow> WebRtcEventHandler" where
  "UnsetSourceBufferStateCb h = h\<lparr>eh_source_buffer := False\<rparr>"

lemmas Call_defs =
  CallOnStateChangedCb_def CallOnSignalingStateNotifyCb_def CallOnIceCandidateCb_def
  CallOnIceGatheringStateNotifyCb_def CallOnIceConnectionStateNotifyCb_def CallOnEncodedFrameCb_def
  CallOnTrakAddedCb_def CallOnSourceBufferStateCb_def

lemmas handler_defs = Call_defs
  SetOnStateChangedCb_def SetOnSignalingStateNotifyCb_def SetOnIceCandidateCb_def SetOnIceGatheringStateNotifyCb_def
  SetOnIceConnectionStateNotifyCb_def SetOnEncodedFrameCb_def SetOnTrackAddedCb_def SetOnSourceBufferStateCb_def
  UnsetOnStateChangedCb_def UnsetOnSignalingStateNotifyCb_def UnsetOnIceCandidateCb_def
  UnsetOnIceGatheringStateNotifyeCb_def UnsetOnIceConnectionStateNotifyeCb_def UnsetEncodedFrameCb_def
  UnsetTrackAddedCb_def UnsetSourceBufferStateCb_def

text \<open>What is set is called with its argument, what is unset is not, and no other function is concerned.\<close>

lemma handler_set_call:
  "CallOnStateChangedCb x0 (SetOnStateChangedCb True h) = [OnStateChangedCb x0]" "CallOnStateChangedCb x0 (UnsetOnStateChangedCb h) = []"
  "CallOnSignalingStateNotifyCb x1 (SetOnSignalingStateNotifyCb True h) = [OnSignalingStateNotifyCb x1]" "CallOnSignalingStateNotifyCb x1 (UnsetOnSignalingStateNotifyCb h) = []"
  "CallOnIceCandidateCb x2 (SetOnIceCandidateCb True h) = [OnIceCandidateCb x2]" "CallOnIceCandidateCb x2 (UnsetOnIceCandidateCb h) = []"
  "CallOnIceGatheringStateNotifyCb x3 (SetOnIceGatheringStateNotifyCb True h) = [OnIceGatheringStateNotifyCb x3]" "CallOnIceGatheringStateNotifyCb x3 (UnsetOnIceGatheringStateNotifyeCb h) = []"
  "CallOnIceConnectionStateNotifyCb x4 (SetOnIceConnectionStateNotifyCb True h) = [OnIceConnectionStateNotifyCb x4]" "CallOnIceConnectionStateNotifyCb x4 (UnsetOnIceConnectionStateNotifyeCb h) = []"
  "CallOnEncodedFrameCb x5 (SetOnEncodedFrameCb True h) = [OnEncodedFrameCb x5]" "CallOnEncodedFrameCb x5 (UnsetEncodedFrameCb h) = []"
  "CallOnTrakAddedCb x6 (SetOnTrackAddedCb True h) = [OnTrackAddedCb x6]" "CallOnTrakAddedCb x6 (UnsetTrackAddedCb h) = []"
  "CallOnSourceBufferStateCb x7 (SetOnSourceBufferStateCb True h) = [OnSourceBufferStateCb x7]" "CallOnSourceBufferStateCb x7 (UnsetSourceBufferStateCb h) = []"
  by (simp_all add: handler_defs)

section \<open>WebRtcStream\<close>

record WebRtcStream =
  ws_handle :: ptr
  ws_source_type :: source_type
  ws_channel :: ptr
  ws_source_id :: "32 word"
  ws_display :: ptr
  ws_local_description :: string
  ws_remote_description :: string
  ws_id :: string
  ws_peer_id :: string
  ws_ice_candidates :: "string list"
  ws_peer_ice_candidates :: "string list"
  ws_stored_peer_ice_candidates :: "string list"
  ws_on_offer_created_cb :: bool
  ws_on_answer_created_cb :: bool
  ws_event_handler :: WebRtcEventHandler
  ws_calls :: "rtc_call list"

definition SetStreamId :: "string \<Rightarrow> WebRtcStream \<Rightarrow> WebRtcStream" where
  "SetStreamId ident s = s\<lparr>ws_id := ident\<rparr>"

definition SetPeerId :: "string \<Rightarrow> WebRtcStream \<Rightarrow> WebRtcStream" where
  "SetPeerId ident s = s\<lparr>ws_peer_id := ident\<rparr>"

definition GetStreamId :: "WebRtcStream \<Rightarrow> string" where
  "GetStreamId s = ws_id s"

definition GetPeerId :: "WebRtcStream \<Rightarrow> string" where
  "GetPeerId s = ws_peer_id s"

declare SetStreamId_def [simp] SetPeerId_def [simp] GetStreamId_def [simp] GetPeerId_def [simp]

text \<open>\<open>GetEventHandler\<close> returns a reference, through which the managers set their functions.\<close>

definition GetEventHandler :: "WebRtcStream \<Rightarrow> WebRtcEventHandler" where
  "GetEventHandler s = ws_event_handler s"

definition on_handler :: "(WebRtcEventHandler \<Rightarrow> WebRtcEventHandler) \<Rightarrow> (WebRtcStream, unit) act" where
  "on_handler f = upd (\<lambda>s. s\<lparr>ws_event_handler := f (GetEventHandler s)\<rparr>)"

definition rtc :: "rtc_env \<Rightarrow> (WebRtcStream \<Rightarrow> rtc_call) \<Rightarrow> (WebRtcStream, int) act" where
  "rtc E c = (\<lambda>s. (Inr (we_ret E (ws_calls s) (c s)), s\<lparr>ws_calls := ws_calls s @ [c s]\<rparr>))"

text \<open>A call whose result is only logged, and one whose result is returned as a truth value.\<close>

definition rtc_do :: "rtc_env \<Rightarrow> (WebRtcStream \<Rightarrow> rtc_call) \<Rightarrow> (WebRtcStream, unit) act" where
  "rtc_do E c = sq (rtc E c) (ret ())"

definition rtc_ok :: "rtc_env \<Rightarrow> (WebRtcStream \<Rightarrow> rtc_call) \<Rightarrow> (WebRtcStream, bool) act" where
  "rtc_ok E c = bnd (rtc E c) (\<lambda>r. ret (r = WEBRTC_ERROR_NONE))"

lemma rtc_run [act_simps]:
  "rtc E c s = (Inr (we_ret E (ws_calls s) (c s)), s\<lparr>ws_calls := ws_calls s @ [c s]\<rparr>)"
  "rtc_do E c s = (Inr (), s\<lparr>ws_calls := ws_calls s @ [c s]\<rparr>)"
  "rtc_ok E c s = (Inr (we_ret E (ws_calls s) (c s) = WEBRTC_ERROR_NONE), s\<lparr>ws_calls := ws_calls s @ [c s]\<rparr>)"
  by (simp_all add: rtc_def rtc_do_def rtc_ok_def sq_def bnd_def ret_def)

definition WebRtcStream_init :: WebRtcStream where
  "WebRtcStream_init =
     \<lparr>ws_handle = nullptr, ws_source_type = WEBRTC_MEDIA_SOURCE_TYPE_NULL, ws_channel = nullptr, ws_source_id = 0, ws_display = nullptr,
      ws_local_description = [], ws_remote_description = [], ws_id = [], ws_peer_id = [], ws_ice_candidates = [],
      ws_peer_ice_candidates = [], ws_stored_peer_ice_candidates = [], ws_on_offer_created_cb = False,
      ws_on_answer_created_cb = False, ws_event_handler = WebRtcEventHandler_new, ws_calls = []\<rparr>"

definition WebRtcStream_ctor :: "rtc_env \<Rightarrow> (WebRtcStream, unit) act" where
  "WebRtcStream_ctor E =
     (\<lambda>s. bnd (rtc E (\<lambda>_. Rtc_create)) (\<lambda>r.
          if r \<noteq> WEBRTC_ERROR_NONE then raise (RuntimeError ''WebRtc Handler Creation Failed'')
          else upd (\<lambda>t. t\<lparr>ws_handle := we_ptr E (ws_calls s)\<rparr>)) s)"

definition DetachSignals :: "rtc_env \<Rightarrow> (WebRtcStream, unit) act" where
  "DetachSignals E =
     sq (forA [error_cb, state_changed_cb, signaling_state_change_cb, ice_gathering_state_change_cb, ice_connection_state_change_cb,
               ice_candidate_cb, encoded_video_frame_cb, track_added_cb] (\<lambda>sig. rtc_do E (\<lambda>s. Rtc_unset_cb sig (ws_handle s))))
        (rtc_do E (\<lambda>s. Rtc_unset_cb data_channel_open_cb (ws_channel s)))"

definition Destroy :: "rtc_env \<Rightarrow> (WebRtcStream, unit) act" where
  "Destroy E =
     sq (rtc_do E (\<lambda>s. Rtc_stop (ws_handle s)))
     (sq (DetachSignals E)
     (sq (rtc_do E (\<lambda>s. Rtc_destroy_data_channel (ws_channel s)))
     (sq (rtc_do E (\<lambda>s. Rtc_destroy (ws_handle s)))
         (upd (\<lambda>s. s\<lparr>ws_handle := nullptr\<rparr>)))))"

definition WebRtcStream_dtor :: "rtc_env \<Rightarrow> (WebRtcStream, unit) act" where
  "WebRtcStream_dtor E = Destroy E"

definition ws_Start :: "rtc_env \<Rightarrow> (WebRtcStream, bool) act" where
  "ws_Start E = rtc_ok E (\<lambda>s. Rtc_start (ws_handle s))"

definition ws_Stop :: "rtc_env \<Rightarrow> (WebRtcStream, bool) act" where
  "ws_Stop E = rtc_ok E (\<lambda>s. Rtc_stop (ws_handle s))"

definition ws_Push :: "rtc_env \<Rightarrow> ptr \<Rightarrow> (WebRtcStream, int) act" where
  "ws_Push E obj = rtc E (\<lambda>s. Rtc_push_packet (ws_handle s) (ws_source_id s) obj)"

definition ws_SetSourceType :: "source_type \<Rightarrow> (WebRtcStream, unit) act" where
  "ws_SetSourceType t = upd (\<lambda>s. s\<lparr>ws_source_type := t\<rparr>)"

definition ActivateSource :: "rtc_env \<Rightarrow> (WebRtcStream, bool) act" where
  "ActivateSource E =
     (\<lambda>s. if ws_source_id s \<noteq> 0 then (Inr False, s)
          else bnd (rtc E (\<lambda>s. Rtc_add_media_source (ws_handle s) (ws_source_type s))) (\<lambda>r.
               sq (whenA (r = WEBRTC_ERROR_NONE) (upd (\<lambda>t. t\<lparr>ws_source_id := we_source E (ws_calls s)\<rparr>)))
               (sq (whenA (ws_source_type s = WEBRTC_MEDIA_SOURCE_TYPE_MEDIA_PACKET)
                      (rtc_do E (\<lambda>s. Rtc_set_buffer_state_changed_cb (ws_handle s) (ws_source_id s))))
                   (ret (r = WEBRTC_ERROR_NONE)))) s)"

definition DeactivateSource :: "rtc_env \<Rightarrow> (WebRtcStream, bool) act" where
  "DeactivateSource E =
     (\<lambda>s. if ws_source_id s = 0 then (Inr False, s)
          else bnd (rtc E (\<lambda>s. Rtc_remove_media_source (ws_handle s) (ws_source_id s))) (\<lambda>r.
               sq (whenA (r = WEBRTC_ERROR_NONE) (upd (\<lambda>s. s\<lparr>ws_source_id := 0\<rparr>))) (ret (r = WEBRTC_ERROR_NONE))) s)"

definition SetVideoResolution :: "rtc_env \<Rightarrow> int \<Rightarrow> int \<Rightarrow> (WebRtcStream, bool) act" where
  "SetVideoResolution E width height =
     (\<lambda>s. if ws_source_id s = 0 then (Inr False, s)
          else rtc_ok E (\<lambda>s. Rtc_set_video_resolution (ws_handle s) (ws_source_id s) width height) s)"

definition SetVideoFrameRate :: "rtc_env \<Rightarrow> int \<Rightarrow> (WebRtcStream, bool) act" where
  "SetVideoFrameRate E frame_rate =
     (\<lambda>s. if ws_source_id s = 0 then (Inr False, s)
          else rtc_ok E (\<lambda>s. Rtc_set_video_framerate (ws_handle s) (ws_source_id s) frame_rate) s)"

definition get_video_format_enum :: "string \<Rightarrow> mime" where
  "get_video_format_enum format =
     (if format = ''I420'' then MEDIA_FORMAT_I420 else if format = ''NV12'' then MEDIA_FORMAT_NV12
      else if format = ''VP8'' then MEDIA_FORMAT_VP8 else if format = ''VP9'' then MEDIA_FORMAT_VP9
      else if format = ''H264'' then MEDIA_FORMAT_H264_HP else if format = ''JPEG'' then MEDIA_FORMAT_MJPEG
      else MEDIA_FORMAT_MAX)"

text \<open>The four setters of a media format are one call, whose result is the \<open>or\<close> of theirs.\<close>

definition GetMediaFormatHandler :: "rtc_env \<Rightarrow> int \<Rightarrow> int \<Rightarrow> int \<Rightarrow> string \<Rightarrow> (WebRtcStream, bool) act" where
  "GetMediaFormatHandler E width height frame_rate format =
     bnd (rtc E (\<lambda>_. Media_format_create)) (\<lambda>r.
     if r \<noteq> WEBRTC_ERROR_NONE then ret False
     else rtc_ok E (\<lambda>_. Media_format_set (get_video_format_enum format) width height frame_rate))"

definition ws_SetMediaFormat :: "rtc_env \<Rightarrow> int \<Rightarrow> int \<Rightarrow> int \<Rightarrow> string \<Rightarrow> (WebRtcStream, bool) act" where
  "ws_SetMediaFormat E width height frame_rate format =
     bnd (GetMediaFormatHandler E width height frame_rate format) (\<lambda>media_format.
     if \<not> media_format then ret False
     else bnd (rtc_ok E (\<lambda>s. Rtc_set_format (ws_handle s) (ws_source_id s) (get_video_format_enum format) width height frame_rate)) (\<lambda>ok.
          sq (\<lambda>s. whenA (ws_source_type s = WEBRTC_MEDIA_SOURCE_TYPE_MEDIA_PACKET \<and> format = ''H264'')
                    (rtc_do E (\<lambda>s. Rtc_set_payload_type (ws_handle s) (ws_source_id s) 127)) s)
             (ret ok)))"

definition ws_SetDecodeCodec :: "rtc_env \<Rightarrow> string \<Rightarrow> (WebRtcStream, unit) act" where
  "ws_SetDecodeCodec E cdc =
     (let c = (if cdc = ''VP9'' then CODEC_VP9 else if cdc = ''H264'' then CODEC_H264 else CODEC_VP8) in
      sq (rtc_do E (\<lambda>s. Rtc_set_transceiver_codec (ws_handle s) (ws_source_id s) c))
         (whenA (c = CODEC_H264) (rtc_do E (\<lambda>s. Rtc_set_payload_type (ws_handle s) (ws_source_id s) 127))))"

definition ws_SetDisplay :: "rtc_env \<Rightarrow> ptr \<Rightarrow> (WebRtcStream, unit) act" where
  "ws_SetDisplay E display_object =
     sq (upd (\<lambda>s. s\<lparr>ws_display := display_object\<rparr>))
        (if display_object \<noteq> nullptr then rtc_do E (\<lambda>s. Rtc_unset_cb encoded_video_frame_cb (ws_handle s))
         else rtc_do E (\<lambda>s. Rtc_set_cb encoded_video_frame_cb (ws_handle s)))"

definition IsDisplaySink :: "WebRtcStream \<Rightarrow> bool" where
  "IsDisplaySink s \<longleftrightarrow> ws_display s \<noteq> nullptr"

definition CreateOfferAsync :: "rtc_env \<Rightarrow> (WebRtcStream, bool) act" where
  "CreateOfferAsync E =
     sq (upd (\<lambda>s. s\<lparr>ws_on_offer_created_cb := True\<rparr>)) (rtc_ok E (\<lambda>s. Rtc_create_offer_async (ws_handle s)))"

definition CreateAnswerAsync :: "rtc_env \<Rightarrow> (WebRtcStream, bool) act" where
  "CreateAnswerAsync E =
     sq (upd (\<lambda>s. s\<lparr>ws_on_answer_created_cb := True\<rparr>)) (rtc_ok E (\<lambda>s. Rtc_create_answer_async (ws_handle s)))"

definition SetLocalDescription :: "rtc_env \<Rightarrow> string \<Rightarrow> (WebRtcStream, bool) act" where
  "SetLocalDescription E description =
     bnd (rtc E (\<lambda>s. Rtc_set_local_description (ws_handle s) description)) (\<lambda>r.
     sq (whenA (r = WEBRTC_ERROR_NONE) (upd (\<lambda>s. s\<lparr>ws_local_description := description\<rparr>))) (ret (r = WEBRTC_ERROR_NONE)))"

definition SetRemoteDescription :: "rtc_env \<Rightarrow> string \<Rightarrow> (WebRtcStream, bool) act" where
  "SetRemoteDescription E description = rtc_ok E (\<lambda>s. Rtc_set_remote_description (ws_handle s) description)"

text \<open>The functions given to \<open>CreateOfferAsync\<close> and \<open>CreateAnswerAsync\<close> are those of the two managers.\<close>

definition sink_OnOfferCreated :: "rtc_env \<Rightarrow> string \<Rightarrow> (WebRtcStream, unit) act" where
  "sink_OnOfferCreated E sdp = sq (SetLocalDescription E sdp) (ret ())"

definition src_OnAnswerCreated :: "rtc_env \<Rightarrow> string \<Rightarrow> (WebRtcStream, unit) act" where
  "src_OnAnswerCreated E sdp = sq (SetLocalDescription E sdp) (ret ())"

definition OnOfferCreated :: "rtc_env \<Rightarrow> string \<Rightarrow> (WebRtcStream, unit) act" where
  "OnOfferCreated E description = (\<lambda>s. whenA (ws_on_offer_created_cb s) (sink_OnOfferCreated E description) s)"

definition OnAnswerCreated :: "rtc_env \<Rightarrow> string \<Rightarrow> (WebRtcStream, unit) act" where
  "OnAnswerCreated E description = (\<lambda>s. whenA (ws_on_answer_created_cb s) (src_OnAnswerCreated E description) s)"

definition AddIceCandidateFromMessage :: "rtc_env \<Rightarrow> string \<Rightarrow> (WebRtcStream, bool) act" where
  "AddIceCandidateFromMessage E ice_message = rtc_ok E (\<lambda>s. Rtc_add_ice_candidate (ws_handle s) ice_message)"

definition in_state :: "rtc_env \<Rightarrow> webrtc_state_e \<Rightarrow> (WebRtcStream, bool) act" where
  "in_state E st =
     (\<lambda>s. bnd (rtc E (\<lambda>s. Rtc_get_state (ws_handle s))) (\<lambda>r.
          ret (r = WEBRTC_ERROR_NONE \<and> we_state E (ws_calls s) = st)) s)"

definition IsNegotiatingState :: "rtc_env \<Rightarrow> (WebRtcStream, bool) act" where
  "IsNegotiatingState E = in_state E WEBRTC_STATE_NEGOTIATING"

definition IsPlayingState :: "rtc_env \<Rightarrow> (WebRtcStream, bool) act" where
  "IsPlayingState E = in_state E WEBRTC_STATE_PLAYING"

definition SetPeerSDP :: "rtc_env \<Rightarrow> (WebRtcStream, bool) act" where
  "SetPeerSDP E =
     (\<lambda>s. if ws_remote_description s = [] then (Inr True, s)
          else bnd (SetRemoteDescription E (ws_remote_description s)) (\<lambda>ok.
               sq (whenA ok (upd (\<lambda>s. s\<lparr>ws_remote_description := []\<rparr>))) (ret ok)) s)"

definition IsRedundantCandidate :: "string \<Rightarrow> WebRtcStream \<Rightarrow> bool" where
  "IsRedundantCandidate candidate s \<longleftrightarrow> candidate \<in> set (ws_stored_peer_ice_candidates s)"

fun add_candidates :: "rtc_env \<Rightarrow> string list \<Rightarrow> (WebRtcStream, bool) act" where
  "add_candidates E [] = ret True"
| "add_candidates E (c # cs) =
     (\<lambda>s. if IsRedundantCandidate c s then add_candidates E cs s
          else bnd (AddIceCandidateFromMessage E c) (\<lambda>ok.
               sq (whenA ok (upd (\<lambda>s. s\<lparr>ws_stored_peer_ice_candidates := ws_stored_peer_ice_candidates s @ [c]\<rparr>)))
                  (bnd (add_candidates E cs) (\<lambda>res. ret (ok \<and> res)))) s)"

definition SetPeerIceCandidates :: "rtc_env \<Rightarrow> (WebRtcStream, bool) act" where
  "SetPeerIceCandidates E = (\<lambda>s. add_candidates E (ws_peer_ice_candidates s) s)"

definition SetPeerInformation :: "rtc_env \<Rightarrow> (WebRtcStream, bool) act" where
  "SetPeerInformation E = bnd (SetPeerSDP E) (\<lambda>ok. if ok then SetPeerIceCandidates E else ret False)"

definition AddPeerInformation :: "rtc_env \<Rightarrow> string \<Rightarrow> string list \<Rightarrow> (WebRtcStream, bool) act" where
  "AddPeerInformation E sdp ice_candidates =
     sq (upd (\<lambda>s. s\<lparr>ws_remote_description := sdp, ws_peer_ice_candidates := ice_candidates\<rparr>))
        (bnd (IsNegotiatingState E) (\<lambda>neg. if \<not> neg then ret False else SetPeerInformation E))"

definition UpdatePeerInformation :: "rtc_env \<Rightarrow> string list \<Rightarrow> (WebRtcStream, unit) act" where
  "UpdatePeerInformation E ice_candidates =
     bnd (IsPlayingState E) (\<lambda>playing.
     if playing
     then upd (\<lambda>s. s\<lparr>ws_remote_description := [], ws_peer_ice_candidates := [], ws_stored_peer_ice_candidates := []\<rparr>)
     else sq (upd (\<lambda>s. s\<lparr>ws_peer_ice_candidates := ice_candidates\<rparr>))
         (bnd (IsNegotiatingState E) (\<lambda>neg. if \<not> neg then ret () else sq (SetPeerInformation E) (ret ()))))"

definition AddDataChannel :: "rtc_env \<Rightarrow> (WebRtcStream, unit) act" where
  "AddDataChannel E =
     (\<lambda>s. bnd (rtc E (\<lambda>s. Rtc_create_data_channel (ws_handle s))) (\<lambda>r.
          whenA (r = WEBRTC_ERROR_NONE) (upd (\<lambda>t. t\<lparr>ws_channel := we_ptr E (ws_calls s)\<rparr>))) s)"

definition AttachSignals :: "rtc_env \<Rightarrow> bool \<Rightarrow> (WebRtcStream, unit) act" where
  "AttachSignals E is_source =
     sq (forA ([error_cb, state_changed_cb, signaling_state_change_cb, ice_gathering_state_change_cb, ice_connection_state_change_cb,
                ice_candidate_cb] @ (if is_source then [] else [encoded_video_frame_cb, track_added_cb]))
          (\<lambda>sig. rtc_do E (\<lambda>s. Rtc_set_cb sig (ws_handle s))))
        (rtc_do E (\<lambda>s. Rtc_set_cb data_channel_open_cb (ws_channel s)))"

subsection \<open>Callbacks of the library\<close>

definition notify :: "(WebRtcEventHandler \<Rightarrow> rtc_event list) \<Rightarrow> (WebRtcStream, rtc_event list) act" where
  "notify f = (\<lambda>s. (Inr (f (GetEventHandler s)), s))"

text \<open>Two callbacks that only log.\<close>

definition OnError :: "(WebRtcStream, rtc_event list) act" where
  "OnError = ret []"

definition OnDataChannelOpen :: "(WebRtcStream, rtc_event list) act" where
  "OnDataChannelOpen = ret []"

definition OnStateChanged :: "rtc_env \<Rightarrow> webrtc_state_e \<Rightarrow> (WebRtcStream, rtc_event list) act" where
  "OnStateChanged E current =
     sq (whenA (current = WEBRTC_STATE_NEGOTIATING) (sq (SetPeerSDP E) (ret ())))
        (notify (CallOnStateChangedCb (ToStreamState current)))"

definition OnSignalingStateChanged :: "webrtc_signaling_state_e \<Rightarrow> (WebRtcStream, rtc_event list) act" where
  "OnSignalingStateChanged st = notify (CallOnSignalingStateNotifyCb (ToSignalingState st))"

definition OnIceGatheringStateChanged :: "webrtc_ice_gathering_state_e \<Rightarrow> (WebRtcStream, rtc_event list) act" where
  "OnIceGatheringStateChanged st = notify (CallOnIceGatheringStateNotifyCb (ToIceGatheringState st))"

definition OnIceConnectionStateChanged :: "webrtc_ice_connection_state_e \<Rightarrow> (WebRtcStream, rtc_event list) act" where
  "OnIceConnectionStateChanged st = notify (CallOnIceConnectionStateNotifyCb (ToIceConnectionState st))"

definition OnIceCandiate :: "string \<Rightarrow> (WebRtcStream, rtc_event list) act" where
  "OnIceCandiate candidate =
     sq (upd (\<lambda>s. s\<lparr>ws_ice_candidates := ws_ice_candidates s @ [candidate]\<rparr>)) (notify (CallOnIceCandidateCb candidate))"

text \<open>The media type of a frame or a track: video or not.\<close>

definition OnEncodedFrame :: "bool \<Rightarrow> ptr \<Rightarrow> (WebRtcStream, rtc_event list) act" where
  "OnEncodedFrame video packet = (if video then notify (CallOnEncodedFrameCb packet) else ret [])"

definition OnTrackAdded :: "rtc_env \<Rightarrow> bool \<Rightarrow> 32 word \<Rightarrow> (WebRtcStream, rtc_event list) act" where
  "OnTrackAdded E video i =
     (\<lambda>s. if \<not> video then (Inr [], s)
          else if ws_display s \<noteq> nullptr then sq (rtc_do E (\<lambda>s. Rtc_set_display (ws_handle s) i (ws_display s))) (ret []) s
          else notify (CallOnTrakAddedCb i) s)"

definition OnBufferStateChanged :: "webrtc_buffer_state_e \<Rightarrow> (WebRtcStream, rtc_event list) act" where
  "OnBufferStateChanged st = notify (CallOnSourceBufferStateCb (ToSourceBufferState st))"

definition PrintStats :: "rtc_env \<Rightarrow> (WebRtcStream, unit) act" where
  "PrintStats E = rtc_do E (\<lambda>s. Rtc_foreach_stats (ws_handle s))"

end
