(* ===== verification/RequestServer_Model.thy ===== *)
theory RequestServer_Model
  imports Aitt_Types "HOL-Library.Sublist"
begin

text \<open>
  The queue between the decoder of a WebRTC sink and the thread that hands the frames to the application:
  \<open>modules/webrtc/SyncQueue.h\<close> and \<open>modules/webrtc/RequestServer.cc\<close>.

  Here the interleaving of threads is part of the model.  A step is what a thread does while it
  holds the mutex of the queue.  The condition variable is the list of the threads that
  sleep on it and the list of those that have been woken and still have to get the mutex back; a
  thread may also wake up spuriously.
\<close>

section \<open>SyncQueue\<close>

record 'a SyncQueue =
  sq_queue :: "'a list"
  cv_waiting :: "nat list"
  cv_woken :: "nat list"

definition SyncQueue_new :: "'a SyncQueue" where
  "SyncQueue_new = \<lparr>sq_queue = [], cv_waiting = [], cv_woken = []\<rparr>"

text \<open>The condition variable; which of the sleeping threads \<open>notify_one\<close> wakes is not specified and an argument.\<close>

definition wake :: "nat \<Rightarrow> 'a SyncQueue \<Rightarrow> 'a SyncQueue" where
  "wake t q = q\<lparr>cv_waiting := remove1 t (cv_waiting q), cv_woken := t # cv_woken q\<rparr>"

definition notify_one :: "nat \<Rightarrow> 'a SyncQueue \<Rightarrow> 'a SyncQueue" where
  "notify_one k q = (if cv_waiting q = [] then q else wake (cv_waiting q ! (k mod length (cv_waiting q))) q)"

definition notify_all :: "'a SyncQueue \<Rightarrow> 'a SyncQueue" where
  "notify_all q = q\<lparr>cv_waiting := [], cv_woken := cv_waiting q @ cv_woken q\<rparr>"

definition IsEmpty :: "'a SyncQueue \<Rightarrow> bool" where
  "IsEmpty q \<longleftrightarrow> sq_queue q = []"

definition Push :: "'a \<Rightarrow> nat \<Rightarrow> 'a SyncQueue \<Rightarrow> 'a SyncQueue" where
  "Push data k q = notify_one k (q\<lparr>sq_queue := sq_queue q @ [data]\<rparr>)"

definition Pop :: "('a SyncQueue, unit) act" where
  "Pop = (\<lambda>q. case sq_queue q of
            [] \<Rightarrow> (Inl (UndefinedBehaviour ''pop of an empty queue''), q)
          | _ # xs \<Rightarrow> (Inr (), q\<lparr>sq_queue := xs\<rparr>))"

text \<open>
  A thread \<open>t\<close> that calls one of the two or has been woken in it tests the queue, with the mutex held.  While
  there is nothing, it goes to sleep: the result is \<open>None\<close>.
\<close>

definition WaitedFront :: "nat \<Rightarrow> 'a SyncQueue \<Rightarrow> 'a option \<times> 'a SyncQueue" where
  "WaitedFront t q =
     (let q1 = q\<lparr>cv_woken := remove1 t (cv_woken q)\<rparr>
      in case sq_queue q1 of
           [] \<Rightarrow> (None, q1\<lparr>cv_waiting := t # cv_waiting q1\<rparr>)
         | data # _ \<Rightarrow> (Some data, q1))"

definition WaitedPop :: "nat \<Rightarrow> 'a SyncQueue \<Rightarrow> 'a option \<times> 'a SyncQueue" where
  "WaitedPop t q =
     (let q1 = q\<lparr>cv_woken := remove1 t (cv_woken q)\<rparr>
      in case sq_queue q1 of
           [] \<Rightarrow> (None, q1\<lparr>cv_waiting := t # cv_waiting q1\<rparr>)
         | data # xs \<Rightarrow> (Some data, q1\<lparr>sq_queue := xs\<rparr>))"

text \<open>What is pushed is a value that the type initialises, here \<open>dflt\<close>.\<close>

definition WakeUpAll :: "'a \<Rightarrow> 'a SyncQueue \<Rightarrow> 'a SyncQueue" where
  "WakeUpAll dflt q = notify_all (q\<lparr>sq_queue := sq_queue q @ [dflt]\<rparr>)"

lemmas SyncQueue_defs = wake_def notify_one_def notify_all_def IsEmpty_def Push_def Pop_def WaitedFront_def WaitedPop_def
  WakeUpAll_def SyncQueue_new_def Let_def

section \<open>Any number of threads\<close>

text \<open>
  Producers push, consumers take elements with \<open>WaitedPop\<close>, or look at the front with \<open>WaitedFront\<close> and pop it
  later.  \<open>qw_holding\<close> lists the threads between the two, and all elements ever pushed and
  removed are remembered.
\<close>

record 'a queue_world =
  qw_queue :: "'a SyncQueue"
  qw_holding :: "nat list"
  qw_pushed :: "'a list"
  qw_popped :: "'a list"

definition queue_init :: "'a queue_world \<Rightarrow> bool" where
  "queue_init w \<longleftrightarrow> w = \<lparr>qw_queue = SyncQueue_new, qw_holding = [], qw_pushed = [], qw_popped = []\<rparr>"

inductive queue_step :: "'a \<Rightarrow> 'a queue_world \<Rightarrow> 'a queue_world \<Rightarrow> bool" for dflt :: 'a where
  queue_push: "queue_step dflt w (w\<lparr>qw_queue := Push x k (qw_queue w), qw_pushed := qw_pushed w @ [x]\<rparr>)"
| queue_wake: "queue_step dflt w (w\<lparr>qw_queue := WakeUpAll dflt (qw_queue w), qw_pushed := qw_pushed w @ [dflt]\<rparr>)"
| queue_front: "t \<notin> set (cv_waiting (qw_queue w)) \<Longrightarrow> t \<notin> set (qw_holding w) \<Longrightarrow> WaitedFront t (qw_queue w) = (r, q) \<Longrightarrow>
    queue_step dflt w (w\<lparr>qw_queue := q, qw_holding := (if r = None then qw_holding w else t # qw_holding w)\<rparr>)"
| queue_pop: "t \<in> set (qw_holding w) \<Longrightarrow> Pop (qw_queue w) = (Inr (), q) \<Longrightarrow>
    queue_step dflt w (w\<lparr>qw_queue := q, qw_holding := remove1 t (qw_holding w), qw_popped := qw_popped w @ [hd (sq_queue (qw_queue w))]\<rparr>)"
| queue_waited_pop: "t \<notin> set (cv_waiting (qw_queue w)) \<Longrightarrow> t \<notin> set (qw_holding w) \<Longrightarrow> WaitedPop t (qw_queue w) = (r, q) \<Longrightarrow>
    queue_step dflt w (w\<lparr>qw_queue := q, qw_popped := qw_popped w @ (case r of None \<Rightarrow> [] | Some x \<Rightarrow> [x])\<rparr>)"
| queue_spurious: "t \<in> set (cv_waiting (qw_queue w)) \<Longrightarrow> queue_step dflt w (w\<lparr>qw_queue := wake t (qw_queue w)\<rparr>)"

definition queue_inv :: "'a queue_world \<Rightarrow> bool" where
  "queue_inv w \<longleftrightarrow> qw_popped w @ sq_queue (qw_queue w) = qw_pushed w \<and>
     (cv_waiting (qw_queue w) \<noteq> [] \<longrightarrow> length (sq_queue (qw_queue w)) \<le> length (cv_woken (qw_queue w)) + length (qw_holding w))"

lemma length_remove1_le: "length xs \<le> Suc (length (remove1 x xs))"
  by (induction xs) auto

interpretation queue: invariant_system queue_init "queue_step dflt" queue_inv for dflt :: 'a
proof
  fix w u :: "'a queue_world" assume i: "queue_inv w" and "queue_step dflt w u"
  from this(2) show "queue_inv u"
  proof cases
    case (queue_push x k)
    with i show ?thesis by (auto simp: queue_inv_def SyncQueue_defs)
  next
    case queue_wake
    with i show ?thesis by (auto simp: queue_inv_def SyncQueue_defs)
  next
    case (queue_front t r q)
    with i length_remove1_le [of "cv_woken (qw_queue w)" t] show ?thesis
      by (auto simp: queue_inv_def SyncQueue_defs split: list.splits)
  next
    case (queue_pop t q)
    with i length_remove1_le [of "qw_holding w" t] show ?thesis
      by (auto simp: queue_inv_def SyncQueue_defs split: list.splits)
  next
    case (queue_waited_pop t r q)
    with i length_remove1_le [of "cv_woken (qw_queue w)" t] show ?thesis
      by (auto simp: queue_inv_def SyncQueue_defs split: list.splits)
  next
    case (queue_spurious t)
    with i show ?thesis by (auto simp: queue_inv_def SyncQueue_defs)
  qed
qed (simp add: queue_inv_def queue_init_def SyncQueue_defs)

text \<open>C35. No wake-up is lost, whatever threads push and take and in whichever order: elements leave
  the queue in the order in which they entered it, each once, and while a thread sleeps on the condition there are at least as many threads that
  have been woken or are about to pop as there are elements in the queue.\<close>

theorem no_wakeup_lost:
  assumes "reachable queue_init (queue_step dflt) w"
  shows "qw_popped w @ sq_queue (qw_queue w) = qw_pushed w \<and>
    (cv_waiting (qw_queue w) \<noteq> [] \<longrightarrow> length (sq_queue (qw_queue w)) \<le> length (cv_woken (qw_queue w)) + length (qw_holding w))"
  using queue.reachable_inv [OF assms] by (simp add: queue_inv_def)

text \<open>Two threads sleep, then two elements are pushed: both threads are woken.\<close>

theorem no_wakeup_lost_witness:
  "\<exists>w. reachable queue_init (queue_step (0::nat)) w \<and> sq_queue (qw_queue w) = [5] \<and> cv_waiting (qw_queue w) = [1] \<and>
     length (cv_woken (qw_queue w)) + length (qw_holding w) \<ge> 1"
proof -
  define q :: "nat SyncQueue" where "q = \<lparr>sq_queue = [], cv_waiting = [2, 1], cv_woken = []\<rparr>"
  define a :: "nat queue_world" where "a = \<lparr>qw_queue = SyncQueue_new, qw_holding = [], qw_pushed = [], qw_popped = []\<rparr>"
  define b where "b = a\<lparr>qw_queue := \<lparr>sq_queue = [], cv_waiting = [1], cv_woken = []\<rparr>\<rparr>"
  define c where "c = b\<lparr>qw_queue := q\<rparr>"
  define d where "d = c\<lparr>qw_queue := Push 5 0 q, qw_pushed := [5]\<rparr>"
  have "queue_step 0 a b" "queue_step 0 b c" "queue_step 0 c d"
    using queue_waited_pop [of 1 a None "qw_queue b" 0] queue_waited_pop [of 2 b None q 0] queue_push [of 0 c 5 0]
    by (simp_all add: a_def b_def c_def d_def q_def SyncQueue_defs)
  moreover have "reachable queue_init (queue_step 0) a" by (rule reachable_init) (simp add: queue_init_def a_def)
  ultimately have r: "reachable queue_init (queue_step 0) d" by (blast intro: reachable_step)
  moreover have "sq_queue (qw_queue d) = [5]" "cv_waiting (qw_queue d) = [1]" by (simp_all add: d_def q_def SyncQueue_defs)
  ultimately show ?thesis using no_wakeup_lost [OF r] by fastforce
qed

text \<open>Two threads that look at one front both pop: the second pop is of an empty queue.  \<open>WaitedFront\<close> is for one consumer.\<close>

lemma two_fronts_one_element:
  "let (a, q1) = WaitedFront 1 (Push x 0 SyncQueue_new); (b, q2) = WaitedFront 2 q1; (r, q3) = Pop q2
   in a = Some x \<and> b = Some x \<and> r = Inr () \<and> fst (Pop q3) = Inl (UndefinedBehaviour ''pop of an empty queue'')"
  by (simp add: SyncQueue_defs)

section \<open>RequestServer\<close>

text \<open>
  The thread is a program counter in \<open>ThreadMain\<close>: before the condition of the loop, inside \<open>WaitedFront\<close>, in the callback with a
  frame before \<open>Pop\<close>, or at its end.  \<open>NoThread\<close> is a thread object that is not joinable.
\<close>

datatype server_pc = NoThread | AtLoop | InWait | Serving "byte list" | Finished

record RequestServer =
  rs_stop_working :: bool
  rs_thread :: server_pc
  rs_queue :: "byte list SyncQueue"
  rs_on_frame_cb :: bool
  rs_frames :: "byte list list"

abbreviation (input) SERVER :: nat where "SERVER \<equiv> 0"

definition RequestServer_new :: RequestServer where
  "RequestServer_new =
     \<lparr>rs_stop_working = False, rs_thread = NoThread, rs_queue = SyncQueue_new, rs_on_frame_cb = False, rs_frames = []\<rparr>"

text \<open>Assigning to a thread object that is joinable ends the process.\<close>

definition rs_Start :: "(RequestServer, unit) act" where
  "rs_Start = (\<lambda>s. if rs_thread s \<noteq> NoThread then (Inl (UndefinedBehaviour ''std::terminate: thread is joinable''), s)
                   else (Inr (), s\<lparr>rs_thread := AtLoop\<rparr>))"

text \<open>
  \<open>Stop\<close> in its three steps: the flag, the wake-up, and the join, which returns when the thread has ended.
  \<open>rs_Stop\<close> is what the manager's destructor does of it, up to the join.
\<close>

definition rs_stop_flag :: "RequestServer \<Rightarrow> RequestServer" where
  "rs_stop_flag s = s\<lparr>rs_stop_working := True\<rparr>"

definition rs_stop_wake :: "RequestServer \<Rightarrow> RequestServer" where
  "rs_stop_wake s = s\<lparr>rs_queue := WakeUpAll [] (rs_queue s)\<rparr>"

definition rs_join :: "RequestServer \<Rightarrow> RequestServer option" where
  "rs_join s = (case rs_thread s of NoThread \<Rightarrow> Some s | Finished \<Rightarrow> Some (s\<lparr>rs_thread := NoThread\<rparr>) | _ \<Rightarrow> None)"

definition rs_Stop :: "RequestServer \<Rightarrow> RequestServer" where
  "rs_Stop s = rs_stop_wake (rs_stop_flag s)"

text \<open>\<open>PushBuffer\<close> in its two steps: the test of the queue and the push are separate critical sections.\<close>

definition buffer_wanted :: "byte list \<Rightarrow> RequestServer \<Rightarrow> bool" where
  "buffer_wanted data s \<longleftrightarrow> data \<noteq> [] \<and> IsEmpty (rs_queue s)"

definition buffer_push :: "byte list \<Rightarrow> RequestServer \<Rightarrow> RequestServer" where
  "buffer_push data s = s\<lparr>rs_queue := Push data 0 (rs_queue s)\<rparr>"

definition PushBuffer :: "byte list \<Rightarrow> RequestServer \<Rightarrow> RequestServer" where
  "PushBuffer data s = (if buffer_wanted data s then buffer_push data s else s)"

text \<open>The next step of \<open>ThreadMain\<close>, if the thread can run.\<close>

definition ThreadMain :: "RequestServer \<Rightarrow> ((exn + unit) \<times> RequestServer) option" where
  "ThreadMain s =
     (case rs_thread s of
        AtLoop \<Rightarrow> Some (Inr (), s\<lparr>rs_thread := if rs_stop_working s then Finished else InWait\<rparr>)
      | InWait \<Rightarrow>
          if SERVER \<in> set (cv_waiting (rs_queue s)) then None
          else (case WaitedFront SERVER (rs_queue s) of
                  (None, q) \<Rightarrow> Some (Inr (), s\<lparr>rs_queue := q\<rparr>)
                | (Some frame, q) \<Rightarrow>
                    Some (Inr (), s\<lparr>rs_queue := q, rs_thread := Serving frame,
                      rs_frames := rs_frames s @ (if frame \<noteq> [] \<and> rs_on_frame_cb s then [frame] else [])\<rparr>))
      | Serving frame \<Rightarrow>
          (case Pop (rs_queue s) of (r, q) \<Rightarrow> Some (r, s\<lparr>rs_queue := q, rs_thread := AtLoop\<rparr>))
      | _ \<Rightarrow> None)"

definition rs_SetOnFrameCallback :: "bool \<Rightarrow> RequestServer \<Rightarrow> RequestServer" where
  "rs_SetOnFrameCallback cb s = s\<lparr>rs_on_frame_cb := cb\<rparr>"

lemmas RequestServer_defs = RequestServer_new_def rs_Start_def rs_stop_flag_def rs_stop_wake_def rs_join_def buffer_wanted_def
  buffer_push_def ThreadMain_def rs_SetOnFrameCallback_def

section \<open>The server and its clients\<close>

text \<open>
  The decoder pushes from one thread, \<open>sv_pending\<close> is the frame it is about to push.  One other thread starts and stops
  the server.  The frames for which \<open>PushBuffer\<close> was called are remembered.
\<close>

datatype stop_pc = NotStopping | Flagged | Joining

record server_world =
  sv_server :: RequestServer
  sv_pushed :: "byte list list"
  sv_pending :: "byte list option"
  sv_stop :: stop_pc

definition server_init :: "server_world \<Rightarrow> bool" where
  "server_init w \<longleftrightarrow> w = \<lparr>sv_server = RequestServer_new, sv_pushed = [], sv_pending = None, sv_stop = NotStopping\<rparr>"

inductive server_step :: "server_world \<Rightarrow> server_world \<Rightarrow> bool" where
  server_start: "sv_stop w = NotStopping \<Longrightarrow> rs_Start (sv_server w) = (Inr (), s) \<Longrightarrow> server_step w (w\<lparr>sv_server := s\<rparr>)"
| server_callback: "server_step w (w\<lparr>sv_server := rs_SetOnFrameCallback b (sv_server w)\<rparr>)"
| server_test: "sv_pending w = None \<Longrightarrow>
    server_step w (w\<lparr>sv_pushed := sv_pushed w @ [data], sv_pending := if buffer_wanted data (sv_server w) then Some data else None\<rparr>)"
| server_push: "sv_pending w = Some data \<Longrightarrow> server_step w (w\<lparr>sv_server := buffer_push data (sv_server w), sv_pending := None\<rparr>)"
| server_thread: "ThreadMain (sv_server w) = Some (r, s) \<Longrightarrow> server_step w (w\<lparr>sv_server := s\<rparr>)"
| server_spurious: "SERVER \<in> set (cv_waiting (rs_queue (sv_server w))) \<Longrightarrow>
    server_step w (w\<lparr>sv_server := (sv_server w)\<lparr>rs_queue := wake SERVER (rs_queue (sv_server w))\<rparr>\<rparr>)"
| server_flag: "sv_stop w = NotStopping \<Longrightarrow> server_step w (w\<lparr>sv_server := rs_stop_flag (sv_server w), sv_stop := Flagged\<rparr>)"
| server_wake: "sv_stop w = Flagged \<Longrightarrow> server_step w (w\<lparr>sv_server := rs_stop_wake (sv_server w), sv_stop := Joining\<rparr>)"
| server_join: "sv_stop w = Joining \<Longrightarrow> rs_join (sv_server w) = Some s \<Longrightarrow> server_step w (w\<lparr>sv_server := s, sv_stop := NotStopping\<rparr>)"

text \<open>The frames in the queue that the application has not seen.\<close>

definition unserved :: "RequestServer \<Rightarrow> byte list list" where
  "unserved s = filter (\<lambda>f. f \<noteq> []) (case rs_thread s of Serving _ \<Rightarrow> tl (sq_queue (rs_queue s)) | _ \<Rightarrow> sq_queue (rs_queue s))"

lemma subseq_drop_middle: "subseq (xs @ y # zs) p \<Longrightarrow> subseq (xs @ zs) p"
  by (rule subseq_order.trans [of _ "xs @ y # zs"]) (rule list_emb_append_mono, auto)

definition frames_inv :: "server_world \<Rightarrow> bool" where
  "frames_inv w \<longleftrightarrow>
     subseq (rs_frames (sv_server w) @ unserved (sv_server w) @ (case sv_pending w of None \<Rightarrow> [] | Some d \<Rightarrow> [d])) (sv_pushed w) \<and>
     length (filter (\<lambda>f. f \<noteq> []) (sq_queue (rs_queue (sv_server w)))) + (if sv_pending w = None then 0 else 1) \<le> 1 \<and>
     sv_pending w \<noteq> Some []"

text \<open>
  The thread sleeps only on an empty queue, it pops what it has seen, and once \<open>Stop\<close> waits for it, a wait of the thread finds something.
\<close>

definition thread_inv :: "server_world \<Rightarrow> bool" where
  "thread_inv w \<longleftrightarrow> (let s = sv_server w; q = rs_queue s in
     (\<forall>f. rs_thread s = Serving f \<longrightarrow> sq_queue q \<noteq> []) \<and>
     (cv_waiting q = [] \<or> cv_waiting q = [SERVER] \<and> sq_queue q = [] \<and> rs_thread s = InWait) \<and>
     (sv_stop w \<noteq> NotStopping \<longrightarrow> rs_stop_working s) \<and>
     (sv_stop w = Joining \<and> rs_thread s = InWait \<longrightarrow> sq_queue q \<noteq> []))"

lemma frames_inv_thread:
  assumes "frames_inv w" and "thread_inv w" and "ThreadMain (sv_server w) = Some (r, s)"
  shows "frames_inv (w\<lparr>sv_server := s\<rparr>)"
proof (cases "rs_thread (sv_server w)")
  case InWait
  with assms(1,3) show ?thesis
    by (cases "sq_queue (rs_queue (sv_server w))")
       (auto simp: frames_inv_def unserved_def ThreadMain_def WaitedFront_def Let_def split: if_splits dest: subseq_drop_middle)
next
  case (Serving f)
  with assms show ?thesis
    by (cases "sq_queue (rs_queue (sv_server w))") (auto simp: frames_inv_def thread_inv_def unserved_def ThreadMain_def Pop_def Let_def split: if_splits)
qed (use assms in \<open>auto simp: frames_inv_def unserved_def ThreadMain_def\<close>)

lemma frames_inv_step:
  assumes "frames_inv w" and "thread_inv w" and "server_step w u"
  shows "frames_inv u"
  using assms(3)
proof cases
  case (server_thread r s)
  with frames_inv_thread [OF assms(1,2)] show ?thesis by simp
next
  case (server_test data)
  with assms(1) show ?thesis
    by (auto simp: frames_inv_def unserved_def buffer_wanted_def IsEmpty_def split: server_pc.splits intro: subseq_rev_drop_many)
next
  case server_wake
  with assms(1,2) show ?thesis
    by (auto simp: frames_inv_def thread_inv_def unserved_def rs_stop_wake_def WakeUpAll_def notify_all_def Let_def split: server_pc.splits)
next
  case (server_push data)
  with assms(1,2) show ?thesis
    by (auto simp: frames_inv_def thread_inv_def unserved_def buffer_push_def Push_def notify_one_def wake_def Let_def split: server_pc.splits)
qed (use assms(1) in \<open>auto simp: frames_inv_def unserved_def rs_Start_def rs_SetOnFrameCallback_def rs_stop_flag_def
       rs_join_def wake_def split: server_pc.splits if_splits\<close>)

lemma thread_inv_step:
  assumes "thread_inv w" and "server_step w u"
  shows "thread_inv u"
  using assms(2)
proof cases
  case (server_thread r s)
  with assms(1) show ?thesis
    by (cases "sq_queue (rs_queue (sv_server w))")
       (auto simp: thread_inv_def RequestServer_defs SyncQueue_defs split: server_pc.splits if_splits)
qed (use assms(1) in \<open>auto simp: thread_inv_def RequestServer_defs SyncQueue_defs split: server_pc.splits if_splits\<close>)

interpretation server: invariant_system server_init server_step "\<lambda>w. frames_inv w \<and> thread_inv w"
proof
  show "frames_inv w \<and> thread_inv w" if "server_init w" for w
    using that by (simp add: server_init_def frames_inv_def thread_inv_def unserved_def RequestServer_new_def SyncQueue_new_def)
qed (blast intro: frames_inv_step thread_inv_step)

text \<open>C33. Whatever the decoder, the thread of the server and the thread that starts and stops it do and in whichever
  order, the frames given to the application are some of those the decoder pushed, each at most once and in
  the same order, at most one frame waits in the queue, and the thread never pops from an empty queue.
\<close>

theorem frames_in_order:
  assumes "reachable server_init server_step w"
  shows "subseq (rs_frames (sv_server w)) (sv_pushed w) \<and>
    length (filter (\<lambda>f. f \<noteq> []) (sq_queue (rs_queue (sv_server w)))) \<le> 1 \<and>
    (\<forall>e s. ThreadMain (sv_server w) \<noteq> Some (Inl e, s))"
proof -
  note i = server.reachable_inv [OF assms]
  let ?rest = "unserved (sv_server w) @ (case sv_pending w of None \<Rightarrow> [] | Some d \<Rightarrow> [d])"
  have "subseq (rs_frames (sv_server w)) (rs_frames (sv_server w) @ ?rest)" by (rule subseq_rev_drop_many) simp
  moreover have "subseq (rs_frames (sv_server w) @ ?rest) (sv_pushed w)" using i by (simp add: frames_inv_def)
  ultimately have "subseq (rs_frames (sv_server w)) (sv_pushed w)" by (rule subseq_order.trans)
  moreover have "ThreadMain (sv_server w) \<noteq> Some (Inl e, s)" for e s
    using i by (cases "sq_queue (rs_queue (sv_server w))")
      (auto simp: thread_inv_def ThreadMain_def WaitedFront_def Pop_def Let_def split: server_pc.splits)
  ultimately show ?thesis using i by (auto simp: frames_inv_def)
qed

text \<open>The thread of the server alone, for a number of steps.\<close>

fun run_thread :: "nat \<Rightarrow> RequestServer \<Rightarrow> RequestServer" where
  "run_thread 0 s = s"
| "run_thread (Suc n) s = (case ThreadMain s of None \<Rightarrow> s | Some (r, t) \<Rightarrow> run_thread n t)"

text \<open>C34. \<open>Stop\<close> returns: in every state in which it waits for the thread of the server, however the thread was interleaved with the
  decoder and with \<open>Stop\<close> itself, the thread does not sleep, and three more steps of it end it, so that the join returns.
\<close>

theorem Stop_joins:
  assumes "reachable server_init server_step w" and "sv_stop w = Joining"
  shows "\<exists>t. rs_join (run_thread 3 (sv_server w)) = Some t \<and> rs_thread t = NoThread"
proof -
  have "thread_inv w" using server.reachable_inv [OF assms(1)] ..
  with assms(2) show ?thesis
    by (cases "rs_thread (sv_server w)"; cases "sq_queue (rs_queue (sv_server w))")
       (auto simp: thread_inv_def numeral_3_eq_3 ThreadMain_def WaitedFront_def Pop_def rs_join_def Let_def)
qed

text \<open>The thread starts and sleeps, a frame is pushed and a second one refused.\<close>

definition sample_server :: "bool \<Rightarrow> server_pc \<Rightarrow> byte list SyncQueue \<Rightarrow> RequestServer" where
  "sample_server stop pc q = \<lparr>rs_stop_working = stop, rs_thread = pc, rs_queue = q, rs_on_frame_cb = False, rs_frames = []\<rparr>"

definition sample_served :: server_world where
  "sample_served = \<lparr>sv_server = sample_server False InWait \<lparr>sq_queue = [[7]], cv_waiting = [], cv_woken = [SERVER]\<rparr>,
     sv_pushed = [[7], [8]], sv_pending = None, sv_stop = NotStopping\<rparr>"

lemma sample_served_reachable: "reachable server_init server_step sample_served"
proof -
  define q :: "byte list SyncQueue" where "q = \<lparr>sq_queue = [], cv_waiting = [SERVER], cv_woken = []\<rparr>"
  define a where "a = \<lparr>sv_server = RequestServer_new, sv_pushed = [], sv_pending = None, sv_stop = NotStopping\<rparr>"
  define b where "b = a\<lparr>sv_server := sample_server False AtLoop SyncQueue_new\<rparr>"
  define c where "c = a\<lparr>sv_server := sample_server False InWait SyncQueue_new\<rparr>"
  define d where "d = a\<lparr>sv_server := sample_server False InWait q\<rparr>"
  define e where "e = d\<lparr>sv_pushed := [[7]], sv_pending := Some [7]\<rparr>"
  define f where "f = e\<lparr>sv_server := buffer_push [7] (sv_server e), sv_pending := None\<rparr>"
  have s1: "server_step a b" using server_start [of a "sv_server b"] by (simp add: a_def b_def sample_server_def RequestServer_defs)
  have s2: "server_step b c"
    using server_thread [of b "Inr ()" "sv_server c"] by (simp add: a_def b_def c_def sample_server_def ThreadMain_def)
  have s3: "server_step c d" using server_thread [of c "Inr ()" "sv_server d"]
    by (simp add: a_def c_def d_def q_def sample_server_def ThreadMain_def SyncQueue_defs)
  have s4: "server_step d e" using server_test [of d "[7]"]
    by (simp add: a_def d_def e_def q_def sample_server_def buffer_wanted_def IsEmpty_def)
  have s5: "server_step e f" using server_push [of e "[7]"] by (simp add: e_def f_def)
  have s6: "server_step f sample_served" using server_test [of f "[8]"]
    by (simp add: a_def d_def e_def f_def q_def sample_served_def sample_server_def RequestServer_defs SyncQueue_defs)
  have "reachable server_init server_step a" by (rule reachable_init) (simp add: server_init_def a_def)
  note reachable_step [of server_init server_step, OF this s1]
  note reachable_step [of server_init server_step, OF this s2]
  note reachable_step [of server_init server_step, OF this s3]
  note reachable_step [of server_init server_step, OF this s4]
  note reachable_step [of server_init server_step, OF this s5]
  from reachable_step [of server_init server_step, OF this s6] show ?thesis .
qed

theorem frames_in_order_witness:
  "\<exists>w. reachable server_init server_step w \<and> sv_pushed w = [[7], [8]] \<and> sq_queue (rs_queue (sv_server w)) = [[7]] \<and>
     subseq (rs_frames (sv_server w)) [[7], [8]]"
  using sample_served_reachable frames_in_order [OF sample_served_reachable] by (auto simp: sample_served_def sample_server_def)

theorem Stop_joins_witness:
  "\<exists>w t. reachable server_init server_step w \<and> sv_stop w = Joining \<and> rs_thread (sv_server w) = InWait \<and>
     rs_join (run_thread 3 (sv_server w)) = Some t \<and> rs_thread t = NoThread"
proof -
  define b where "b = sample_served\<lparr>sv_server := rs_stop_flag (sv_server sample_served), sv_stop := Flagged\<rparr>"
  define c where "c = b\<lparr>sv_server := rs_stop_wake (sv_server b), sv_stop := Joining\<rparr>"
  have "server_step sample_served b" unfolding b_def by (rule server_flag) (simp add: sample_served_def)
  moreover have "server_step b c" unfolding c_def by (rule server_wake) (simp add: b_def)
  ultimately have r: "reachable server_init server_step c" using sample_served_reachable by (blast intro: reachable_step)
  moreover have j: "sv_stop c = Joining" "rs_thread (sv_server c) = InWait"
    by (simp_all add: c_def b_def sample_served_def sample_server_def rs_stop_flag_def rs_stop_wake_def)
  ultimately show ?thesis using Stop_joins [OF r j(1)] by blast
qed

end
