(* ===== verification/WebRtc_Model.thy ===== *)
theory WebRtc_Model
  imports WebRtcStream_Model RequestServer_Model
begin

text \<open>
  The WebRTC stream module: \<open>modules/webrtc/StreamManager.cc\<close> with its two subclasses \<open>modules/webrtc/SrcStreamManager.cc\<close> and
  \<open>modules/webrtc/SinkStreamManager.cc\<close>, and \<open>modules/webrtc/Module.cc\<close>.

  The manager of a stream is one record; \<open>sm_is_source\<close> tells the subclass.  Its callbacks into the
  module are set by the module's constructor, so an operation acts on the module and on the discovery
  object it updates.  GStreamer is not part of the sources: the pipeline that decodes the frames of a
  sink is the chain of elements it is built from, and what arrives from it is an operation.
\<close>

section \<open>StreamManager\<close>

text \<open>An element of the pipeline: its factory, the capabilities set on it, and whether its \<open>handoff\<close> signal is connected.\<close>

record GstElement =
  gst_factory :: string
  gst_caps :: "(string \<times> (string \<times> string) list) option"
  gst_handoff :: bool

record StreamManager =
  sm_is_source :: bool
  sm_is_started :: bool
  sm_width :: int
  sm_height :: int
  sm_frame_rate :: int
  sm_source_type :: string
  sm_format :: string
  sm_decode_codec :: string
  sm_topic :: string
  sm_watching_topic :: string
  sm_aitt_id :: string
  sm_thread_id :: string
  sm_peer_aitt_id :: string
  sm_stream :: WebRtcStream
  sm_stream_start_cb :: bool
  sm_stream_stop_cb :: bool
  sm_stream_state_cb :: bool
  sm_ice_candidate_added_cb :: bool
  sm_on_frame_cb :: bool
  sm_frame_received :: int
  sm_decode_pipeline :: "GstElement list option"
  sm_request_server :: RequestServer

definition on_ws :: "(WebRtcStream, 'a) act \<Rightarrow> (StreamManager, 'a) act" where
  "on_ws = zoom sm_stream (\<lambda>w s. s\<lparr>sm_stream := w\<rparr>)"

lemma on_ws_run [act_simps]: "on_ws a s = (case a (sm_stream s) of (r, w) \<Rightarrow> (r, s\<lparr>sm_stream := w\<rparr>))"
  by (simp add: on_ws_def act_simps)

definition do_ws :: "(WebRtcStream, 'a) act \<Rightarrow> (StreamManager, unit) act" where
  "do_ws a = sq (on_ws a) (ret ())"

lemma do_ws_run [act_simps]:
  "do_ws a s = (case a (sm_stream s) of (Inl e, w) \<Rightarrow> (Inl e, s\<lparr>sm_stream := w\<rparr>) | (Inr _, w) \<Rightarrow> (Inr (), s\<lparr>sm_stream := w\<rparr>))"
  by (simp add: do_ws_def act_simps split: prod.splits sum.splits)

definition StreamManager_init :: "bool \<Rightarrow> string \<Rightarrow> string \<Rightarrow> string \<Rightarrow> string \<Rightarrow> WebRtcStream \<Rightarrow> StreamManager" where
  "StreamManager_init is_source topic watching_topic aitt_id thread_id w =
     \<lparr>sm_is_source = is_source, sm_is_started = False, sm_width = 0, sm_height = 0, sm_frame_rate = 0, sm_source_type = ''NULL'',
      sm_format = [], sm_decode_codec = ''VP8'', sm_topic = topic, sm_watching_topic = watching_topic, sm_aitt_id = aitt_id,
      sm_thread_id = thread_id, sm_peer_aitt_id = [], sm_stream = w, sm_stream_start_cb = False, sm_stream_stop_cb = False,
      sm_stream_state_cb = False, sm_ice_candidate_added_cb = False, sm_on_frame_cb = False, sm_frame_received = 0,
      sm_decode_pipeline = None, sm_request_server = RequestServer_new\<rparr>"

text \<open>The base constructor: the stream is constructed as a member, then the data channel is added.\<close>

definition StreamManager_ctor :: "rtc_env \<Rightarrow> bool \<Rightarrow> string \<Rightarrow> string \<Rightarrow> string \<Rightarrow> string \<Rightarrow> exn + StreamManager" where
  "StreamManager_ctor E is_source topic watching_topic aitt_id thread_id =
     (case sq (WebRtcStream_ctor E) (AddDataChannel E) WebRtcStream_init of
        (Inl e, _) \<Rightarrow> Inl e
      | (Inr _, w) \<Rightarrow> Inr (StreamManager_init is_source topic watching_topic aitt_id thread_id w))"

definition IsStarted :: "StreamManager \<Rightarrow> bool" where
  "IsStarted s \<longleftrightarrow> sm_is_started s"

definition GetTopic :: "StreamManager \<Rightarrow> string" where
  "GetTopic s = sm_topic s"

definition GetWatchingTopic :: "StreamManager \<Rightarrow> string" where
  "GetWatchingTopic s = sm_watching_topic s"

text \<open>The callbacks into the module, of which each is set or null.\<close>

definition SetIceCandidateAddedCallback :: "bool \<Rightarrow> StreamManager \<Rightarrow> StreamManager" where
  "SetIceCandidateAddedCallback cb s = s\<lparr>sm_ice_candidate_added_cb := cb\<rparr>"

definition SetStreamStartCallback :: "bool \<Rightarrow> StreamManager \<Rightarrow> StreamManager" where
  "SetStreamStartCallback cb s = s\<lparr>sm_stream_start_cb := cb\<rparr>"

definition SetStreamStopCallback :: "bool \<Rightarrow> StreamManager \<Rightarrow> StreamManager" where
  "SetStreamStopCallback cb s = s\<lparr>sm_stream_stop_cb := cb\<rparr>"

definition SetStreamStateCallback :: "bool \<Rightarrow> StreamManager \<Rightarrow> StreamManager" where
  "SetStreamStateCallback cb s = s\<lparr>sm_stream_state_cb := cb\<rparr>"

definition sm_SetOnFrameCallback :: "bool \<Rightarrow> StreamManager \<Rightarrow> StreamManager" where
  "sm_SetOnFrameCallback cb s = s\<lparr>sm_on_frame_cb := cb\<rparr>"

declare IsStarted_def [simp] GetTopic_def [simp] GetWatchingTopic_def [simp] SetIceCandidateAddedCallback_def [simp]
  SetStreamStartCallback_def [simp] SetStreamStopCallback_def [simp] SetStreamStateCallback_def [simp]

definition sm_SetDisplay :: "rtc_env \<Rightarrow> ptr \<Rightarrow> (StreamManager, unit) act" where
  "sm_SetDisplay E display_object = on_ws (ws_SetDisplay E display_object)"

text \<open>The handlers the two subclasses bind in the stream.\<close>

definition src_SetWebRtcStreamCallbacks :: "(WebRtcStream, unit) act" where
  "src_SetWebRtcStreamCallbacks =
     sq (on_handler (SetOnStateChangedCb True))
     (sq (on_handler (SetOnSignalingStateNotifyCb True))
     (sq (on_handler (SetOnIceCandidateCb True)) (on_handler (SetOnSourceBufferStateCb True))))"

definition sink_SetWebRtcStreamCallbacks :: "(WebRtcStream, unit) act" where
  "sink_SetWebRtcStreamCallbacks =
     sq (on_handler (SetOnStateChangedCb True))
     (sq (on_handler (SetOnIceCandidateCb True))
     (sq (on_handler (SetOnEncodedFrameCb True)) (on_handler (SetOnTrackAddedCb True))))"

definition run_ctor :: "(StreamManager, unit) act \<Rightarrow> exn + StreamManager \<Rightarrow> exn + StreamManager" where
  "run_ctor a r = (case r of Inl e \<Rightarrow> Inl e | Inr s \<Rightarrow> (case a s of (Inl e, _) \<Rightarrow> Inl e | (Inr _, t) \<Rightarrow> Inr t))"

definition SrcStreamManager_ctor :: "rtc_env \<Rightarrow> string \<Rightarrow> string \<Rightarrow> string \<Rightarrow> exn + StreamManager" where
  "SrcStreamManager_ctor E topic aitt_id thread_id =
     run_ctor
       (sq (on_ws src_SetWebRtcStreamCallbacks)
       (sq (on_ws (AttachSignals E True))
       (sq (upd (\<lambda>s. s\<lparr>sm_source_type := ''CAMERA''\<rparr>))
       (sq (on_ws (ws_SetSourceType WEBRTC_MEDIA_SOURCE_TYPE_CAMERA)) (do_ws (ActivateSource E))))))
       (StreamManager_ctor E True (topic @ ''/SRC'') (topic @ ''/SINK'') aitt_id thread_id)"

definition SinkStreamManager_ctor :: "rtc_env \<Rightarrow> string \<Rightarrow> string \<Rightarrow> string \<Rightarrow> exn + StreamManager" where
  "SinkStreamManager_ctor E topic aitt_id thread_id =
     run_ctor
       (sq (on_ws sink_SetWebRtcStreamCallbacks)
       (sq (on_ws (AttachSignals E False))
       (sq (do_ws (ActivateSource E)) (\<lambda>s. on_ws (ws_SetDecodeCodec E (sm_decode_codec s)) s))))
       (StreamManager_ctor E False (topic @ ''/SINK'') (topic @ ''/SRC'') aitt_id thread_id)"

section \<open>Configuration\<close>

definition SetWidth :: "rtc_env \<Rightarrow> int \<Rightarrow> (StreamManager, unit) act" where
  "SetWidth E width =
     (\<lambda>s. if sm_width s = width then (Inr (), s)
          else sq (if sm_source_type s = ''MEDIA_PACKET'' \<and> sm_height s \<noteq> 0 \<and> sm_frame_rate s \<noteq> 0 \<and> sm_format s \<noteq> []
                   then do_ws (ws_SetMediaFormat E (sm_width s) (sm_height s) (sm_frame_rate s) (sm_format s))
                   else if sm_source_type s = ''CAMERA'' \<and> sm_height s \<noteq> 0 then do_ws (SetVideoResolution E width (sm_height s))
                   else ret ())
                  (upd (\<lambda>s. s\<lparr>sm_width := width\<rparr>)) s)"

definition SetHeight :: "rtc_env \<Rightarrow> int \<Rightarrow> (StreamManager, unit) act" where
  "SetHeight E height =
     (\<lambda>s. if sm_height s = height then (Inr (), s)
          else sq (if sm_source_type s = ''MEDIA_PACKET'' \<and> sm_width s \<noteq> 0 \<and> sm_frame_rate s \<noteq> 0 \<and> sm_format s \<noteq> []
                   then do_ws (ws_SetMediaFormat E (sm_width s) height (sm_frame_rate s) (sm_format s))
                   else if sm_source_type s = ''CAMERA'' \<and> sm_width s \<noteq> 0 then do_ws (SetVideoResolution E (sm_width s) height)
                   else ret ())
                  (upd (\<lambda>s. s\<lparr>sm_height := height\<rparr>)) s)"

definition SetFrameRate :: "rtc_env \<Rightarrow> int \<Rightarrow> (StreamManager, unit) act" where
  "SetFrameRate E frame_rate =
     (\<lambda>s. if sm_frame_rate s = frame_rate then (Inr (), s)
          else sq (if sm_source_type s = ''MEDIA_PACKET'' \<and> sm_width s \<noteq> 0 \<and> sm_height s \<noteq> 0 \<and> sm_format s \<noteq> []
                   then do_ws (ws_SetMediaFormat E (sm_width s) (sm_height s) frame_rate (sm_format s))
                   else if sm_source_type s = ''CAMERA'' then do_ws (SetVideoFrameRate E frame_rate)
                   else ret ())
                  (upd (\<lambda>s. s\<lparr>sm_frame_rate := frame_rate\<rparr>)) s)"

definition sm_SetSourceType :: "rtc_env \<Rightarrow> string \<Rightarrow> (StreamManager, unit) act" where
  "sm_SetSourceType E source_type =
     (\<lambda>s. if sm_source_type s = source_type then (Inr (), s)
          else sq (do_ws (DeactivateSource E))
              (sq (if source_type = ''MEDIA_PACKET''
                   then sq (on_ws (ws_SetSourceType WEBRTC_MEDIA_SOURCE_TYPE_MEDIA_PACKET))
                       (sq (do_ws (ActivateSource E))
                           (whenA (sm_width s \<noteq> 0 \<and> sm_height s \<noteq> 0 \<and> sm_frame_rate s \<noteq> 0 \<and> sm_format s \<noteq> [])
                              (do_ws (ws_SetMediaFormat E (sm_width s) (sm_height s) (sm_frame_rate s) (sm_format s)))))
                   else if source_type = ''CAMERA''
                   then sq (on_ws (ws_SetSourceType WEBRTC_MEDIA_SOURCE_TYPE_CAMERA))
                       (sq (do_ws (ActivateSource E))
                       (sq (whenA (sm_width s \<noteq> 0 \<and> sm_height s \<noteq> 0) (do_ws (SetVideoResolution E (sm_width s) (sm_height s))))
                           (whenA (sm_frame_rate s \<noteq> 0) (do_ws (SetVideoFrameRate E (sm_frame_rate s))))))
                   else if source_type = ''NULL''
                   then sq (on_ws (ws_SetSourceType WEBRTC_MEDIA_SOURCE_TYPE_NULL)) (do_ws (ActivateSource E))
                   else ret ())
                  (upd (\<lambda>s. s\<lparr>sm_source_type := source_type\<rparr>))) s)"

definition IsSupportedFormat :: "string \<Rightarrow> (StreamManager, unit) act" where
  "IsSupportedFormat format =
     (if format \<noteq> ''VP8'' \<and> format \<noteq> ''H264'' then raise (AittException INVALID_ARG) else ret ())"

definition sm_SetMediaFormat :: "rtc_env \<Rightarrow> string \<Rightarrow> (StreamManager, unit) act" where
  "sm_SetMediaFormat E format =
     (\<lambda>s. if sm_format s = format then (Inr (), s)
          else sq (IsSupportedFormat format)
              (sq (whenA (sm_source_type s = ''MEDIA_PACKET'' \<and> sm_width s \<noteq> 0 \<and> sm_height s \<noteq> 0 \<and> sm_frame_rate s \<noteq> 0)
                     (do_ws (ws_SetMediaFormat E (sm_width s) (sm_height s) (sm_frame_rate s) format)))
                  (upd (\<lambda>s. s\<lparr>sm_format := format\<rparr>))) s)"

definition sm_SetDecodeCodec :: "rtc_env \<Rightarrow> string \<Rightarrow> (StreamManager, unit) act" where
  "sm_SetDecodeCodec E cdc =
     (\<lambda>s. if sm_decode_codec s = cdc then (Inr (), s)
          else sq (IsSupportedFormat cdc)
              (sq (whenA (sm_source_type s = ''NULL'') (on_ws (ws_SetDecodeCodec E cdc)))
                  (upd (\<lambda>s. s\<lparr>sm_decode_codec := cdc\<rparr>))) s)"

section \<open>The module and its world\<close>

datatype stream_event = StateChanged nat int ptr

record WebRtcModule =
  wm_discovery_cb :: int
  wm_manager :: StreamManager
  wm_state_callback :: "(nat \<times> ptr) option"
  wm_receive_callback :: "(nat \<times> ptr) option"
  wm_events :: "stream_event list"

type_synonym rtc_world = "WebRtcModule \<times> AittDiscovery"

record rtc_module_env =
  rme_mq :: mq_env
  rme_fb :: flexbuf
  rme_rtc :: rtc_env
  rme_packet_ok :: "ptr \<Rightarrow> bool"

definition on_sm :: "(StreamManager, 'a) act \<Rightarrow> (rtc_world, 'a) act" where
  "on_sm = zoom (wm_manager \<circ> fst) (\<lambda>m w. ((fst w)\<lparr>wm_manager := m\<rparr>, snd w))"

definition on_rtc_disc :: "(AittDiscovery, 'a) act \<Rightarrow> (rtc_world, 'a) act" where
  "on_rtc_disc = zoom snd (\<lambda>d w. (fst w, d))"

lemma on_sm_run [act_simps]:
  "on_sm a w = (case a (wm_manager (fst w)) of (r, m) \<Rightarrow> (r, ((fst w)\<lparr>wm_manager := m\<rparr>, snd w)))"
  "on_rtc_disc b w = (case b (snd w) of (r', d) \<Rightarrow> (r', (fst w, d)))"
  by (simp_all add: on_sm_def on_rtc_disc_def act_simps)

abbreviation sm :: "rtc_world \<Rightarrow> StreamManager" where "sm w \<equiv> wm_manager (fst w)"

definition stream_info_fb :: "WebRtcStream \<Rightarrow> fb" where
  "stream_info_fb w =
     FbMap [(''id'', FbString (ws_id w)), (''peer_id'', FbString (ws_peer_id w)), (''sdp'', FbString (ws_local_description w)),
            (''ice_candidates'', FbVector (map FbString (ws_ice_candidates w)))]"

definition src_GetDiscoveryMessage :: "flexbuf \<Rightarrow> StreamManager \<Rightarrow> byte list" where
  "src_GetDiscoveryMessage F s = fb_finish F (stream_info_fb (sm_stream s))"

definition sink_GetDiscoveryMessage :: "flexbuf \<Rightarrow> StreamManager \<Rightarrow> byte list" where
  "sink_GetDiscoveryMessage F s = fb_finish F (stream_info_fb (sm_stream s))"

definition GetDiscoveryMessage :: "flexbuf \<Rightarrow> StreamManager \<Rightarrow> byte list" where
  "GetDiscoveryMessage F s = (if sm_is_source s then src_GetDiscoveryMessage F s else sink_GetDiscoveryMessage F s)"

definition OnIceCandidateAdded :: "rtc_module_env \<Rightarrow> (rtc_world, unit) act" where
  "OnIceCandidateAdded E =
     (\<lambda>w. on_rtc_disc (UpdateDiscoveryMsg (rme_mq E) (rme_fb E) (GetTopic (sm w)) (GetDiscoveryMessage (rme_fb E) (sm w))) w)"

definition OnStreamStarted :: "rtc_module_env \<Rightarrow> (rtc_world, unit) act" where
  "OnStreamStarted E =
     (\<lambda>w. on_rtc_disc (UpdateDiscoveryMsg (rme_mq E) (rme_fb E) (GetTopic (sm w)) (fb_finish (rme_fb E) (FbString ''START''))) w)"

definition OnStreamStopped :: "rtc_module_env \<Rightarrow> (rtc_world, unit) act" where
  "OnStreamStopped E =
     (\<lambda>w. on_rtc_disc (UpdateDiscoveryMsg (rme_mq E) (rme_fb E) (GetTopic (sm w)) (fb_finish (rme_fb E) (FbString ''STOP''))) w)"

definition stream_state :: "string \<Rightarrow> int option" where
  "stream_state st =
     (if st = ''IDLE'' then Some AITT_STREAM_STATE_INIT
      else if st = ''PLAYING'' then Some AITT_STREAM_STATE_PLAYING
      else if st = ''UNDERFLOW'' then Some AITT_STREAM_STATE_UNDERFLOW
      else if st = ''OVERFLOW'' then Some AITT_STREAM_STATE_OVERFLOW else None)"

definition OnStreamState :: "string \<Rightarrow> (rtc_world, unit) act" where
  "OnStreamState st =
     upd (\<lambda>w. case (wm_state_callback (fst w), stream_state st) of
        (Some (n, user_data), Some k) \<Rightarrow> ((fst w)\<lparr>wm_events := wm_events (fst w) @ [StateChanged n k user_data]\<rparr>, snd w)
      | _ \<Rightarrow> w)"

text \<open>A callback into the module, when it is set.\<close>

definition callback :: "(StreamManager \<Rightarrow> bool) \<Rightarrow> (rtc_world, unit) act \<Rightarrow> (rtc_world, unit) act" where
  "callback cb a = (\<lambda>w. whenA (cb (sm w)) a w)"

definition sm_Start :: "rtc_module_env \<Rightarrow> (rtc_world, unit) act" where
  "sm_Start E = sq (callback sm_stream_start_cb (OnStreamStarted E)) (on_sm (upd (\<lambda>s. s\<lparr>sm_is_started := True\<rparr>)))"

definition sm_Stop :: "rtc_module_env \<Rightarrow> (rtc_world, unit) act" where
  "sm_Stop E =
     sq (on_sm (upd (\<lambda>s. s\<lparr>sm_peer_aitt_id := []\<rparr>)))
     (sq (on_sm (on_ws (Destroy (rme_rtc E))))
     (sq (callback sm_stream_stop_cb (OnStreamStopped E)) (on_sm (upd (\<lambda>s. s\<lparr>sm_is_started := False\<rparr>)))))"

definition HandleRemovedClient :: "rtc_env \<Rightarrow> string \<Rightarrow> (StreamManager, unit) act" where
  "HandleRemovedClient E discovery_id =
     (\<lambda>s. if sm_peer_aitt_id s \<noteq> discovery_id then (Inr (), s) else on_ws (Destroy E) s)"

section \<open>Messages of the peer\<close>

definition set_stream_id :: "rtc_env \<Rightarrow> (StreamManager, unit) act" where
  "set_stream_id E = upd (\<lambda>s. s\<lparr>sm_stream := SetStreamId (sm_thread_id s @ we_this E) (sm_stream s)\<rparr>)"

definition src_AddStream :: "rtc_env \<Rightarrow> string \<Rightarrow> string \<Rightarrow> string \<Rightarrow> string list \<Rightarrow> (StreamManager, unit) act" where
  "src_AddStream E discovery_id i sdp ice_candidates =
     sq (do_ws (ws_Start E))
     (sq (set_stream_id E)
     (sq (upd (\<lambda>s. s\<lparr>sm_stream := SetPeerId i (sm_stream s), sm_peer_aitt_id := discovery_id\<rparr>))
         (do_ws (AddPeerInformation E sdp ice_candidates))))"

definition src_UpdateStreamInfo ::
  "rtc_env \<Rightarrow> string \<Rightarrow> string \<Rightarrow> string \<Rightarrow> string \<Rightarrow> string list \<Rightarrow> (StreamManager, unit) act" where
  "src_UpdateStreamInfo E discovery_id i peer_id sdp ice_candidates =
     (\<lambda>s. if sm_peer_aitt_id s = [] then src_AddStream E discovery_id i sdp ice_candidates s
          else if sm_peer_aitt_id s = discovery_id \<and> peer_id \<noteq> GetStreamId (sm_stream s)
          then on_ws (UpdatePeerInformation E ice_candidates) s
          else (Inr (), s))"

definition sink_UpdateStreamInfo ::
  "rtc_env \<Rightarrow> string \<Rightarrow> string \<Rightarrow> string \<Rightarrow> string \<Rightarrow> string list \<Rightarrow> (StreamManager, unit) act" where
  "sink_UpdateStreamInfo E discovery_id i peer_id sdp ice_candidates =
     (\<lambda>s. if sm_peer_aitt_id s \<noteq> discovery_id then (Inr (), s)
          else if peer_id \<noteq> GetStreamId (sm_stream s) then (Inr (), s)
          else if GetPeerId (sm_stream s) = []
          then sq (upd (\<lambda>s. s\<lparr>sm_stream := SetPeerId i (sm_stream s)\<rparr>)) (do_ws (AddPeerInformation E sdp ice_candidates)) s
          else on_ws (UpdatePeerInformation E ice_candidates) s)"

text \<open>The four entries of a message, which both subclasses read in the same way.\<close>

definition read_stream_info :: "flexbuf \<Rightarrow> byte list \<Rightarrow> string \<times> string \<times> string \<times> string list" where
  "read_stream_info F message =
     (let stream = fb_root F message
      in (fb_as_string F (fb_lookup F stream ''id''), fb_as_string F (fb_lookup F stream ''peer_id''),
          fb_as_string F (fb_lookup F stream ''sdp''),
          map (fb_as_string F) (fb_as_vector F (fb_lookup F stream ''ice_candidates''))))"

definition src_HandleStreamInfo :: "rtc_module_env \<Rightarrow> string \<Rightarrow> byte list \<Rightarrow> (StreamManager, unit) act" where
  "src_HandleStreamInfo E discovery_id message =
     (if \<not> IsValidStreamInfo (rme_fb E) message then ret ()
      else case read_stream_info (rme_fb E) message of (i, peer_id, sdp, ice_candidates) \<Rightarrow>
        src_UpdateStreamInfo (rme_rtc E) discovery_id i peer_id sdp ice_candidates)"

definition sink_HandleStreamInfo :: "rtc_module_env \<Rightarrow> string \<Rightarrow> byte list \<Rightarrow> (StreamManager, unit) act" where
  "sink_HandleStreamInfo E discovery_id message =
     (if \<not> IsValidStreamInfo (rme_fb E) message then ret ()
      else case read_stream_info (rme_fb E) message of (i, peer_id, sdp, ice_candidates) \<Rightarrow>
        sink_UpdateStreamInfo (rme_rtc E) discovery_id i peer_id sdp ice_candidates)"

text \<open>
  The pipeline of a sink: the elements in the order in which they are linked.  Whether they link and
  whether the pipeline starts is only logged.
\<close>

definition gst_element_factory_make :: "string \<Rightarrow> GstElement" where
  "gst_element_factory_make factory = \<lparr>gst_factory = factory, gst_caps = None, gst_handoff = False\<rparr>"

definition BuildDecodePipeline :: "StreamManager \<Rightarrow> StreamManager" where
  "BuildDecodePipeline s =
     (let src = gst_element_factory_make ''appsrc'';
          (src, dec) =
            (if sm_decode_codec s = ''H264''
             then (src\<lparr>gst_caps := Some (''video/x-h264'', [(''stream-format'', ''byte-stream''), (''alignment'', ''au'')])\<rparr>,
                   gst_element_factory_make ''avdec_h264'')
             else (src\<lparr>gst_caps := Some (''video/x-vp8'', [])\<rparr>, gst_element_factory_make ''vp8dec''));
          convert = gst_element_factory_make ''videoconvert'';
          flt = (gst_element_factory_make ''capsfilter'')\<lparr>gst_caps := Some (''video/x-raw'', [(''format'', ''BGR'')])\<rparr>;
          queue_fake_sink = gst_element_factory_make ''queue2'';
          fake_sink = (gst_element_factory_make ''fakesink'')\<lparr>gst_handoff := True\<rparr>
      in s\<lparr>sm_decode_pipeline := Some [src, dec, convert, flt, queue_fake_sink, fake_sink]\<rparr>)"

definition sink_AddStream :: "rtc_env \<Rightarrow> string \<Rightarrow> (StreamManager, unit) act" where
  "sink_AddStream E discovery_id =
     sq (do_ws (ws_Start E))
     (sq (set_stream_id E) (upd (\<lambda>s. s\<lparr>sm_peer_aitt_id := discovery_id\<rparr>)))"

definition HandleStartStream :: "rtc_env \<Rightarrow> string \<Rightarrow> (StreamManager, unit) act" where
  "HandleStartStream E discovery_id =
     (\<lambda>s. if sm_peer_aitt_id s \<noteq> [] then (Inr (), s)
          else sq (sink_AddStream E discovery_id)
              (sq (\<lambda>s. whenA (\<not> IsDisplaySink (sm_stream s)) (upd BuildDecodePipeline) s)
                  (zoom sm_request_server (\<lambda>r s. s\<lparr>sm_request_server := r\<rparr>) rs_Start)) s)"

definition src_HandleStreamState :: "rtc_module_env \<Rightarrow> string \<Rightarrow> byte list \<Rightarrow> (StreamManager, unit) act" where
  "src_HandleStreamState E discovery_id message =
     (if fb_as_string (rme_fb E) (fb_root (rme_fb E) message) = ''STOP'' then HandleRemovedClient (rme_rtc E) discovery_id else ret ())"

definition sink_HandleStreamState :: "rtc_module_env \<Rightarrow> string \<Rightarrow> byte list \<Rightarrow> (StreamManager, unit) act" where
  "sink_HandleStreamState E discovery_id message =
     (let src_state = fb_as_string (rme_fb E) (fb_root (rme_fb E) message) in
      if src_state = ''START'' then HandleStartStream (rme_rtc E) discovery_id
      else if src_state = ''STOP'' then HandleRemovedClient (rme_rtc E) discovery_id else ret ())"

definition HandleMsg :: "rtc_module_env \<Rightarrow> string \<Rightarrow> byte list \<Rightarrow> (StreamManager, unit) act" where
  "HandleMsg E discovery_id message =
     (\<lambda>s. if IsString (fb_root (rme_fb E) message)
          then (if sm_is_source s then src_HandleStreamState else sink_HandleStreamState) E discovery_id message s
          else if IsVector (fb_root (rme_fb E) message)
          then (if sm_is_source s then src_HandleStreamInfo else sink_HandleStreamInfo) E discovery_id message s
          else (Inr (), s))"

section \<open>Events of the stream\<close>

definition src_OnStreamStateChanged :: "WebRtcState_Stream \<Rightarrow> (rtc_world, unit) act" where
  "src_OnStreamStateChanged st = callback sm_stream_state_cb (OnStreamState (StreamToStr st))"

definition src_OnSignalingStateNotify :: "rtc_module_env \<Rightarrow> WebRtcState_Signaling \<Rightarrow> (rtc_world, unit) act" where
  "src_OnSignalingStateNotify E st =
     whenA (st = Signaling_HAVE_REMOTE_OFFER) (on_sm (do_ws (CreateAnswerAsync (rme_rtc E))))"

definition src_OnIceCandidate :: "rtc_module_env \<Rightarrow> (rtc_world, unit) act" where
  "src_OnIceCandidate E = callback sm_ice_candidate_added_cb (OnIceCandidateAdded E)"

definition src_OnSourceBufferStateNotify :: "WebRtcState_SourceBufferState \<Rightarrow> (rtc_world, unit) act" where
  "src_OnSourceBufferStateNotify st = callback sm_stream_state_cb (OnStreamState (SourceBufferStateToStr st))"

definition src_handle :: "rtc_module_env \<Rightarrow> rtc_event \<Rightarrow> (rtc_world, unit) act" where
  "src_handle E e =
     (case e of
        OnStateChangedCb st \<Rightarrow> src_OnStreamStateChanged st
      | OnSignalingStateNotifyCb st \<Rightarrow> src_OnSignalingStateNotify E st
      | OnIceCandidateCb _ \<Rightarrow> src_OnIceCandidate E
      | OnSourceBufferStateCb st \<Rightarrow> src_OnSourceBufferStateNotify st
      | _ \<Rightarrow> ret ())"

definition sink_OnStreamStateChanged :: "rtc_module_env \<Rightarrow> WebRtcState_Stream \<Rightarrow> (rtc_world, unit) act" where
  "sink_OnStreamStateChanged E st =
     sq (callback sm_stream_state_cb (OnStreamState (StreamToStr st)))
        (whenA (st = Stream_NEGOTIATING) (on_sm (do_ws (CreateOfferAsync (rme_rtc E)))))"

definition sink_OnIceCandidate :: "rtc_module_env \<Rightarrow> (rtc_world, unit) act" where
  "sink_OnIceCandidate E = callback sm_ice_candidate_added_cb (OnIceCandidateAdded E)"

text \<open>
  A frame of a sink: \<open>media_packet_get_extra\<close> may fail; a packet that was pushed into the pipeline is
  destroyed, and every hundredth prints the statistics.
\<close>

definition sink_OnEncodedFrame :: "rtc_env \<Rightarrow> bool \<Rightarrow> (StreamManager, unit) act" where
  "sink_OnEncodedFrame E buffer_ok =
     (if \<not> buffer_ok then ret ()
      else sq (upd (\<lambda>s. s\<lparr>sm_frame_received := sm_frame_received s + 1\<rparr>))
              (\<lambda>s. whenA (sm_frame_received s mod 100 = 0) (on_ws (PrintStats E)) s))"

definition sink_OnTrackAdded :: "(StreamManager, unit) act" where
  "sink_OnTrackAdded = upd (\<lambda>s. s\<lparr>sm_frame_received := 0\<rparr>)"

definition sink_handle :: "rtc_module_env \<Rightarrow> rtc_event \<Rightarrow> (rtc_world, unit) act" where
  "sink_handle E e =
     (case e of
        OnStateChangedCb st \<Rightarrow> sink_OnStreamStateChanged E st
      | OnIceCandidateCb _ \<Rightarrow> sink_OnIceCandidate E
      | OnEncodedFrameCb packet \<Rightarrow> on_sm (sink_OnEncodedFrame (rme_rtc E) (rme_packet_ok E packet))
      | OnTrackAddedCb _ \<Rightarrow> on_sm sink_OnTrackAdded
      | _ \<Rightarrow> ret ())"

text \<open>A callback of the library with the handlers it calls.\<close>

definition rtc_callback :: "rtc_module_env \<Rightarrow> (WebRtcStream, rtc_event list) act \<Rightarrow> (rtc_world, unit) act" where
  "rtc_callback E a =
     bnd (on_sm (on_ws a)) (\<lambda>es.
     (\<lambda>w. forA es (if sm_is_source (sm w) then src_handle E else sink_handle E) w))"

text \<open>A decoded frame: the name of its format, its size and its bytes (\<open>None\<close> for a null buffer).\<close>

definition HandleFrame :: "byte list option \<Rightarrow> StreamManager \<Rightarrow> StreamManager" where
  "HandleFrame buffer s =
     (case buffer of None \<Rightarrow> s | Some data \<Rightarrow> s\<lparr>sm_request_server := PushBuffer data (sm_request_server s)\<rparr>)"

definition OnSignalHandOff :: "rtc_env \<Rightarrow> (string \<times> int \<times> int) option \<Rightarrow> byte list option \<Rightarrow> (StreamManager, unit) act" where
  "OnSignalHandOff E vinfo buffer =
     (case vinfo of
        None \<Rightarrow> ret ()
      | Some (name, width, height) \<Rightarrow>
          if width = 0 \<or> height = 0 then ret ()
          else sq (sm_SetMediaFormat E name) (sq (SetWidth E width) (sq (SetHeight E height) (upd (HandleFrame buffer)))))"

definition src_Push :: "rtc_env \<Rightarrow> ptr \<Rightarrow> (StreamManager, int) act" where
  "src_Push E obj = (\<lambda>s. if sm_source_type s \<noteq> ''MEDIA_PACKET'' then (Inr (- 1), s) else on_ws (ws_Push E obj) s)"

definition sink_Push :: "ptr \<Rightarrow> (StreamManager, int) act" where
  "sink_Push obj = ret (- 1)"

section \<open>Module\<close>

abbreviation (input) RTC_DISCOVERY_CB :: nat where "RTC_DISCOVERY_CB \<equiv> 7"

text \<open>The callback for frames: a source keeps it in the manager, where nothing calls it; a sink hands it to its server.\<close>

definition sink_SetOnFrameCallback :: "bool \<Rightarrow> StreamManager \<Rightarrow> StreamManager" where
  "sink_SetOnFrameCallback cb s = s\<lparr>sm_request_server := rs_SetOnFrameCallback cb (sm_request_server s)\<rparr>"

text \<open>Deleting a sink stops its server and gives up the pipeline.\<close>

definition SinkStreamManager_dtor :: "StreamManager \<Rightarrow> StreamManager" where
  "SinkStreamManager_dtor s = s\<lparr>sm_request_server := rs_Stop (sm_request_server s), sm_decode_pipeline := None\<rparr>"

definition WebRtcModule_ctor :: "rtc_module_env \<Rightarrow> string \<Rightarrow> string \<Rightarrow> AittStreamRole \<Rightarrow> (AittDiscovery, WebRtcModule) act" where
  "WebRtcModule_ctor E thread_id topic role =
     (\<lambda>d. case (if role = AITT_STREAM_ROLE_PUBLISHER then SrcStreamManager_ctor (rme_rtc E) topic (disc_id d) thread_id
               else SinkStreamManager_ctor (rme_rtc E) topic (disc_id d) thread_id) of
        Inl e \<Rightarrow> (Inl e, d)
      | Inr m \<Rightarrow>
          bnd (AddDiscoveryCB (GetWatchingTopic m) RTC_DISCOVERY_CB) (\<lambda>cb.
          ret \<lparr>wm_discovery_cb = cb,
               wm_manager = SetStreamStateCallback True (SetStreamStopCallback True (SetStreamStartCallback True
                 (SetIceCandidateAddedCallback True m))),
               wm_state_callback = None,
               wm_receive_callback = None, wm_events = []\<rparr>) d)"

text \<open>The entry point of the library.\<close>

definition rtc_AITT_STREAM_NEW :: "rtc_module_env \<Rightarrow> string \<Rightarrow> string \<Rightarrow> AittStreamRole \<Rightarrow> (AittDiscovery, WebRtcModule) act" where
  "rtc_AITT_STREAM_NEW E thread_id topic role = WebRtcModule_ctor E thread_id topic role"

text \<open>Deleting the manager: the destructor of the subclass first, then that of the stream.\<close>

definition WebRtcModule_dtor :: "rtc_module_env \<Rightarrow> (rtc_world, unit) act" where
  "WebRtcModule_dtor E =
     sq (\<lambda>w. on_rtc_disc (RemoveDiscoveryCB (wm_discovery_cb (fst w))) w)
        (on_sm (sq (upd (\<lambda>s. if sm_is_source s then s else SinkStreamManager_dtor s)) (on_ws (WebRtcStream_dtor (rme_rtc E)))))"

text \<open>\<open>std::stoi\<close> in the conditions and in the calls: what it throws is caught.\<close>

definition with_int :: "string \<Rightarrow> (int \<Rightarrow> ('s, unit) act) \<Rightarrow> ('s, unit) act" where
  "with_int value f = (case stoi value of Inl e \<Rightarrow> raise e | Inr n \<Rightarrow> f n)"

definition config_key :: "rtc_env \<Rightarrow> string \<Rightarrow> string \<Rightarrow> (StreamManager, unit) act" where
  "config_key E key value =
     (if key = ''WIDTH'' then with_int value (\<lambda>n. if 0 < n then SetWidth E n else raise (AittException INVALID_ARG))
      else if key = ''HEIGHT'' then with_int value (\<lambda>n. if 0 < n then SetHeight E n else raise (AittException INVALID_ARG))
      else if key = ''FRAME_RATE'' then with_int value (SetFrameRate E)
      else if key = ''MEDIA_FORMAT'' then sm_SetMediaFormat E value
      else if key = ''SOURCE_TYPE'' then sm_SetSourceType E value
      else if key = ''DECODE_CODEC'' then sm_SetDecodeCodec E value
      else raise (AittException INVALID_ARG))"

definition rtc_SetConfig :: "rtc_module_env \<Rightarrow> string \<Rightarrow> string \<Rightarrow> (rtc_world, unit) act" where
  "rtc_SetConfig E key value =
     (\<lambda>w. if IsStarted (sm w) then (Inl (AittException RESOURCE_BUSY_ERR), w)
          else tryA (on_sm (config_key (rme_rtc E) key value)) (\<lambda>_. raise (AittException INVALID_ARG)) w)"

definition rtc_SetConfig_obj :: "rtc_module_env \<Rightarrow> string \<Rightarrow> ptr \<Rightarrow> (rtc_world, unit) act" where
  "rtc_SetConfig_obj E key obj =
     (\<lambda>w. if IsStarted (sm w) then (Inl (AittException RESOURCE_BUSY_ERR), w)
          else if key = ''DISPLAY_OBJECT'' then on_sm (sm_SetDisplay (rme_rtc E) obj) w
          else (Inl (AittException INVALID_ARG), w))"

definition rtc_GetFormat :: "rtc_world \<Rightarrow> string" where
  "rtc_GetFormat w = sm_format (sm w)"

definition rtc_GetWidth :: "rtc_world \<Rightarrow> int" where
  "rtc_GetWidth w = sm_width (sm w)"

definition rtc_GetHeight :: "rtc_world \<Rightarrow> int" where
  "rtc_GetHeight w = sm_height (sm w)"

definition rtc_Start :: "rtc_module_env \<Rightarrow> (rtc_world, unit) act" where
  "rtc_Start E = sm_Start E"

definition rtc_Stop :: "(rtc_world, unit) act" where
  "rtc_Stop = ret ()"

definition rtc_Push :: "rtc_module_env \<Rightarrow> ptr \<Rightarrow> (rtc_world, int) act" where
  "rtc_Push E obj = on_sm (\<lambda>s. if sm_is_source s then src_Push (rme_rtc E) obj s else sink_Push obj s)"

definition rtc_SetStateCallback :: "(nat \<times> ptr) option \<Rightarrow> (rtc_world, unit) act" where
  "rtc_SetStateCallback cb = upd (\<lambda>w. ((fst w)\<lparr>wm_state_callback := cb\<rparr>, snd w))"

definition rtc_SetReceiveCallback :: "(nat \<times> ptr) option \<Rightarrow> (rtc_world, unit) act" where
  "rtc_SetReceiveCallback cb =
     sq (upd (\<lambda>w. ((fst w)\<lparr>wm_receive_callback := cb\<rparr>, snd w)))
        (on_sm (upd (\<lambda>s. if sm_is_source s then sm_SetOnFrameCallback True s else sink_SetOnFrameCallback True s)))"

definition rtc_DiscoveryMessageCallback :: "rtc_module_env \<Rightarrow> string \<Rightarrow> string \<Rightarrow> byte list \<Rightarrow> (rtc_world, unit) act" where
  "rtc_DiscoveryMessageCallback E clientId status msg =
     (if status = WILL_LEAVE_NETWORK then on_sm (HandleRemovedClient (rme_rtc E) clientId)
      else on_sm (HandleMsg E clientId msg))"

end
