(* ===== verification/WebRtc_Props.thy ===== *)
theory WebRtc_Props
  imports WebRtc_Model
begin

text \<open>
  What the WebRTC module guarantees of one device: what a message of the peer gives to the WebRTC handle, and that a
  refused configuration changes nothing.  The session of two devices is in \<open>WebRtc_Session\<close>.
\<close>

section \<open>Candidates\<close>

text \<open>The candidates a list adds to those already stored: each new one once, in order.\<close>

fun fresh_candidates :: "string list \<Rightarrow> string list \<Rightarrow> string list" where
  "fresh_candidates st [] = []"
| "fresh_candidates st (c # cs) =
     (if c \<in> set st then fresh_candidates st cs else c # fresh_candidates (st @ [c]) cs)"

lemma fresh_candidates_distinct: "distinct st \<Longrightarrow> distinct (st @ fresh_candidates st cs)"
  by (induction st cs rule: fresh_candidates.induct) (auto split: if_splits)

lemma fresh_candidates_set: "set (st @ fresh_candidates st cs) = set st \<union> set cs"
  by (induction st cs rule: fresh_candidates.induct) auto

lemma fresh_candidates_Nil: "distinct cs \<Longrightarrow> set cs \<inter> set st = {} \<Longrightarrow> fresh_candidates st cs = cs"
  by (induction st cs rule: fresh_candidates.induct) auto

text \<open>A library that accepts every call while it negotiates.\<close>

definition rtc_negotiates :: "rtc_env \<Rightarrow> bool" where
  "rtc_negotiates E \<longleftrightarrow> (\<forall>cs c. we_ret E cs c = WEBRTC_ERROR_NONE) \<and> (\<forall>cs. we_state E cs = WEBRTC_STATE_NEGOTIATING)"

lemma rtc_negotiatesD:
  "rtc_negotiates E \<Longrightarrow> we_ret E cs c = WEBRTC_ERROR_NONE" "rtc_negotiates E \<Longrightarrow> we_state E cs = WEBRTC_STATE_NEGOTIATING"
  by (simp_all add: rtc_negotiates_def)

lemma add_candidates_accepted:
  assumes "rtc_negotiates E"
  shows "add_candidates E cs s = (Inr True, s\<lparr>
     ws_calls := ws_calls s @ map (Rtc_add_ice_candidate (ws_handle s)) (fresh_candidates (ws_stored_peer_ice_candidates s) cs),
     ws_stored_peer_ice_candidates := ws_stored_peer_ice_candidates s @ fresh_candidates (ws_stored_peer_ice_candidates s) cs\<rparr>)"
proof (induction cs arbitrary: s)
  case (Cons c cs)
  show ?case
    by (simp add: IsRedundantCandidate_def AddIceCandidateFromMessage_def act_simps rtc_negotiatesD [OF assms] Cons.IH)
qed (simp add: act_simps)

lemma AddPeerInformation_accepted:
  assumes "rtc_negotiates E" and "sdp \<noteq> []"
  shows "AddPeerInformation E sdp cs s = (Inr True, s\<lparr>
     ws_calls := ws_calls s @ [Rtc_get_state (ws_handle s), Rtc_set_remote_description (ws_handle s) sdp]
       @ map (Rtc_add_ice_candidate (ws_handle s)) (fresh_candidates (ws_stored_peer_ice_candidates s) cs),
     ws_remote_description := [], ws_peer_ice_candidates := cs,
     ws_stored_peer_ice_candidates := ws_stored_peer_ice_candidates s @ fresh_candidates (ws_stored_peer_ice_candidates s) cs\<rparr>)"
  using assms(2)
  by (simp add: AddPeerInformation_def IsNegotiatingState_def in_state_def SetPeerInformation_def SetPeerSDP_def
      SetRemoteDescription_def SetPeerIceCandidates_def act_simps rtc_negotiatesD [OF assms(1)] add_candidates_accepted [OF assms(1)])

section \<open>Reading the stream information back\<close>

lemma stream_info_read:
  assumes "flexbuf_ok F"
  defines "v w \<equiv> fb_root F (fb_finish F (stream_info_fb w))"
  shows "IsMap (v w)" and "fb_lookup F (v w) ''id'' = FbString (ws_id w)"
    and "fb_lookup F (v w) ''peer_id'' = FbString (ws_peer_id w)" and "fb_lookup F (v w) ''sdp'' = FbString (ws_local_description w)"
    and "fb_lookup F (v w) ''ice_candidates'' = FbVector (map FbString (ws_ice_candidates w))"
proof -
  note F = flexbuf_okD [OF assms(1)]
  have wf: "fb_wf (stream_info_fb w)" by (simp add: stream_info_fb_def list_all_iff)
  then have v: "v w = fb_norm (stream_info_fb w)" by (simp add: v_def F)
  then show "IsMap (v w)" by (simp add: stream_info_fb_def IsMap_def)
  have l: "fb_lookup F (v w) k = (case map_of [(''id'', FbString (ws_id w)), (''peer_id'', FbString (ws_peer_id w)),
      (''sdp'', FbString (ws_local_description w)), (''ice_candidates'', FbVector (map FbString (ws_ice_candidates w)))] k of
        None \<Rightarrow> FbNull | Some x \<Rightarrow> fb_norm x)" for k
    unfolding v stream_info_fb_def by (rule fb_lookup_norm [OF assms(1)]) simp
  show "fb_lookup F (v w) ''id'' = FbString (ws_id w)" "fb_lookup F (v w) ''peer_id'' = FbString (ws_peer_id w)"
    "fb_lookup F (v w) ''sdp'' = FbString (ws_local_description w)"
    "fb_lookup F (v w) ''ice_candidates'' = FbVector (map FbString (ws_ice_candidates w))"
    by (simp_all add: l comp_def)
qed

lemma GetDiscoveryMessage_eq: "GetDiscoveryMessage F s = fb_finish F (stream_info_fb (sm_stream s))"
  by (simp add: GetDiscoveryMessage_def src_GetDiscoveryMessage_def sink_GetDiscoveryMessage_def)

lemma HandleMsg_stream_info:
  assumes "flexbuf_ok (rme_fb E)"
  shows "HandleMsg E did (GetDiscoveryMessage (rme_fb E) p) s =
    (if sm_is_source s then src_UpdateStreamInfo else sink_UpdateStreamInfo) (rme_rtc E) did
      (ws_id (sm_stream p)) (ws_peer_id (sm_stream p)) (ws_local_description (sm_stream p)) (ws_ice_candidates (sm_stream p)) s"
proof -
  note r = stream_info_read [OF assms, of "sm_stream p"]
  have "\<not> IsString (fb_root (rme_fb E) (GetDiscoveryMessage (rme_fb E) p))"
    "IsVector (fb_root (rme_fb E) (GetDiscoveryMessage (rme_fb E) p))"
    using r(1) by (auto simp: IsMap_def IsString_def IsVector_def GetDiscoveryMessage_eq split: fb.splits)
  moreover have "IsValidStreamInfo (rme_fb E) (GetDiscoveryMessage (rme_fb E) p)"
    using r by (simp add: IsValidStreamInfo_def IsValidStream_def IsString_def IsVector_def GetDiscoveryMessage_eq)
  ultimately show ?thesis
    using r flexbuf_okD [OF assms]
    by (simp add: HandleMsg_def src_HandleStreamInfo_def sink_HandleStreamInfo_def read_stream_info_def GetDiscoveryMessage_eq
        Let_def comp_def)
qed

section \<open>Samples\<close>

text \<open>A sink that has a peer, and a library that accepts everything.\<close>

definition sample_rtc :: "string \<Rightarrow> rtc_env" where
  "sample_rtc this =
     \<lparr>we_ret = \<lambda>_ _. 0, we_ptr = \<lambda>cs. length cs + 1, we_source = \<lambda>_. 1, we_state = \<lambda>_. WEBRTC_STATE_NEGOTIATING, we_this = this\<rparr>"

definition sample_rtc_module :: "string \<Rightarrow> rtc_module_env" where
  "sample_rtc_module this =
     \<lparr>rme_mq = plain_env (\<lambda>_ _ _. []), rme_fb = sample_flexbuf, rme_rtc = sample_rtc this, rme_packet_ok = \<lambda>_. True\<rparr>"

definition sample_stream :: WebRtcStream where
  "sample_stream = WebRtcStream_init\<lparr>ws_handle := 1, ws_channel := 2\<rparr>"

definition sample_sink :: StreamManager where
  "sample_sink = (StreamManager_init False ''t/SINK'' ''t/SRC'' ''sinkid'' ''9'' (sample_stream\<lparr>ws_id := ''9b'', ws_local_description := ''offer'',
     ws_ice_candidates := [''x'', ''y'', ''x'']\<rparr>))\<lparr>sm_peer_aitt_id := ''srcid''\<rparr>"

section \<open>Configuration\<close>

text \<open>The calls to the stream do not throw, so a setter throws only before it changes anything.\<close>

definition quiet :: "('s, 'a) act \<Rightarrow> bool" where
  "quiet a \<longleftrightarrow> (\<forall>s. \<exists>x t. a s = (Inr x, t))"

definition clean :: "('s, 'a) act \<Rightarrow> bool" where
  "clean a \<longleftrightarrow> (\<forall>s e t. a s = (Inl e, t) \<longrightarrow> t = s \<and> (\<forall>w. e \<noteq> UndefinedBehaviour w))"

named_theorems quiet_intros "actions that do not throw"

lemma quiet_bnd [quiet_intros]: "quiet a \<Longrightarrow> (\<And>x. quiet (f x)) \<Longrightarrow> quiet (bnd a f)"
  unfolding quiet_def bnd_def by (metis (mono_tags, lifting) case_prod_conv sum.simps(6))

lemma quiet_sq [quiet_intros]: "quiet a \<Longrightarrow> quiet b \<Longrightarrow> quiet (sq a b)"
  by (simp add: sq_def quiet_bnd)

lemma quiet_basic [quiet_intros]:
  "quiet (ret x)" "quiet (upd f)" "quiet (rtc E c)" "quiet (rtc_do E c)" "quiet (rtc_ok E c)"
  by (simp_all add: quiet_def act_simps)

lemma quiet_whenA [quiet_intros]: "quiet a \<Longrightarrow> quiet (whenA b a)"
  by (simp add: quiet_def act_simps)

lemma quiet_if [quiet_intros]: "quiet a \<Longrightarrow> quiet b \<Longrightarrow> quiet (if p then a else b)"
  by simp

lemma quiet_do_ws [quiet_intros]: "quiet a \<Longrightarrow> quiet (do_ws a)" "quiet a \<Longrightarrow> quiet (on_ws a)"
  unfolding quiet_def act_simps by (metis (mono_tags, lifting) case_prod_conv sum.simps(6))+

lemma quiet_stream [quiet_intros]:
  "quiet (ActivateSource E)" "quiet (DeactivateSource E)" "quiet (SetVideoResolution E x y)" "quiet (SetVideoFrameRate E x)"
  "quiet (ws_SetMediaFormat E x y z f)" "quiet (ws_SetDecodeCodec E f)" "quiet (ws_SetSourceType k)"
  by (auto simp: quiet_def ActivateSource_def DeactivateSource_def SetVideoResolution_def SetVideoFrameRate_def
      ws_SetMediaFormat_def GetMediaFormatHandler_def ws_SetDecodeCodec_def ws_SetSourceType_def act_simps Let_def)

lemma quietD: "quiet a \<Longrightarrow> a s \<noteq> (Inl e, t)"
  unfolding quiet_def by (metis Pair_inject sum.distinct(2))

lemma quiet_clean: "quiet a \<Longrightarrow> clean a"
  by (auto simp: clean_def dest: quietD)

lemma clean_checked: "quiet a \<Longrightarrow> clean (sq (IsSupportedFormat f) a)"
  by (auto simp: clean_def IsSupportedFormat_def act_simps dest: quietD)

lemma clean_unless: "(\<And>x. clean (f x)) \<Longrightarrow> clean (\<lambda>s. if p s then (Inr (), s) else f s s)"
  by (auto simp: clean_def)

lemma clean_setters:
  "clean (SetWidth E n)" "clean (SetHeight E n)" "clean (SetFrameRate E n)" "clean (sm_SetSourceType E v)"
  "clean (sm_SetMediaFormat E v)" "clean (sm_SetDecodeCodec E v)"
proof -
  show "clean (SetWidth E n)" "clean (SetHeight E n)" "clean (SetFrameRate E n)" "clean (sm_SetSourceType E v)"
    unfolding SetWidth_def SetHeight_def SetFrameRate_def sm_SetSourceType_def
    by (intro clean_unless quiet_clean quiet_intros)+
  show "clean (sm_SetMediaFormat E v)" "clean (sm_SetDecodeCodec E v)"
    unfolding sm_SetMediaFormat_def sm_SetDecodeCodec_def
    by (intro clean_unless clean_checked quiet_intros)+
qed

lemma stoi_error: "stoi v = Inl e \<Longrightarrow> e \<noteq> UndefinedBehaviour w"
  by (auto simp: stoi_def Let_def split: if_splits)

lemma clean_config_key: "clean (config_key E key v)"
proof -
  have r: "clean (raise (AittException x) :: (StreamManager, unit) act)" for x by (simp add: clean_def act_simps)
  have i: "clean (with_int v f)" if "\<And>n. clean (f n)" for f :: "int \<Rightarrow> (StreamManager, unit) act"
    using that stoi_error [of v] by (auto simp: with_int_def clean_def act_simps split: sum.splits)
  show ?thesis unfolding config_key_def by (simp add: r i clean_setters)
qed

text \<open>C37. A configuration is refused once the stream has started, and otherwise for an unknown key, a
  number that is none or not positive, or an unsupported format; the application then sees one of two
  error codes, and nothing of the module, its stream or the library's handle has changed.
\<close>

theorem SetConfig_refused:
  assumes "rtc_SetConfig E key v w = (Inl e, w')"
  shows "w' = w \<and> e = AittException (if sm_is_started (sm w) then RESOURCE_BUSY_ERR else INVALID_ARG)"
proof (cases "sm_is_started (sm w)")
  case False
  obtain r m where r: "config_key (rme_rtc E) key v (sm w) = (r, m)" by fastforce
  with assms False clean_config_key [of "rme_rtc E" key v] show ?thesis
    by (cases r; cases w) (auto simp: rtc_SetConfig_def act_simps clean_def split: exn.splits)
qed (use assms in \<open>simp add: rtc_SetConfig_def\<close>)

theorem SetConfig_refused_witness:
  "\<exists>e w'. rtc_SetConfig (sample_rtc_module ''a'') ''MEDIA_FORMAT'' ''BGR''
     (\<lparr>wm_discovery_cb = 1, wm_manager = sample_sink, wm_state_callback = None, wm_receive_callback = None, wm_events = []\<rparr>, AittDiscovery_new ''x'') = (Inl e, w') \<and>
     e = AittException INVALID_ARG \<and> wm_manager (fst w') = sample_sink"
proof -
  let ?w = "(\<lparr>wm_discovery_cb = 1, wm_manager = sample_sink, wm_state_callback = None, wm_receive_callback = None, wm_events = []\<rparr>, AittDiscovery_new ''x'')"
  obtain e w' where r: "rtc_SetConfig (sample_rtc_module ''a'') ''MEDIA_FORMAT'' ''BGR'' ?w = (Inl e, w')"
    by (simp add: rtc_SetConfig_def config_key_def sm_SetMediaFormat_def IsSupportedFormat_def act_simps sample_sink_def StreamManager_init_def)
  have "\<not> sm_is_started sample_sink" by (simp add: sample_sink_def StreamManager_init_def)
  with SetConfig_refused [OF r] r show ?thesis by auto
qed

section \<open>Where the module falls short\<close>

text \<open>A second message of the sink, addressed to the source's stream, is refused; one addressed to another stream is taken.\<close>

lemma src_refuses_updates:
  assumes "sm_peer_aitt_id s = did" and "did \<noteq> []"
  shows "src_UpdateStreamInfo E did i (ws_id (sm_stream s)) sdp cs s = (Inr (), s)"
    and "pid \<noteq> ws_id (sm_stream s) \<Longrightarrow> src_UpdateStreamInfo E did i pid sdp cs s = on_ws (UpdatePeerInformation E cs) s"
  using assms by (simp_all add: src_UpdateStreamInfo_def)

text \<open>After the peer left, the handle is gone but the peer is still remembered: a sink ignores every later start.\<close>

lemma removed_peer_blocks:
  assumes "sm_peer_aitt_id s = did" and "did \<noteq> []"
  shows "\<exists>t. HandleRemovedClient E did s = (Inr (), t) \<and> ws_handle (sm_stream t) = nullptr \<and>
             HandleStartStream E other t = (Inr (), t)"
  using assms
  by (simp add: HandleRemovedClient_def Destroy_def DetachSignals_def HandleStartStream_def act_simps)

text \<open>What arrives before the library negotiates is kept; when it does, the description is set but none of the candidates is given.\<close>

lemma early_candidates_wait:
  assumes "\<And>cs c. we_ret E cs c = WEBRTC_ERROR_NONE" and "we_state E (ws_calls s) \<noteq> WEBRTC_STATE_NEGOTIATING" and "sdp \<noteq> []"
  shows "\<exists>t es u. AddPeerInformation E sdp cs s = (Inr False, t) \<and> OnStateChanged E WEBRTC_STATE_NEGOTIATING t = (Inr es, u) \<and>
    ws_calls u = ws_calls s @ [Rtc_get_state (ws_handle s), Rtc_set_remote_description (ws_handle s) sdp] \<and> ws_peer_ice_candidates u = cs"
  using assms
  by (simp add: AddPeerInformation_def IsNegotiatingState_def in_state_def OnStateChanged_def SetPeerSDP_def SetRemoteDescription_def notify_def act_simps)

text \<open>The decoder's frames have the format BGR, which the setter refuses: the handler throws before the frame is queued.\<close>

lemma decoded_frame_throws:
  assumes "sm_format s \<noteq> ''BGR''" and "width \<noteq> 0" and "height \<noteq> 0"
  shows "OnSignalHandOff E (Some (''BGR'', width, height)) buffer s = (Inl (AittException INVALID_ARG), s)"
  using assms by (simp add: OnSignalHandOff_def sm_SetMediaFormat_def IsSupportedFormat_def act_simps)

text \<open>A new width of a media packet source is stored, and the old one passed on.\<close>

lemma SetWidth_passes_old:
  assumes "sm_source_type s = ''MEDIA_PACKET''" and "sm_height s \<noteq> 0" and "sm_frame_rate s \<noteq> 0" and "sm_format s \<noteq> []"
    and "sm_width s \<noteq> width"
  shows "SetWidth E width s =
    sq (do_ws (ws_SetMediaFormat E (sm_width s) (sm_height s) (sm_frame_rate s) (sm_format s))) (upd (\<lambda>s. s\<lparr>sm_width := width\<rparr>)) s"
  using assms by (simp add: SetWidth_def)

end
