(* ===== verification/WebRtc_Session.thy ===== *)
theory WebRtc_Session
  imports WebRtc_Props
begin

text \<open>
  A WebRTC session of two devices, from the constructors of their modules to the exchange of the descriptions
  and candidates: the source starts, the sink hears of it and makes an offer, both gather candidates and
  publish each of them, and every publication is heard by the other side.
\<close>

section \<open>Two devices\<close>

text \<open>A pair of modules, each with the discovery object of its device; an action of one of them, and of the pair seen from the other side.\<close>

type_synonym rtc_net = "rtc_world \<times> rtc_world"

definition at_fst :: "(rtc_world, unit) act \<Rightarrow> (rtc_net, unit) act" where
  "at_fst = zoom fst (\<lambda>w n. (w, snd n))"

definition at_snd :: "(rtc_world, unit) act \<Rightarrow> (rtc_net, unit) act" where
  "at_snd = zoom snd (\<lambda>w n. (fst n, w))"

definition swapped :: "(rtc_net, unit) act \<Rightarrow> (rtc_net, unit) act" where
  "swapped a = (\<lambda>n. case a (snd n, fst n) of (r, m) \<Rightarrow> (r, (snd m, fst m)))"

lemma at_run [act_simps]:
  "at_fst a (v, w) = (case a v of (r, v') \<Rightarrow> (r, (v', w)))"
  "at_snd a (v, w) = (case a w of (r, w') \<Rightarrow> (r, (v, w')))"
  "swapped b (v, w) = (case b (w, v) of (r, m) \<Rightarrow> (r, (snd m, fst m)))"
  by (simp_all add: at_fst_def at_snd_def swapped_def act_simps)

lemma forA_swapped: "forA xs (\<lambda>x. swapped (f x)) n = swapped (forA xs f) n"
  by (induction xs arbitrary: n) (auto simp: swapped_def act_simps split: prod.splits sum.splits)

text \<open>The second device hears what the first one advertises under the topic that the second one watches.\<close>

definition hear :: "rtc_module_env \<Rightarrow> (rtc_net, unit) act" where
  "hear E = (\<lambda>n.
     case map_of (discovery_map (snd (fst n))) (GetWatchingTopic (sm (snd n))) of
       None \<Rightarrow> (Inr (), n)
     | Some msg \<Rightarrow> at_snd (rtc_DiscoveryMessageCallback E (disc_id (snd (fst n))) JOIN_NETWORK msg) n)"

text \<open>The library finds a candidate of the first device, which publishes it, and the second one hears it.\<close>

definition candidate :: "rtc_module_env \<Rightarrow> rtc_module_env \<Rightarrow> string \<Rightarrow> (rtc_net, unit) act" where
  "candidate E E' c = sq (at_fst (rtc_callback E (OnIceCandiate c))) (hear E')"

text \<open>
  The session in two parts.  The calls of the library come in the order in which it makes them: the state of the sink
  when its stream has started and its offer; then its candidates, the state of the source when it has the
  offer, its answer and its candidates.
\<close>

definition session_offer :: "rtc_module_env \<Rightarrow> rtc_module_env \<Rightarrow> string \<Rightarrow> (rtc_net, unit) act" where
  "session_offer Es Ek offer =
     sq (at_fst (rtc_Start Es))
     (sq (hear Ek)
     (sq (at_snd (rtc_callback Ek (OnStateChanged (rme_rtc Ek) WEBRTC_STATE_NEGOTIATING)))
         (at_snd (on_sm (on_ws (OnOfferCreated (rme_rtc Ek) offer))))))"

definition session_answer :: "rtc_module_env \<Rightarrow> rtc_module_env \<Rightarrow> string list \<Rightarrow> string \<Rightarrow> string list \<Rightarrow> (rtc_net, unit) act" where
  "session_answer Es Ek cs answer ds =
     sq (forA cs (\<lambda>c. swapped (candidate Ek Es c)))
     (sq (at_fst (rtc_callback Es (OnSignalingStateChanged WEBRTC_SIGNALING_STATE_HAVE_REMOTE_OFFER)))
     (sq (at_fst (on_sm (on_ws (OnAnswerCreated (rme_rtc Es) answer))))
         (forA ds (candidate Es Ek))))"

definition session :: "rtc_module_env \<Rightarrow> rtc_module_env \<Rightarrow> string \<Rightarrow> string list \<Rightarrow> string \<Rightarrow> string list \<Rightarrow> (rtc_net, unit) act" where
  "session Es Ek offer cs answer ds = sq (session_offer Es Ek offer) (session_answer Es Ek cs answer ds)"

text \<open>The calls that make up the negotiation.\<close>

definition negotiation :: "rtc_call list \<Rightarrow> rtc_call list" where
  "negotiation = filter (\<lambda>c. case c of
       Rtc_create_offer_async _ \<Rightarrow> True | Rtc_create_answer_async _ \<Rightarrow> True
     | Rtc_set_local_description _ _ \<Rightarrow> True | Rtc_set_remote_description _ _ \<Rightarrow> True
     | Rtc_add_ice_candidate _ _ \<Rightarrow> True | _ \<Rightarrow> False)"

abbreviation said :: "rtc_world \<Rightarrow> rtc_call list" where
  "said w \<equiv> negotiation (ws_calls (sm_stream (sm w)))"

lemma negotiation_simps [simp]:
  "negotiation [] = []" "negotiation (xs @ ys) = negotiation xs @ negotiation ys"
  "negotiation (Rtc_create_offer_async h # xs) = Rtc_create_offer_async h # negotiation xs"
  "negotiation (Rtc_create_answer_async h # xs) = Rtc_create_answer_async h # negotiation xs"
  "negotiation (Rtc_set_local_description h s # xs) = Rtc_set_local_description h s # negotiation xs"
  "negotiation (Rtc_set_remote_description h s # xs) = Rtc_set_remote_description h s # negotiation xs"
  "negotiation (Rtc_get_state h # xs) = negotiation xs" "negotiation (Rtc_start h # xs) = negotiation xs"
  "negotiation (map (Rtc_add_ice_candidate h) cs) = map (Rtc_add_ice_candidate h) cs"
  by (simp_all add: negotiation_def filter_map comp_def)

section \<open>One publication\<close>

text \<open>A broker that accepts what is published, and a module whose device has a client.\<close>

definition accepts :: "rtc_module_env \<Rightarrow> bool" where
  "accepts E \<longleftrightarrow> (\<forall>k c. env_rc (rme_mq E) k c = MOSQ_ERR_SUCCESS)"

definition online :: "rtc_world \<Rightarrow> bool" where
  "online w \<longleftrightarrow> disc_mq (snd w) \<noteq> None \<and> sm_ice_candidate_added_cb (sm w) \<and> eh_ice_candidate (ws_event_handler (sm_stream (sm w)))"

lemma UpdateDiscoveryMsg_accepted:
  assumes "accepts E" and "disc_mq d \<noteq> None"
  shows "\<exists>d'. UpdateDiscoveryMsg (rme_mq E) F p m d = (Inr (), d') \<and> map_of (discovery_map d') p = Some m \<and>
     disc_mq d' \<noteq> None \<and> disc_id d' = disc_id d"
  using assms
  by (auto simp: accepts_def UpdateDiscoveryMsg_def PublishDiscoveryMsg_def mq_Publish_def call_or_throw_def act_simps)

abbreviation with_candidates :: "string list \<Rightarrow> StreamManager \<Rightarrow> StreamManager" where
  "with_candidates cs s \<equiv> s\<lparr>sm_stream := (sm_stream s)\<lparr>ws_ice_candidates := cs\<rparr>\<rparr>"

lemma candidate_published:
  assumes "accepts E" and "online w"
  shows "\<exists>w'. rtc_callback E (OnIceCandiate c) w = (Inr (), w') \<and> sm w' = with_candidates (ws_ice_candidates (sm_stream (sm w)) @ [c]) (sm w) \<and>
     map_of (discovery_map (snd w')) (sm_topic (sm w)) = Some (GetDiscoveryMessage (rme_fb E) (sm w')) \<and>
     online w' \<and> disc_id (snd w') = disc_id (snd w)"
proof -
  let ?s = "with_candidates (ws_ice_candidates (sm_stream (sm w)) @ [c]) (sm w)"
  obtain d where "UpdateDiscoveryMsg (rme_mq E) (rme_fb E) (sm_topic (sm w)) (GetDiscoveryMessage (rme_fb E) ?s) (snd w) = (Inr (), d)"
    "map_of (discovery_map d) (sm_topic (sm w)) = Some (GetDiscoveryMessage (rme_fb E) ?s)" "disc_mq d \<noteq> None" "disc_id d = disc_id (snd w)"
    using UpdateDiscoveryMsg_accepted [OF assms(1)] assms(2) unfolding online_def by blast
  with assms(2) show ?thesis
    by (simp add: rtc_callback_def OnIceCandiate_def notify_def GetEventHandler_def CallOnIceCandidateCb_def src_handle_def sink_handle_def
        src_OnIceCandidate_def sink_OnIceCandidate_def callback_def OnIceCandidateAdded_def act_simps online_def)
qed

section \<open>What is heard\<close>

lemma fresh_candidates_append: "fresh_candidates st (xs @ ys) = fresh_candidates st xs @ fresh_candidates (st @ fresh_candidates st xs) ys"
  by (induction st xs rule: fresh_candidates.induct) auto

lemma fresh_candidates_done: "set xs \<subseteq> set st \<Longrightarrow> fresh_candidates st xs = []"
  by (induction xs) auto

text \<open>A publication repeats the candidates of the ones before it: only its last one can be new.\<close>

lemma fresh_candidates_repeated:
  "fresh_candidates [] (xs @ ys) = fresh_candidates [] xs @ fresh_candidates (fresh_candidates [] xs) (xs @ ys)"
proof -
  have "set (fresh_candidates [] xs) = set xs" using fresh_candidates_set [of "[]" xs] by simp
  then have "fresh_candidates (fresh_candidates [] xs) xs = []" by (intro fresh_candidates_done) simp
  then show ?thesis by (simp add: fresh_candidates_append)
qed

lemma UpdatePeerInformation_accepted:
  assumes "rtc_negotiates E" and "ws_remote_description s = []"
  shows "UpdatePeerInformation E cs s = (Inr (), s\<lparr>
     ws_calls := ws_calls s @ [Rtc_get_state (ws_handle s), Rtc_get_state (ws_handle s)]
       @ map (Rtc_add_ice_candidate (ws_handle s)) (fresh_candidates (ws_stored_peer_ice_candidates s) cs),
     ws_peer_ice_candidates := cs,
     ws_stored_peer_ice_candidates := ws_stored_peer_ice_candidates s @ fresh_candidates (ws_stored_peer_ice_candidates s) cs\<rparr>)"
  using assms(2)
  by (simp add: UpdatePeerInformation_def IsPlayingState_def IsNegotiatingState_def in_state_def SetPeerInformation_def SetPeerSDP_def
      SetPeerIceCandidates_def act_simps rtc_negotiatesD [OF assms(1)] add_candidates_accepted [OF assms(1)])

lemma heard_stream_info:
  assumes "flexbuf_ok (rme_fb E)"
  shows "rtc_DiscoveryMessageCallback E did JOIN_NETWORK (GetDiscoveryMessage (rme_fb E) p) w =
    on_sm ((if sm_is_source (sm w) then src_UpdateStreamInfo else sink_UpdateStreamInfo) (rme_rtc E) did
      (ws_id (sm_stream p)) (ws_peer_id (sm_stream p)) (ws_local_description (sm_stream p)) (ws_ice_candidates (sm_stream p))) w"
  using HandleMsg_stream_info [OF assms, of did p "sm w"]
  by (simp add: rtc_DiscoveryMessageCallback_def JOIN_NETWORK_def WILL_LEAVE_NETWORK_def act_simps)

text \<open>A device that already follows a peer takes its further publications.\<close>

definition follows :: "StreamManager \<Rightarrow> string \<Rightarrow> StreamManager \<Rightarrow> bool" where
  "follows s did p \<longleftrightarrow> sm_peer_aitt_id s = did \<and> did \<noteq> [] \<and>
     (if sm_is_source s then ws_peer_id (sm_stream p) \<noteq> ws_id (sm_stream s)
      else ws_peer_id (sm_stream p) = ws_id (sm_stream s) \<and> ws_peer_id (sm_stream s) \<noteq> [])"

text \<open>
  The first device publishes its candidates one by one and the second has given \<open>done\<close> to its handle;
  \<open>base\<close> is what it told its handle before.
\<close>

definition linked :: "rtc_call list \<Rightarrow> string list \<Rightarrow> rtc_net \<Rightarrow> bool" where
  "linked base done n \<longleftrightarrow> (case n of (a, b) \<Rightarrow>
     online a \<and> sm_watching_topic (sm b) = sm_topic (sm a) \<and> follows (sm b) (disc_id (snd a)) (sm a) \<and>
     ws_remote_description (sm_stream (sm b)) = [] \<and> ws_ice_candidates (sm_stream (sm a)) = done \<and>
     ws_stored_peer_ice_candidates (sm_stream (sm b)) = fresh_candidates [] done \<and>
     said b = base @ map (Rtc_add_ice_candidate (ws_handle (sm_stream (sm b)))) (fresh_candidates [] done))"

text \<open>What the second device keeps when it hears candidates: everything but what \<open>linked\<close> is about.\<close>

definition kept :: "rtc_world \<Rightarrow> rtc_world \<Rightarrow> bool" where
  "kept w w' \<longleftrightarrow> snd w' = snd w \<and> (\<exists>calls peer stored. sm w' = (sm w)\<lparr>sm_stream := (sm_stream (sm w))\<lparr>
     ws_calls := calls, ws_peer_ice_candidates := peer, ws_stored_peer_ice_candidates := stored\<rparr>\<rparr>)"

lemma kept_refl: "kept w w"
  unfolding kept_def by (intro conjI exI [of _ "ws_calls (sm_stream (sm w))"] exI [of _ "ws_peer_ice_candidates (sm_stream (sm w))"]
      exI [of _ "ws_stored_peer_ice_candidates (sm_stream (sm w))"]) simp_all

lemma kept_trans:
  assumes "kept u v" and "kept v w"
  shows "kept u w"
proof -
  obtain c p st where "snd v = snd u" "sm v = (sm u)\<lparr>sm_stream := (sm_stream (sm u))\<lparr>
     ws_calls := c, ws_peer_ice_candidates := p, ws_stored_peer_ice_candidates := st\<rparr>\<rparr>" using assms(1) unfolding kept_def by blast
  moreover obtain c' p' st' where "snd w = snd v" "sm w = (sm v)\<lparr>sm_stream := (sm_stream (sm v))\<lparr>
     ws_calls := c', ws_peer_ice_candidates := p', ws_stored_peer_ice_candidates := st'\<rparr>\<rparr>" using assms(2) unfolding kept_def by blast
  ultimately show ?thesis unfolding kept_def by (intro conjI exI [of _ c'] exI [of _ p'] exI [of _ st']) simp_all
qed

text \<open>The first device changes its candidates and its discovery object only.\<close>

definition gathered :: "string list \<Rightarrow> rtc_world \<Rightarrow> rtc_world \<Rightarrow> bool" where
  "gathered cs w w' \<longleftrightarrow> online w' \<and> disc_id (snd w') = disc_id (snd w) \<and> sm w' = with_candidates (ws_ice_candidates (sm_stream (sm w)) @ cs) (sm w)"

lemma candidate_next:
  assumes "accepts E" and "flexbuf_ok (rme_fb E)" and "rme_fb E' = rme_fb E" and "rtc_negotiates (rme_rtc E')"
    and "linked base done (a, b)"
  shows "\<exists>a' b'. candidate E E' c (a, b) = (Inr (), (a', b')) \<and> linked base (done @ [c]) (a', b') \<and> gathered [c] a a' \<and> kept b b'"
proof -
  have l: "online a" "sm_watching_topic (sm b) = sm_topic (sm a)" "follows (sm b) (disc_id (snd a)) (sm a)"
    "ws_remote_description (sm_stream (sm b)) = []" "ws_ice_candidates (sm_stream (sm a)) = done"
    using assms(5) by (simp_all add: linked_def)
  obtain a' where a': "rtc_callback E (OnIceCandiate c) a = (Inr (), a')" "sm a' = with_candidates (done @ [c]) (sm a)"
    "map_of (discovery_map (snd a')) (sm_topic (sm a)) = Some (GetDiscoveryMessage (rme_fb E') (sm a'))" "online a'" "disc_id (snd a') = disc_id (snd a)"
    using candidate_published [OF assms(1) l(1), of c] assms(3) l(5) by auto
  let ?w = "sm_stream (sm b)"
  obtain b' where b': "rtc_DiscoveryMessageCallback E' (disc_id (snd a)) JOIN_NETWORK (GetDiscoveryMessage (rme_fb E') (sm a')) b = (Inr (), b')"
    "snd b' = snd b" "sm b' = (sm b)\<lparr>sm_stream := ?w\<lparr>
       ws_calls := ws_calls ?w @ [Rtc_get_state (ws_handle ?w), Rtc_get_state (ws_handle ?w)]
         @ map (Rtc_add_ice_candidate (ws_handle ?w)) (fresh_candidates (ws_stored_peer_ice_candidates ?w) (done @ [c])),
       ws_peer_ice_candidates := done @ [c],
       ws_stored_peer_ice_candidates := ws_stored_peer_ice_candidates ?w @ fresh_candidates (ws_stored_peer_ice_candidates ?w) (done @ [c])\<rparr>\<rparr>"
  proof -
    have "flexbuf_ok (rme_fb E')" using assms(2,3) by simp
    from heard_stream_info [OF this, of "disc_id (snd a)" "sm a'" b] l(3) show thesis
      by (intro that [of "((fst b)\<lparr>wm_manager := _\<rparr>, snd b)"]) (auto simp: a'(2) follows_def src_UpdateStreamInfo_def
          sink_UpdateStreamInfo_def act_simps UpdatePeerInformation_accepted [OF assms(4) l(4)] split: if_splits)
  qed
  have "candidate E E' c (a, b) = (Inr (), (a', b'))"
    using a' b'(1) l(2) by (simp add: candidate_def hear_def act_simps)
  moreover have "linked base (done @ [c]) (a', b')"
    using assms(5) a' b'(2,3) fresh_candidates_repeated [of "done" "[c]"] by (simp add: linked_def follows_def)
  ultimately show ?thesis using a' b' l(5) by (auto simp: gathered_def kept_def)
qed

lemma candidates_next:
  assumes "accepts E" and "flexbuf_ok (rme_fb E)" and "rme_fb E' = rme_fb E" and "rtc_negotiates (rme_rtc E')"
    and "linked base done (a, b)"
  shows "\<exists>a' b'. forA cs (candidate E E') (a, b) = (Inr (), (a', b')) \<and> linked base (done @ cs) (a', b') \<and> gathered cs a a' \<and> kept b b'"
  using assms(5)
proof (induction cs arbitrary: "done" a b)
  case Nil
  then have "gathered [] a a" by (simp add: gathered_def linked_def)
  with Nil show ?case by (auto simp: act_simps kept_refl)
next
  case (Cons c cs)
  from candidate_next [OF assms(1-4) Cons.prems, of c] obtain a1 b1 where
    1: "candidate E E' c (a, b) = (Inr (), (a1, b1))" "linked base (done @ [c]) (a1, b1)" "gathered [c] a a1" "kept b b1" by blast
  from Cons.IH [OF 1(2)] obtain a2 b2 where
    2: "forA cs (candidate E E') (a1, b1) = (Inr (), (a2, b2))" "linked base ((done @ [c]) @ cs) (a2, b2)" "gathered cs a1 a2" "kept b1 b2" by blast
  have "gathered (c # cs) a a2" using 1(3) 2(3) by (simp add: gathered_def)
  with 1 2 kept_trans show ?case by (auto simp: act_simps)
qed

section \<open>The first publication\<close>

text \<open>A source without a peer takes any sink that does not name a peer; a sink takes the source that started it, when it answers to it.\<close>

definition expects :: "rtc_env \<Rightarrow> rtc_world \<Rightarrow> rtc_world \<Rightarrow> bool" where
  "expects E a b \<longleftrightarrow>
     disc_id (snd a) \<noteq> [] \<and> ws_local_description (sm_stream (sm a)) \<noteq> [] \<and> ws_ice_candidates (sm_stream (sm a)) = [] \<and>
     sm_watching_topic (sm b) = sm_topic (sm a) \<and> ws_stored_peer_ice_candidates (sm_stream (sm b)) = [] \<and>
     (if sm_is_source (sm b) then sm_peer_aitt_id (sm b) = [] \<and> ws_peer_id (sm_stream (sm a)) = [] \<and> we_this E \<noteq> []
      else sm_peer_aitt_id (sm b) = disc_id (snd a) \<and> ws_peer_id (sm_stream (sm a)) = ws_id (sm_stream (sm b)) \<and>
           ws_peer_id (sm_stream (sm b)) = [] \<and> ws_id (sm_stream (sm a)) \<noteq> [])"

text \<open>What the second device changes when it takes the first one as its peer.\<close>

definition met :: "rtc_env \<Rightarrow> rtc_world \<Rightarrow> rtc_world \<Rightarrow> rtc_world \<Rightarrow> bool" where
  "met E a w w' \<longleftrightarrow> snd w' = snd w \<and> (\<exists>calls cs st. sm w' = (sm w)\<lparr>sm_peer_aitt_id := disc_id (snd a), sm_stream := (sm_stream (sm w))\<lparr>
     ws_calls := calls, ws_id := (if sm_is_source (sm w) then sm_thread_id (sm w) @ we_this E else ws_id (sm_stream (sm w))),
     ws_peer_id := ws_id (sm_stream (sm a)), ws_remote_description := [], ws_peer_ice_candidates := cs, ws_stored_peer_ice_candidates := st\<rparr>\<rparr>)"

lemma met_kept:
  assumes "met E a u v" and "kept v w"
  shows "met E a u w"
proof -
  obtain c p st where u: "snd v = snd u" "sm v = (sm u)\<lparr>sm_peer_aitt_id := disc_id (snd a), sm_stream := (sm_stream (sm u))\<lparr>
     ws_calls := c, ws_id := (if sm_is_source (sm u) then sm_thread_id (sm u) @ we_this E else ws_id (sm_stream (sm u))),
     ws_peer_id := ws_id (sm_stream (sm a)), ws_remote_description := [], ws_peer_ice_candidates := p, ws_stored_peer_ice_candidates := st\<rparr>\<rparr>"
    using assms(1) unfolding met_def by blast
  obtain c' p' st' where "snd w = snd v" "sm w = (sm v)\<lparr>sm_stream := (sm_stream (sm v))\<lparr>
     ws_calls := c', ws_peer_ice_candidates := p', ws_stored_peer_ice_candidates := st'\<rparr>\<rparr>" using assms(2) unfolding kept_def by blast
  with u show ?thesis unfolding met_def by (intro conjI exI [of _ c'] exI [of _ p'] exI [of _ st']) simp_all
qed

lemma candidate_first:
  assumes "accepts E" and "flexbuf_ok (rme_fb E)" and "rme_fb E' = rme_fb E" and "rtc_negotiates (rme_rtc E')"
    and "online a" and "expects (rme_rtc E') a b"
  defines "w \<equiv> sm_stream (sm b)"
  shows "\<exists>a' b'. candidate E E' c (a, b) = (Inr (), (a', b')) \<and> gathered [c] a a' \<and> met (rme_rtc E') a b b' \<and>
     linked (said b @ [Rtc_set_remote_description (ws_handle w) (ws_local_description (sm_stream (sm a)))]) [c] (a', b')"
proof -
  note x = assms(6) [unfolded expects_def]
  obtain a' where a': "rtc_callback E (OnIceCandiate c) a = (Inr (), a')" "sm a' = with_candidates [c] (sm a)"
    "map_of (discovery_map (snd a')) (sm_topic (sm a)) = Some (GetDiscoveryMessage (rme_fb E') (sm a'))" "online a'" "disc_id (snd a') = disc_id (snd a)"
    using candidate_published [OF assms(1,5), of c] assms(3) x by auto
  obtain b' where b': "rtc_DiscoveryMessageCallback E' (disc_id (snd a)) JOIN_NETWORK (GetDiscoveryMessage (rme_fb E') (sm a')) b = (Inr (), b')"
    "snd b' = snd b" "sm b' = (sm b)\<lparr>sm_peer_aitt_id := disc_id (snd a), sm_stream := w\<lparr>
       ws_calls := ws_calls w @ (if sm_is_source (sm b) then [Rtc_start (ws_handle w)] else [])
         @ [Rtc_get_state (ws_handle w), Rtc_set_remote_description (ws_handle w) (ws_local_description (sm_stream (sm a))),
            Rtc_add_ice_candidate (ws_handle w) c],
       ws_id := (if sm_is_source (sm b) then sm_thread_id (sm b) @ we_this (rme_rtc E') else ws_id w),
       ws_peer_id := ws_id (sm_stream (sm a)), ws_remote_description := [], ws_peer_ice_candidates := [c],
       ws_stored_peer_ice_candidates := [c]\<rparr>\<rparr>"
  proof -
    have "flexbuf_ok (rme_fb E')" using assms(2,3) by simp
    from heard_stream_info [OF this, of "disc_id (snd a)" "sm a'" b] x show thesis
      by (intro that [of "((fst b)\<lparr>wm_manager := _\<rparr>, snd b)"]) (auto simp: a'(2) w_def src_UpdateStreamInfo_def src_AddStream_def set_stream_id_def
          ws_Start_def sink_UpdateStreamInfo_def act_simps AddPeerInformation_accepted [OF assms(4)] split: if_splits)
  qed
  have "candidate E E' c (a, b) = (Inr (), (a', b'))"
    using a' b'(1) x by (simp add: candidate_def hear_def act_simps)
  moreover have "linked (said b @ [Rtc_set_remote_description (ws_handle w) (ws_local_description (sm_stream (sm a)))]) [c] (a', b')"
    using x a' b'(2,3) by (auto simp: linked_def follows_def w_def negotiation_def)
  ultimately show ?thesis using a' b' x by (auto simp: gathered_def met_def w_def)
qed

lemma candidates_heard:
  assumes "accepts E" and "flexbuf_ok (rme_fb E)" and "rme_fb E' = rme_fb E" and "rtc_negotiates (rme_rtc E')"
    and "online a" and "expects (rme_rtc E') a b" and "cs \<noteq> []"
  defines "h \<equiv> ws_handle (sm_stream (sm b))"
  shows "\<exists>a' b'. forA cs (candidate E E') (a, b) = (Inr (), (a', b')) \<and> gathered cs a a' \<and> met (rme_rtc E') a b b' \<and>
     said b' = said b @ Rtc_set_remote_description h (ws_local_description (sm_stream (sm a))) # map (Rtc_add_ice_candidate h) (fresh_candidates [] cs)"
proof -
  obtain c cs' where cs: "cs = c # cs'" using assms(7) by (cases cs) auto
  from candidate_first [OF assms(1-6), of c] obtain a1 b1 where
    1: "candidate E E' c (a, b) = (Inr (), (a1, b1))" "gathered [c] a a1" "met (rme_rtc E') a b b1"
      "linked (said b @ [Rtc_set_remote_description h (ws_local_description (sm_stream (sm a)))]) [c] (a1, b1)" unfolding h_def by blast
  from candidates_next [OF assms(1-4) 1(4), of cs'] obtain a2 b2 where
    2: "forA cs' (candidate E E') (a1, b1) = (Inr (), (a2, b2))" "gathered cs' a1 a2" "kept b1 b2"
      "linked (said b @ [Rtc_set_remote_description h (ws_local_description (sm_stream (sm a)))]) ([c] @ cs') (a2, b2)" by blast
  have m: "met (rme_rtc E') a b b2" using met_kept [OF 1(3) 2(3)] .
  then have "ws_handle (sm_stream (sm b2)) = h" by (auto simp: met_def h_def)
  moreover have "gathered cs a a2" using 1(2) 2(2) by (simp add: gathered_def cs)
  ultimately show ?thesis using 1 2 m by (auto simp: cs act_simps linked_def)
qed

section \<open>From the constructors to the offer\<close>

lemmas ctor_defs = StreamManager_ctor_def run_ctor_def StreamManager_init_def WebRtcStream_ctor_def WebRtcStream_init_def AddDataChannel_def
  AttachSignals_def ActivateSource_def ws_SetSourceType_def on_handler_def GetEventHandler_def WebRtcEventHandler_new_def handler_defs

lemma AddDiscoveryCB_effect:
  "\<exists>i d'. AddDiscoveryCB p cb d = (Inr i, d') \<and> disc_mq d' = disc_mq d \<and> disc_id d' = disc_id d"
  by (simp add: AddDiscoveryCB_def Let_def)

text \<open>A module just constructed, with its device's client.\<close>

definition constructed :: "string \<Rightarrow> bool \<Rightarrow> rtc_world \<Rightarrow> bool" where
  "constructed topic is_source w \<longleftrightarrow> online w \<and> sm_is_source (sm w) = is_source \<and>
     sm_topic (sm w) = topic @ (if is_source then ''/SRC'' else ''/SINK'') \<and>
     sm_watching_topic (sm w) = topic @ (if is_source then ''/SINK'' else ''/SRC'') \<and>
     sm_peer_aitt_id (sm w) = [] \<and> sm_stream_start_cb (sm w) \<and> sm_stream_state_cb (sm w) \<and> rs_thread (sm_request_server (sm w)) = NoThread \<and>
     (if is_source then eh_signaling (ws_event_handler (sm_stream (sm w))) else eh_state_changed (ws_event_handler (sm_stream (sm w)))) \<and>
     ws_ice_candidates (sm_stream (sm w)) = [] \<and> ws_stored_peer_ice_candidates (sm_stream (sm w)) = [] \<and>
     ws_remote_description (sm_stream (sm w)) = [] \<and> ws_peer_id (sm_stream (sm w)) = [] \<and> said w = []"

lemma source_constructed:
  assumes "rtc_negotiates (rme_rtc E)" and "disc_mq d \<noteq> None" and "WebRtcModule_ctor E tid topic AITT_STREAM_ROLE_PUBLISHER d = (Inr m, d')"
  shows "constructed topic True (m, d') \<and> disc_id d' = disc_id d"
proof -
  obtain c where c: "SrcStreamManager_ctor (rme_rtc E) topic (disc_id d) tid = Inr c"
    "sm_is_source c" "sm_topic c = topic @ ''/SRC''" "sm_watching_topic c = topic @ ''/SINK''" "sm_peer_aitt_id c = []"
    "rs_thread (sm_request_server c) = NoThread" "eh_signaling (ws_event_handler (sm_stream c))" "eh_ice_candidate (ws_event_handler (sm_stream c))"
    "ws_ice_candidates (sm_stream c) = []" "ws_stored_peer_ice_candidates (sm_stream c) = []" "ws_remote_description (sm_stream c) = []"
    "ws_peer_id (sm_stream c) = []" "negotiation (ws_calls (sm_stream c)) = []"
    by (simp add: SrcStreamManager_ctor_def src_SetWebRtcStreamCallbacks_def ctor_defs act_simps rtc_negotiatesD [OF assms(1)] negotiation_def
        RequestServer_new_def)
  obtain i e where "AddDiscoveryCB (sm_watching_topic c) RTC_DISCOVERY_CB d = (Inr i, e)" "disc_mq e = disc_mq d" "disc_id e = disc_id d"
    using AddDiscoveryCB_effect by blast
  with c assms(2,3) show ?thesis by (auto simp: WebRtcModule_ctor_def act_simps constructed_def online_def)
qed

lemma sink_constructed:
  assumes "rtc_negotiates (rme_rtc E)" and "disc_mq d \<noteq> None" and "WebRtcModule_ctor E tid topic AITT_STREAM_ROLE_SUBSCRIBER d = (Inr m, d')"
  shows "constructed topic False (m, d') \<and> disc_id d' = disc_id d"
proof -
  obtain c where c: "SinkStreamManager_ctor (rme_rtc E) topic (disc_id d) tid = Inr c"
    "\<not> sm_is_source c" "sm_topic c = topic @ ''/SINK''" "sm_watching_topic c = topic @ ''/SRC''" "sm_peer_aitt_id c = []"
    "rs_thread (sm_request_server c) = NoThread" "eh_state_changed (ws_event_handler (sm_stream c))" "eh_ice_candidate (ws_event_handler (sm_stream c))"
    "ws_ice_candidates (sm_stream c) = []" "ws_stored_peer_ice_candidates (sm_stream c) = []" "ws_remote_description (sm_stream c) = []"
    "ws_peer_id (sm_stream c) = []" "negotiation (ws_calls (sm_stream c)) = []"
    by (simp add: SinkStreamManager_ctor_def sink_SetWebRtcStreamCallbacks_def ctor_defs act_simps rtc_negotiatesD [OF assms(1)] negotiation_def
        RequestServer_new_def ws_SetDecodeCodec_def Let_def)
  obtain i e where "AddDiscoveryCB (sm_watching_topic c) RTC_DISCOVERY_CB d = (Inr i, e)" "disc_mq e = disc_mq d" "disc_id e = disc_id d"
    using AddDiscoveryCB_effect by blast
  with c assms(2,3) show ?thesis by (auto simp: WebRtcModule_ctor_def act_simps constructed_def online_def)
qed

lemma source_starts:
  assumes "accepts E" and "constructed topic True w"
  shows "\<exists>w'. rtc_Start E w = (Inr (), w') \<and> sm w' = (sm w)\<lparr>sm_is_started := True\<rparr> \<and> online w' \<and> disc_id (snd w') = disc_id (snd w) \<and>
     map_of (discovery_map (snd w')) (sm_topic (sm w)) = Some (fb_finish (rme_fb E) (FbString ''START''))"
proof -
  obtain d where "UpdateDiscoveryMsg (rme_mq E) (rme_fb E) (sm_topic (sm w)) (fb_finish (rme_fb E) (FbString ''START'')) (snd w) = (Inr (), d)"
    "map_of (discovery_map d) (sm_topic (sm w)) = Some (fb_finish (rme_fb E) (FbString ''START''))" "disc_mq d \<noteq> None" "disc_id d = disc_id (snd w)"
    using UpdateDiscoveryMsg_accepted [OF assms(1)] assms(2) unfolding constructed_def online_def by blast
  with assms(2) show ?thesis
    by (simp add: rtc_Start_def sm_Start_def callback_def OnStreamStarted_def act_simps constructed_def online_def)
qed

text \<open>The sink hears that the source has started: it starts its stream and its server, and when the library negotiates, it makes an offer.\<close>

lemma sink_offers:
  assumes "flexbuf_ok (rme_fb E)" and "rtc_negotiates (rme_rtc E)" and "constructed topic False w"
  defines "h \<equiv> ws_handle (sm_stream (sm w))"
  shows "\<exists>w'. sq (rtc_DiscoveryMessageCallback E did JOIN_NETWORK (fb_finish (rme_fb E) (FbString ''START'')))
       (sq (rtc_callback E (OnStateChanged (rme_rtc E) WEBRTC_STATE_NEGOTIATING)) (on_sm (on_ws (OnOfferCreated (rme_rtc E) offer)))) w = (Inr (), w') \<and>
     snd w' = snd w \<and> online w' \<and> \<not> sm_is_source (sm w') \<and> sm_peer_aitt_id (sm w') = did \<and>
     sm_topic (sm w') = sm_topic (sm w) \<and> sm_watching_topic (sm w') = sm_watching_topic (sm w) \<and>
     ws_id (sm_stream (sm w')) = sm_thread_id (sm w) @ we_this (rme_rtc E) \<and> ws_local_description (sm_stream (sm w')) = offer \<and>
     ws_ice_candidates (sm_stream (sm w')) = [] \<and> ws_stored_peer_ice_candidates (sm_stream (sm w')) = [] \<and>
     ws_peer_id (sm_stream (sm w')) = [] \<and> ws_handle (sm_stream (sm w')) = h \<and>
     said w' = [Rtc_create_offer_async h, Rtc_set_local_description h offer]"
proof -
  note c = assms(3) [unfolded constructed_def] and F = flexbuf_okD [OF assms(1)]
  have r: "fb_root (rme_fb E) (fb_finish (rme_fb E) (FbString ''START'')) = FbString ''START''" by (simp add: F)
  define s where "s = (sm w)\<lparr>sm_peer_aitt_id := did, sm_stream := (sm_stream (sm w))\<lparr>ws_calls := ws_calls (sm_stream (sm w)) @ [Rtc_start h],
    ws_id := sm_thread_id (sm w) @ we_this (rme_rtc E)\<rparr>, sm_request_server := (sm_request_server (sm w))\<lparr>rs_thread := AtLoop\<rparr>\<rparr>"
  obtain p where p: "rtc_DiscoveryMessageCallback E did JOIN_NETWORK (fb_finish (rme_fb E) (FbString ''START'')) w =
      (Inr (), ((fst w)\<lparr>wm_manager := s\<lparr>sm_decode_pipeline := p\<rparr>\<rparr>, snd w))"
  proof (cases "IsDisplaySink (sm_stream (sm w))")
    case True
    show thesis
      by (rule that [of "sm_decode_pipeline (sm w)"]) (use c True in \<open>simp add: rtc_DiscoveryMessageCallback_def JOIN_NETWORK_def WILL_LEAVE_NETWORK_def
        HandleMsg_def r IsString_def sink_HandleStreamState_def HandleStartStream_def sink_AddStream_def set_stream_id_def ws_Start_def act_simps
        rs_Start_def s_def h_def F IsDisplaySink_def\<close>)
  next
    case False
    show thesis
      by (rule that [of "sm_decode_pipeline (BuildDecodePipeline (sm w))"]) (use c False in \<open>simp add: rtc_DiscoveryMessageCallback_def JOIN_NETWORK_def
        WILL_LEAVE_NETWORK_def HandleMsg_def r IsString_def sink_HandleStreamState_def HandleStartStream_def sink_AddStream_def set_stream_id_def
        ws_Start_def act_simps rs_Start_def s_def h_def F IsDisplaySink_def BuildDecodePipeline_def Let_def\<close>)
  qed
  have "OnStreamState ''NEGOTIATING'' v = (Inr (), v)" for v
    by (simp add: OnStreamState_def stream_state_def act_simps split: option.splits)
  with c show ?thesis
    by (simp add: p act_simps rtc_callback_def OnStateChanged_def SetPeerSDP_def notify_def GetEventHandler_def CallOnStateChangedCb_def sink_handle_def
        sink_OnStreamStateChanged_def callback_def CreateOfferAsync_def OnOfferCreated_def sink_OnOfferCreated_def SetLocalDescription_def
        rtc_negotiatesD [OF assms(2)] s_def h_def online_def)
qed

section \<open>The answer, and the session\<close>

lemma source_answers:
  assumes "rtc_negotiates (rme_rtc E)" and "sm_is_source (sm w)" and "eh_signaling (ws_event_handler (sm_stream (sm w)))"
  defines "h \<equiv> ws_handle (sm_stream (sm w))"
  shows "\<exists>w'. sq (rtc_callback E (OnSignalingStateChanged WEBRTC_SIGNALING_STATE_HAVE_REMOTE_OFFER)) (on_sm (on_ws (OnAnswerCreated (rme_rtc E) answer))) w =
       (Inr (), w') \<and> snd w' = snd w \<and> sm w' = (sm w)\<lparr>sm_stream := (sm_stream (sm w))\<lparr>ws_on_answer_created_cb := True,
         ws_calls := ws_calls (sm_stream (sm w)) @ [Rtc_create_answer_async h, Rtc_set_local_description h answer], ws_local_description := answer\<rparr>\<rparr>"
  using assms(2,3)
  by (simp add: act_simps rtc_callback_def OnSignalingStateChanged_def notify_def GetEventHandler_def CallOnSignalingStateNotifyCb_def src_handle_def
      src_OnSignalingStateNotify_def CreateAnswerAsync_def OnAnswerCreated_def src_OnAnswerCreated_def SetLocalDescription_def
      rtc_negotiatesD [OF assms(1)] h_def)

lemma sq_unit:
  fixes a b :: "('s, unit) act"
  assumes "sq a b s = (Inr (), t)"
  shows "\<exists>u. a s = (Inr (), u) \<and> b u = (Inr (), t)"
  using assms by (auto simp: act_simps split: prod.splits sum.splits)

lemma swapped_forA:
  assumes "forA cs (candidate E E') (b, a) = (Inr (), (b', a'))"
  shows "forA cs (\<lambda>c. swapped (candidate E E' c)) (a, b) = (Inr (), (a', b'))"
  using assms by (simp add: forA_swapped at_run)

text \<open>The two devices when the sink has made its offer.\<close>

definition offering :: "rtc_env \<Rightarrow> string \<Rightarrow> rtc_world \<Rightarrow> rtc_world \<Rightarrow> bool" where
  "offering E offer v w \<longleftrightarrow> online v \<and> online w \<and> sm_is_source (sm v) \<and> \<not> sm_is_source (sm w) \<and> expects E w v \<and>
     sm_watching_topic (sm w) = sm_topic (sm v) \<and> eh_signaling (ws_event_handler (sm_stream (sm v))) \<and>
     ws_ice_candidates (sm_stream (sm v)) = [] \<and> sm_peer_aitt_id (sm w) = disc_id (snd v) \<and> disc_id (snd v) \<noteq> [] \<and>
     ws_peer_id (sm_stream (sm w)) = [] \<and> ws_stored_peer_ice_candidates (sm_stream (sm w)) = [] \<and>
     ws_local_description (sm_stream (sm w)) = offer \<and> said v = [] \<and>
     (let k = ws_handle (sm_stream (sm w)) in said w = [Rtc_create_offer_async k, Rtc_set_local_description k offer])"

lemma session_offer_made:
  assumes "flexbuf_ok (rme_fb Es)" and "rme_fb Ek = rme_fb Es" and "rtc_negotiates (rme_rtc Ek)" and "accepts Es" and "we_this (rme_rtc Es) \<noteq> []"
    and s: "constructed topic True v" and k: "constructed topic False w" and "disc_id (snd v) \<noteq> []" and "disc_id (snd w) \<noteq> []" and "offer \<noteq> []"
  shows "\<exists>v' w'. session_offer Es Ek offer (v, w) = (Inr (), (v', w')) \<and> offering (rme_rtc Es) offer v' w' \<and>
     disc_id (snd v') = disc_id (snd v) \<and> disc_id (snd w') = disc_id (snd w)"
proof -
  note c = s [unfolded constructed_def] k [unfolded constructed_def]
  obtain v1 where v1: "rtc_Start Es v = (Inr (), v1)" "sm v1 = (sm v)\<lparr>sm_is_started := True\<rparr>" "online v1" "disc_id (snd v1) = disc_id (snd v)"
    "map_of (discovery_map (snd v1)) (sm_watching_topic (sm w)) = Some (fb_finish (rme_fb Ek) (FbString ''START''))"
    using source_starts [OF assms(4) s] c assms(2) by auto
  have "flexbuf_ok (rme_fb Ek)" using assms(1,2) by simp
  from sink_offers [OF this assms(3) k, of "disc_id (snd v)" offer] obtain w3 where
    w3: "sq (rtc_DiscoveryMessageCallback Ek (disc_id (snd v)) JOIN_NETWORK (fb_finish (rme_fb Ek) (FbString ''START'')))
       (sq (rtc_callback Ek (OnStateChanged (rme_rtc Ek) WEBRTC_STATE_NEGOTIATING)) (on_sm (on_ws (OnOfferCreated (rme_rtc Ek) offer)))) w = (Inr (), w3)"
    "snd w3 = snd w" "online w3" "\<not> sm_is_source (sm w3)" "sm_peer_aitt_id (sm w3) = disc_id (snd v)" "sm_topic (sm w3) = sm_topic (sm w)"
    "sm_watching_topic (sm w3) = sm_watching_topic (sm w)" "ws_local_description (sm_stream (sm w3)) = offer"
    "ws_ice_candidates (sm_stream (sm w3)) = []" "ws_stored_peer_ice_candidates (sm_stream (sm w3)) = []" "ws_peer_id (sm_stream (sm w3)) = []"
    "said w3 = [Rtc_create_offer_async (ws_handle (sm_stream (sm w3))), Rtc_set_local_description (ws_handle (sm_stream (sm w3))) offer]" by auto
  obtain w1 where w1: "rtc_DiscoveryMessageCallback Ek (disc_id (snd v)) JOIN_NETWORK (fb_finish (rme_fb Ek) (FbString ''START'')) w = (Inr (), w1)"
    "sq (rtc_callback Ek (OnStateChanged (rme_rtc Ek) WEBRTC_STATE_NEGOTIATING)) (on_sm (on_ws (OnOfferCreated (rme_rtc Ek) offer))) w1 = (Inr (), w3)"
    using sq_unit [OF w3(1)] by blast
  obtain w2 where w2: "rtc_callback Ek (OnStateChanged (rme_rtc Ek) WEBRTC_STATE_NEGOTIATING) w1 = (Inr (), w2)"
    "on_sm (on_ws (OnOfferCreated (rme_rtc Ek) offer)) w2 = (Inr (), w3)" using sq_unit [OF w1(2)] by blast
  have "session_offer Es Ek offer (v, w) = (Inr (), (v1, w3))"
    using v1 w1(1) w2 by (simp add: session_offer_def hear_def act_simps)
  moreover have "offering (rme_rtc Es) offer v1 w3"
    using w3(2-) v1(2-4) c assms(5,8-10) by (simp add: offering_def expects_def Let_def)
  ultimately show ?thesis using v1(4) w3(2) by auto
qed

lemma session_answered:
  assumes "flexbuf_ok (rme_fb Es)" and "rme_fb Ek = rme_fb Es" and "rtc_negotiates (rme_rtc Es)" and "rtc_negotiates (rme_rtc Ek)"
    and "accepts Es" and "accepts Ek" and "we_this (rme_rtc Es) \<noteq> []" and "offering (rme_rtc Es) offer v w"
    and "answer \<noteq> []" and "cs \<noteq> []" and "ds \<noteq> []"
  defines "h \<equiv> ws_handle (sm_stream (sm v))" and "k \<equiv> ws_handle (sm_stream (sm w))"
  shows "\<exists>v' w'. session_answer Es Ek cs answer ds (v, w) = (Inr (), (v', w')) \<and>
    said v' = Rtc_set_remote_description h offer # map (Rtc_add_ice_candidate h) (fresh_candidates [] cs)
      @ [Rtc_create_answer_async h, Rtc_set_local_description h answer] \<and>
    said w' = [Rtc_create_offer_async k, Rtc_set_local_description k offer, Rtc_set_remote_description k answer]
      @ map (Rtc_add_ice_candidate k) (fresh_candidates [] ds) \<and>
    sm_peer_aitt_id (sm v') = disc_id (snd w) \<and> sm_peer_aitt_id (sm w') = disc_id (snd v) \<and>
    ws_peer_id (sm_stream (sm v')) = ws_id (sm_stream (sm w')) \<and> ws_peer_id (sm_stream (sm w')) = ws_id (sm_stream (sm v'))"
proof -
  note o = assms(8) [unfolded offering_def Let_def]
  have fk: "flexbuf_ok (rme_fb Ek)" using assms(1,2) by simp
  obtain w4 v4 where
    4: "forA cs (candidate Ek Es) (w, v) = (Inr (), (w4, v4))" "gathered cs w w4" "met (rme_rtc Es) w v v4"
    "said v4 = Rtc_set_remote_description h offer # map (Rtc_add_ice_candidate h) (fresh_candidates [] cs)"
    using candidates_heard [OF assms(6) fk assms(2) [symmetric] assms(3) _ _ assms(10), of w v] o unfolding h_def by auto
  obtain calls pcs st where m4: "snd v4 = snd v" "sm v4 = (sm v)\<lparr>sm_peer_aitt_id := disc_id (snd w), sm_stream := (sm_stream (sm v))\<lparr>
     ws_calls := calls, ws_id := sm_thread_id (sm v) @ we_this (rme_rtc Es),
     ws_peer_id := ws_id (sm_stream (sm w)), ws_remote_description := [], ws_peer_ice_candidates := pcs, ws_stored_peer_ice_candidates := st\<rparr>\<rparr>"
    using 4(3) o by (auto simp: met_def)
  have v4: "sm_is_source (sm v4)" "eh_signaling (ws_event_handler (sm_stream (sm v4)))" "ws_handle (sm_stream (sm v4)) = h"
    using m4 o by (simp_all add: h_def)
  obtain v6 where
    v6: "sq (rtc_callback Es (OnSignalingStateChanged WEBRTC_SIGNALING_STATE_HAVE_REMOTE_OFFER)) (on_sm (on_ws (OnAnswerCreated (rme_rtc Es) answer))) v4 = (Inr (), v6)"
    "snd v6 = snd v4" "sm v6 = (sm v4)\<lparr>sm_stream := (sm_stream (sm v4))\<lparr>ws_on_answer_created_cb := True,
       ws_calls := ws_calls (sm_stream (sm v4)) @ [Rtc_create_answer_async h, Rtc_set_local_description h answer], ws_local_description := answer\<rparr>\<rparr>"
    using source_answers [OF assms(3) v4(1,2), of answer] unfolding v4(3) by blast
  obtain v5 where v5: "rtc_callback Es (OnSignalingStateChanged WEBRTC_SIGNALING_STATE_HAVE_REMOTE_OFFER) v4 = (Inr (), v5)"
    "on_sm (on_ws (OnAnswerCreated (rme_rtc Es) answer)) v5 = (Inr (), v6)" using sq_unit [OF v6(1)] by blast
  have "online v6" "expects (rme_rtc Ek) v6 w4"
    using 4(2) m4 v6(2,3) o assms(7,9) by (simp_all add: online_def gathered_def expects_def)
  from candidates_heard [OF assms(5) assms(1,2,4) this assms(11)] obtain v7 w7 where
    7: "forA ds (candidate Es Ek) (v6, w4) = (Inr (), (v7, w7))" "gathered ds v6 v7" "met (rme_rtc Ek) v6 w4 w7"
    "said w7 = said w4 @ Rtc_set_remote_description (ws_handle (sm_stream (sm w4))) answer
       # map (Rtc_add_ice_candidate (ws_handle (sm_stream (sm w4)))) (fresh_candidates [] ds)"
    using v6(3) by auto
  have "session_answer Es Ek cs answer ds (v, w) = (Inr (), (v7, w7))"
    using swapped_forA [OF 4(1)] v5 7(1) by (simp add: session_answer_def act_simps)
  moreover have "said v7 = said v4 @ [Rtc_create_answer_async h, Rtc_set_local_description h answer]"
    using v6(3) 7(2) by (simp add: gathered_def)
  moreover have "said w7 = [Rtc_create_offer_async k, Rtc_set_local_description k offer, Rtc_set_remote_description k answer]
      @ map (Rtc_add_ice_candidate k) (fresh_candidates [] ds)"
    using 7(4) 4(2) o by (simp add: gathered_def k_def)
  moreover have "sm_peer_aitt_id (sm v7) = disc_id (snd w)" "ws_peer_id (sm_stream (sm v7)) = ws_id (sm_stream (sm w))"
    "ws_id (sm_stream (sm v7)) = ws_id (sm_stream (sm v6))" "disc_id (snd v6) = disc_id (snd v)"
    using m4 v6(2,3) 7(2) by (simp_all add: gathered_def)
  moreover have "ws_id (sm_stream (sm w4)) = ws_id (sm_stream (sm w))" "\<not> sm_is_source (sm w4)" using 4(2) o by (simp_all add: gathered_def)
  moreover from this have "ws_id (sm_stream (sm w7)) = ws_id (sm_stream (sm w4))" "ws_peer_id (sm_stream (sm w7)) = ws_id (sm_stream (sm v6))"
    "sm_peer_aitt_id (sm w7) = disc_id (snd v6)" using 7(3) by (auto simp: met_def)
  ultimately show ?thesis by (intro exI [of _ v7] exI [of _ w7]) (simp add: 4(4))
qed


text \<open>Two devices with a client each; a candidate of the sink is found twice.\<close>

definition sample_device :: "string \<Rightarrow> AittDiscovery" where
  "sample_device ident = (AittDiscovery_new ident)\<lparr>disc_mq := Some MosquittoMQ_init\<rparr>"

lemma sample_modules:
  "\<exists>src d'. WebRtcModule_ctor (sample_rtc_module ''a'') ''7'' ''cam'' AITT_STREAM_ROLE_PUBLISHER (sample_device ''S'') = (Inr src, d')"
  "\<exists>sink e'. WebRtcModule_ctor (sample_rtc_module ''b'') ''9'' ''cam'' AITT_STREAM_ROLE_SUBSCRIBER (sample_device ''K'') = (Inr sink, e')"
  by (simp_all add: WebRtcModule_ctor_def SrcStreamManager_ctor_def SinkStreamManager_ctor_def src_SetWebRtcStreamCallbacks_def
      sink_SetWebRtcStreamCallbacks_def ctor_defs act_simps sample_rtc_module_def sample_rtc_def ws_SetDecodeCodec_def AddDiscoveryCB_def Let_def)


end
