(* ===== verification/Network_Props.thy ===== *)
theory Network_Props
  imports TCPModule_Props MQDiscovery_Model
begin

text \<open>
  Two devices on one network: the steps by which a subscription made on one of them becomes known
  to the other and by which a message comes back, each as a lemma about one device.
\<close>

section \<open>A message over TCP\<close>

lemma UpdatePublishTable_sent [simp]: "tm_sent (UpdatePublishTable topic c info s) = tm_sent s"
  by (simp add: UpdatePublishTable_def split: option.split prod.split)

lemma read_topics_sent [simp]: "tm_sent (read_topics F root c topics s) = tm_sent s"
  by (induction F root c topics s rule: read_topics.induct) (auto split: option.splits)

lemma DiscoveryMessageCallback_sent: "tm_sent (tcp_DiscoveryMessageCallback F c st m s) = tm_sent s"
  by (simp add: tcp_DiscoveryMessageCallback_def Let_def)

text \<open>The first message for a new peer makes the connection and goes over it.\<close>

lemma publish_connects:
  assumes "te_send P = (\<lambda>_ _. True)" and "known p topic c = Some (info, None)" and "map_of (clientTable p) c = Some host"
    and "publish_to P msg data is_reply topic c p = (Inr (), p')"
  shows "\<exists>tcp t. TCP_connect (te_os P) host info (tm_trace p) = (Inr tcp, t) \<and> known p' topic c = Some (info, Some tcp) \<and>
     tm_sent p' = tm_sent p @ [(tcp_handle tcp, fb_finish (te_fb P) (PackMsgInfo msg is_reply)), (tcp_handle tcp, data)]"
proof -
  obtain hosts where h: "map_of (publishTable p) topic = Some hosts" "map_of hosts c = Some (info, None)"
    using assms(2) by (auto simp: known_def split: option.splits)
  then show ?thesis
    using assms(1,3,4)
    by (auto simp: publish_to_def ensure_client_def tcp_SendSizedData_def act_simps known_def split: prod.splits sum.splits)
qed

lemma accepted_connection:
  assumes "AcceptConnection S l s = (Inr r, s')" and "map_of (subscribeTable s) l = Some (tsd, srv)"
    and "map_of (tm_watches s) fd = None" and "map_of (tm_watches s') fd = Some (RecvWatch k peer)"
  shows "k = l \<and> (\<exists>t u. AcceptPeer (te_os S) srv t = (Inr peer, u)) \<and>
     (\<exists>tsd'. map_of (subscribeTable s') l = Some (tsd', srv) \<and> tsd_cb_list tsd' = tsd_cb_list tsd)"
  using assms
  by (auto simp: AcceptConnection_def act_simps AddWatch_def map_of_omap_insert split: prod.splits sum.splits if_splits)

text \<open>The subscriber's end: the two parts of a message, read and handed to the callbacks.\<close>

lemma ReceiveData_delivers:
  assumes F: "flexbuf_ok (te_fb S)" and w: "map_of (tm_watches s) fd = Some (RecvWatch l peer)"
    and t: "map_of (subscribeTable s) l = Some (tsd, srv)" and topic: "msg_topic msg \<noteq> []"
    and r1: "b1 \<noteq> None" "message_of n1 b1 = fb_finish (te_fb S) (PackMsgInfo msg False)" "0 \<le> n1"
    and r2: "message_of n2 b2 = data" "0 \<le> n2"
  shows "ReceiveData S OKAY fd (n1, b1) (n2, b2) s =
     (Inr AITT_LOOP_EVENT_CONTINUE, s\<lparr>tm_delivered := tm_delivered s @
        map (\<lambda>(q, cb, cbdata). TcpDelivered cb
               (msg\<lparr>msg_end_sequence := True, msg_id := nullptr, msg_protocol := AITT_TYPE_MQTT\<rparr>) data cbdata)
            (tsd_cb_list tsd)\<rparr>)"
proof -
  define m where "m = msg\<lparr>msg_end_sequence := True, msg_id := nullptr, msg_protocol := AITT_TYPE_MQTT\<rparr>"
  obtain b where b: "b1 = Some b" using r1(1) by blast
  have "UnpackMsgInfo (te_fb S) (take (nat n1) b) AittMsg_new = m"
    using r1(2) b UnpackMsgInfo_packed [OF F, of msg False] by (simp add: message_of_def m_def)
  then have "GetMsgInfo S peer (n1, b1) s = (Inr m, s)"
    using b r1(3) by (simp add: GetMsgInfo_def act_simps)
  moreover have "msg_topic m \<noteq> []" using topic by (simp add: m_def)
  ultimately show ?thesis
    using w t r2 by (simp add: ReceiveData_def bnd_run call_subscribers_def m_def)
qed

text \<open>Both messages over the wire, plain or with Mbed TLS.\<close>

lemma two_messages:
  assumes "secure \<Longrightarrow> cbc_ok C \<and> aes_key e \<noteq> []" and "fits secure m1" "fits secure m2"
    and "send_msgs (mbed_Encrypt C e) secure [m1, m2] ([], sevs) = Some (Inr (), (out, sevs'))"
    and "healthy revs" and "arrived revs = out @ rest" and "m1 \<noteq> []"
  shows "\<exists>n1 b1 n2 b2 revs1 revs2.
     RecvSizedData mem (mbed_Decrypt C e) secure revs = Some (Inr (n1, b1), revs1) \<and>
     RecvSizedData mem (mbed_Decrypt C e) secure revs1 = Some (Inr (n2, b2), revs2) \<and> arrived revs2 = rest \<and>
     b1 \<noteq> None \<and> message_of n1 b1 = m1 \<and> 0 \<le> n1 \<and> message_of n2 b2 = m2 \<and> 0 \<le> n2"
proof -
  let ?frame = "\<lambda>m. if secure then secure_frame (mbed_Encrypt C e) m else normal_frame m"
  have good: "secure \<Longrightarrow> mbed_good (C, e)" using assms(1) by (simp add: mbed_good_def)
  have out: "arrived revs = ?frame m1 @ ?frame m2 @ rest"
    using mbed.send_msgs_out [OF good, of secure "[m1, m2]" "([], sevs)" "(out, sevs')"] assms(4,6) by simp
  note frame = mbed.RecvSizedData_frame [of secure "(C, e)", simplified fst_conv snd_conv]
  have msg: "message_of (int (length m)) d = m"
    if "case d of None \<Rightarrow> m = [] | Some b \<Rightarrow> take (length m) b = m" for d and m :: "byte list"
    using that by (auto simp: message_of_def split: option.splits)
  obtain d1 revs1 where 1: "RecvSizedData mem (mbed_Decrypt C e) secure revs = Some (Inr (int (length m1), d1), revs1)"
    "healthy revs1" "arrived revs1 = ?frame m2 @ rest" "case d1 of None \<Rightarrow> m1 = [] | Some b \<Rightarrow> take (length m1) b = m1"
    using frame [OF good assms(5,2) out, of mem] by blast
  obtain d2 revs2 where 2: "RecvSizedData mem (mbed_Decrypt C e) secure revs1 = Some (Inr (int (length m2), d2), revs2)"
    "arrived revs2 = rest" "case d2 of None \<Rightarrow> m2 = [] | Some b \<Rightarrow> take (length m2) b = m2"
    using frame [OF good 1(2) assms(3) 1(3), of mem] by blast
  have "d1 \<noteq> None" using 1(4) assms(7) by (auto split: option.splits)
  with 1 2 msg [OF 1(4)] msg [OF 2(3)] show ?thesis by fastforce
qed

section \<open>A subscription seen by a peer\<close>

text \<open>The callbacks of a discovery message that belong to the handler of MQTT subscriptions.\<close>

definition dispatch_mdh :: "flexbuf \<Rightarrow> disc_call \<Rightarrow> MQDiscoveryHandler \<Rightarrow> MQDiscoveryHandler" where
  "dispatch_mdh F c s = (case c of DiscCall cb ident status msg \<Rightarrow>
     if cb = MQ_DISCOVERY_CB then mdh_DiscoveryMessageCallback F ident status msg s else s)"

lemma dispatch_other: "\<forall>c \<in> set cs. \<exists>cb i st m. c = DiscCall cb i st m \<and> cb \<noteq> MQ_DISCOVERY_CB \<Longrightarrow> fold (dispatch_mdh F) cs s = s"
  by (induction cs arbitrary: s) (auto simp: dispatch_mdh_def)

lemma dispatch_advertised:
  assumes reg: "\<forall>node \<in> set cbs. snd (snd node) = MQ_DISCOVERY_CB \<longleftrightarrow> fst (snd node) = ''MQTT''"
    and one: "filter (\<lambda>node. fst (snd node) = ''MQTT'') cbs = [node]"
    and m: "omap_ok m" "map_of m ''MQTT'' = Some blob"
  shows "fold (dispatch_mdh F) (advertised_calls cbs ident m) s = mdh_DiscoveryMessageCallback F ident ''connected'' (Some blob) s"
proof -
  let ?calls = "\<lambda>kv. map (\<lambda>node. DiscCall (snd (snd node)) ident JOIN_NETWORK (Some (snd kv))) (filter (\<lambda>node. fst (snd node) = fst kv) cbs)"
  have node: "snd (snd node) = MQ_DISCOVERY_CB"
  proof -
    have "node \<in> set (filter (\<lambda>node. fst (snd node) = ''MQTT'') cbs)" using one by simp
    with reg show ?thesis by auto
  qed
  have other: "fold (dispatch_mdh F) (concat (map ?calls kvs)) s = s" if "''MQTT'' \<notin> fst ` set kvs" for kvs s
    using that reg by (intro dispatch_other) force
  obtain xs ys where split: "m = xs @ (''MQTT'', blob) # ys" using m(2) by (meson map_of_SomeD split_list)
  have "''MQTT'' \<notin> fst ` set xs" "''MQTT'' \<notin> fst ` set ys"
    using omap_ok_distinct [OF m(1)] by (auto simp: split)
  with other show ?thesis
    using one node by (simp add: advertised_calls_def split dispatch_mdh_def JOIN_NETWORK_def)
qed

section \<open>Two concrete devices\<close>

definition secure_server :: TCPServer where
  "secure_server = \<lparr>srv_handle = 5, srv_secure = True, srv_key = replicate 32 7, srv_iv = replicate 16 1\<rparr>"

definition secure_data :: TCPServerData where
  "secure_data = \<lparr>tsd_cb_list = [(1, 3, 30)], tsd_topic = ''t'', tsd_client_list = []\<rparr>"

definition secure_subscriber :: TCPModule where
  "secure_subscriber = sample_subscriber\<lparr>tm_secure := True, subscribeTable := [(2, secure_data, secure_server)]\<rparr>"

definition secure_publisher :: TCPModule where
  "secure_publisher = sample_module\<lparr>publishTable := [], tm_secure := True\<rparr>"

definition sending_env :: tcp_env where
  "sending_env = sample_tcp_env\<lparr>te_send := \<lambda>_ _. True\<rparr>"

definition counting_peer :: mdh_world where
  "counting_peer = (\<lparr>mdh_id = ''you'', mdh_discovery_cb = 1, my_subscribe_table = [], remote_subscribe_table = [(''x'', [''t'', ''u''])]\<rparr>,
     sample_discovery\<lparr>disc_callbacks := [(1, ''MQTT'', MQ_DISCOVERY_CB), (2, ''TCP'', TCP_DISCOVERY_CB)], disc_next_id := 2\<rparr>)"

lemma secure_subscriber_ok:
  "tcp_ok secure_subscriber" "map_of (subscribeTable secure_subscriber) 2 = Some (secure_data, secure_server)"
  "\<forall>(p, tsd, srv) \<in> set (subscribeTable secure_subscriber). tsd_topic tsd \<noteq> ''host'' \<and> length (tsd_cb_list tsd) < 65536 \<and>
     length (srv_key srv) = 32 \<and> length (srv_iv srv) = 16 \<and> srv_secure srv = tm_secure secure_subscriber"
  by (simp_all add: tcp_ok_def tables_ok_def server_ok_def secure_subscriber_def sample_subscriber_def omap_ok_def
      secure_data_def secure_server_def)

lemma secure_subscriber_advertises:
  "\<exists>s1 d1 blob. tcp_UpdateDiscoveryMsg sample_tcp_env (secure_subscriber, sample_discovery) = (Inr (), (s1, d1)) \<and>
     map_of (discovery_map d1) (tcp_NAME (tm_secure secure_subscriber)) = Some blob \<and> tm_watches s1 = [] \<and>
     subscribeTable s1 = [(2, secure_data, secure_server)]"
  by (simp add: tcp_UpdateDiscoveryMsg_def secure_subscriber_def sample_subscriber_def sample_tcp_env_def sample_discovery_def
      act_simps Server_GetPort_def plain_os_def UpdateDiscoveryMsg_def PublishDiscoveryMsg_def mq_Publish_def
      plain_env_def AittDiscovery_new_def sample_module_def)

lemma secure_publisher_sends:
  assumes "known p ''t'' ''me'' = Some (info, None)" and "ci_port info = 4000" and "ci_secure info"
    and "ci_key info = replicate 32 7" and "ci_iv info = replicate 16 1" and "map_of (clientTable p) ''me'' = Some host"
  shows "\<exists>p2 tcp. publish_to sending_env msg [1, 2] False ''t'' ''me'' p = (Inr (), p2) \<and>
     known p2 ''t'' ''me'' = Some (info, Some tcp) \<and> tcp_crypto tcp = sample_key \<and> tcp_secure tcp \<and>
     map snd (drop (length (tm_sent p)) (tm_sent p2)) = [fb_finish sample_flexbuf (PackMsgInfo msg False), [1, 2]]"
proof -
  obtain p2 where p2: "publish_to sending_env msg [1, 2] False ''t'' ''me'' p = (Inr (), p2)"
    using assms(1,2) by (auto simp: known_def publish_to_def ensure_client_def tcp_SendSizedData_def act_simps sending_env_def
        sample_tcp_env_def TCP_connect_def SetupOptions_def plain_os_def split: option.splits)
  have send: "te_send sending_env = (\<lambda>_ _. True)" by (simp add: sending_env_def)
  have fb: "te_fb sending_env = sample_flexbuf" by (simp add: sending_env_def sample_tcp_env_def)
  obtain tcp t where tcp: "TCP_connect (te_os sending_env) host info (tm_trace p) = (Inr tcp, t)"
    "known p2 ''t'' ''me'' = Some (info, Some tcp)"
    "tm_sent p2 = tm_sent p @ [(tcp_handle tcp, fb_finish (te_fb sending_env) (PackMsgInfo msg False)), (tcp_handle tcp, [1, 2])]"
    using publish_connects [OF send assms(1,6) p2] by blast
  have "tcp_crypto tcp = sample_key" "tcp_secure tcp"
    using TCP_connect_state [OF tcp(1)] assms by (simp_all add: sample_key_def)
  then show ?thesis using p2 tcp(2,3) fb by simp
qed

lemma secure_wire:
  "\<exists>out sevs'. send_msgs (mbed_Encrypt xor_cbc sample_key) True
       [fb_finish sample_flexbuf (PackMsgInfo (SetTopic ''t'' AittMsg_new) False), [1, 2]] ([], replicate 4 (Sent 1000)) =
     Some (Inr (), (out, sevs')) \<and> out \<noteq> []"
proof -
  define r where "r = send_msgs (mbed_Encrypt xor_cbc sample_key) True
       [fb_finish sample_flexbuf (PackMsgInfo (SetTopic ''t'' AittMsg_new) False), [1, 2]] ([], replicate 4 (Sent 1000))"
  have "r \<noteq> None \<and> fst (the r) = Inr () \<and> fst (snd (the r)) \<noteq> []" unfolding r_def by code_simp
  then show ?thesis unfolding r_def [symmetric] by auto
qed

lemma secure_messages_fit:
  "\<forall>m \<in> set [fb_finish sample_flexbuf (PackMsgInfo (SetTopic ''t'' AittMsg_new) False), [1, 2]]. fits True m"
  by code_simp

lemma secure_subscriber_accepts:
  assumes "subscribeTable s1 = [(2, secure_data, secure_server)]" and "tm_watches s1 = []"
  shows "\<exists>s2 peer. AcceptConnection sample_tcp_env 2 s1 = (Inr AITT_LOOP_EVENT_CONTINUE, s2) \<and>
     map_of (tm_watches s2) 6 = Some (RecvWatch 2 peer) \<and> tcp_secure peer"
proof -
  define r where "r = AcceptConnection sample_tcp_env 2 s1"
  have "fst r = Inr AITT_LOOP_EVENT_CONTINUE" "\<exists>peer. map_of (tm_watches (snd r)) 6 = Some (RecvWatch 2 peer) \<and> tcp_secure peer"
    using assms by (simp_all add: r_def AcceptConnection_def act_simps sample_tcp_env_def AcceptPeer_def plain_os_def
        TCP_accepted_def SetupOptions_def AddWatch_def map_of_omap_insert secure_server_def ConnectInfo_new_def)
  then show ?thesis unfolding r_def [symmetric] by (cases r) auto
qed

end
