(* ===== verification/Request_Props.thy ===== *)
theory Request_Props
  imports AITT_Delivery
begin

text \<open>
  A request and its replies over MQTT, from the device that answers to the one that asked: what the
  replies look like on the way, and what each of them does to the requester.
\<close>

section \<open>A delivery that only queues\<close>

definition same_vector :: "MosquittoMQ \<Rightarrow> MosquittoMQ \<Rightarrow> bool" where
  "same_vector s t \<longleftrightarrow> subscribers t = subscribers s \<and> new_subscribers t = new_subscribers s \<and> mq_next_ptr t = mq_next_ptr s"

lemma deliver_one_same:
  assumes "env_cb E = (\<lambda>_ _ _. [])"
  shows "same_vector s (snd (deliver_one E topic payload props i s))"
  using assms
  by (auto simp: deliver_one_def InvokeCallback_def act_simps same_vector_def Let_def split: sum.split)

lemma same_vector_trans: "same_vector s t \<Longrightarrow> same_vector t u \<Longrightarrow> same_vector s u"
  by (simp add: same_vector_def)

lemma message_loop_same:
  assumes "message_loop E topic payload props s = Some y" and "env_cb E = (\<lambda>_ _ _. [])"
  shows "same_vector s (snd y)"
proof -
  define P where "P E topic payload props s y \<longleftrightarrow> (env_cb E = (\<lambda>_ _ _. []) \<longrightarrow> same_vector s (snd y))"
    for E :: mq_env and topic :: string and payload :: "byte list" and props :: "mprop list option" and s and y :: "(exn + unit) \<times> MosquittoMQ"
  have "P E topic payload props s y"
  proof (rule message_loop.raw_induct [OF _ assms(1)])
    fix loop E topic payload props s y
    assume IH: "\<And>E topic payload props s y. loop E topic payload props s = Some y \<Longrightarrow> P E topic payload props s y"
      and body: "(case subscriber_iterator s of
        None \<Rightarrow> Some (Inl (UndefinedBehaviour ''dangling iterator''), s)
      | Some i \<Rightarrow>
          if i = length (subscribers s) then Some (Inr (), s)
          else if length (subscribers s) < i
          then Some (Inl (UndefinedBehaviour ''iterator past the end''), s)
          else (case deliver_one E topic payload props i s of
                  (Inl e, t) \<Rightarrow> Some (Inl e, t)
                | (Inr u, t) \<Rightarrow> loop E topic payload props t)) = Some y"
    have "same_vector s (snd y)" if E: "env_cb E = (\<lambda>_ _ _. [])"
    proof -
      show ?thesis
      proof (cases "\<exists>i. subscriber_iterator s = Some i \<and> i < length (subscribers s)")
        case True
        then obtain i r t where i: "subscriber_iterator s = Some i" "i < length (subscribers s)"
          and d: "deliver_one E topic payload props i s = (r, t)" by fastforce
        have t: "same_vector s t" using deliver_one_same [OF E, of s topic payload props i] d by simp
        show ?thesis
        proof (cases r)
          case (Inl e)
          with body i d have "snd y = t" by auto
          with t show ?thesis by simp
        next
          case (Inr u)
          with body i d have "loop E topic payload props t = Some y" by simp
          from IH [OF this] E t show ?thesis unfolding P_def by (blast intro: same_vector_trans)
        qed
      next
        case False
        with body have "snd y = s" by (auto split: option.splits if_splits)
        then show ?thesis by (simp add: same_vector_def)
      qed
    qed
    then show "P E topic payload props s y" by (simp add: P_def)
  qed
  with assms(2) show ?thesis by (simp add: P_def)
qed

lemma message_keeps_subscribers:
  assumes "mq_idle q" and "MessageCB (queueing E) topic payload props q = Some (Inr u, q')"
  shows "mq_idle q' \<and> subscribers q' = subscribers q \<and> mq_next_ptr q' = mq_next_ptr q"
proof -
  have c: "env_cb (queueing E) = (\<lambda>_ _ _. [])" by (simp add: queueing_def)
  obtain t where t: "message_loop (queueing E) topic payload props (q\<lparr>subscribers_iterating := True, subscriber_iterator := Some 0\<rparr>) = Some (Inr (), t)"
    using assms(2) by (auto simp: MessageCB_def split: option.splits sum.splits)
  have "same_vector q t" using message_loop_same [OF t c] by (simp add: same_vector_def)
  then have same: "subscribers q' = subscribers q" "new_subscribers q' = new_subscribers q" "\<not> subscribers_iterating q'"
    "mq_next_ptr q' = mq_next_ptr q"
    using assms t by (auto simp: MessageCB_def Let_def same_vector_def mq_idle_def)
  then have "mq_ok q' = mq_ok q" by (simp add: mq_ok_defs)
  with assms(1) same show ?thesis by (simp add: mq_idle_def)
qed

lemma mq_message_same:
  assumes "impl_ok s" and "\<not> subscriber_iterator_updated (im_mq s)" and "read_msg (ie_mq E) topic props = Inr m"
    and "\<forall>sub \<in> set (subscribers (im_mq s)). wants (ie_mq E) topic sub \<longrightarrow> main_closure s (snd sub)"
  shows "\<exists>q. impl_mq_message E topic payload props s =
     (Inr (), s\<lparr>im_mq := q, im_idle := im_idle s @
        map (task_of s m payload) (filter (wants (ie_mq E) topic) (subscribers (im_mq s)))\<rparr>) \<and>
     subscribers q = subscribers (im_mq s) \<and> \<not> subscriber_iterator_updated q \<and>
     same_subscriptions s (s\<lparr>im_mq := q, im_idle := x\<rparr>)"
proof -
  have i: "mq_idle (im_mq s)" "providers_ok s" "mq_ok (im_mq s)" using assms(1) by (auto simp: impl_ok_def providers_ok_def mq_idle_def)
  obtain q where q: "impl_mq_message E topic payload props s =
     (Inr (), s\<lparr>im_mq := q, im_idle := im_idle s @
        map (task_of s m payload) (filter (wants (ie_mq E) topic) (subscribers (im_mq s)))\<rparr>)"
    using mq_message_queues [OF i(1) assms(2-4)] by blast
  obtain q' where q': "MessageCB (queueing (ie_mq E)) topic payload props (im_mq s) = Some (Inr (), q')" "\<not> subscriber_iterator_updated q'"
    using MessageCB_self_only [OF i(3) assms(2), of "queueing (ie_mq E)" topic props m payload] assms(3) by auto
  have e: "im_mq (snd (forA xs (run_delivery subs) t)) = im_mq t" for xs subs t
  proof (induction xs arbitrary: t)
    case (Cons x xs)
    have "im_mq (snd (run_delivery subs x t)) = im_mq t" for t
      by (auto simp: run_delivery_def mq_closure_def sync_upd_def Let_def act_simps split: mq_event.split option.split)
    with Cons show ?case by (auto simp: act_simps split: prod.split sum.split) (metis snd_conv)+
  qed (simp add: act_simps)
  have "q = q'"
    using q q'(1) e [of "drop (length (mq_events (im_mq s))) (mq_events q')" "subscribers q'" "s\<lparr>im_mq := q'\<rparr>"]
    by (auto simp: impl_mq_message_def act_simps split: prod.splits sum.splits)
  with q q'(2) message_keeps_subscribers [OF i(1) q'(1)] i(2) show ?thesis
    by (intro exI [of _ q])
       (auto simp: same_subscriptions_def same_infos_def providers_ok_def prov_def mq_table_def nxt_def tcp_of_def fun_eq_iff)
qed

section \<open>The replies on the way\<close>

text \<open>The messages with properties among the calls of a client: topic, payload and properties.\<close>

fun v5_published :: "mcall list \<Rightarrow> (string \<times> byte list \<times> mprop list) list" where
  "v5_published [] = []"
| "v5_published (M_publish_v5 topic data qos retain props # cs) = (topic, data, props) # v5_published cs"
| "v5_published (_ # cs) = v5_published cs"

lemma v5_published_append [simp]: "v5_published (as @ bs) = v5_published as @ v5_published bs"
  by (induction as rule: v5_published.induct) auto

lemma reply_msg_fields [simp]:
  "msg_protocol (reply_msg e m) = msg_protocol m" "msg_reply_topic (reply_msg e m) = msg_reply_topic m"
  "msg_correlation (reply_msg e m) = msg_correlation m"
  by (simp_all add: reply_msg_def AittMsg_defs)

lemma SendReply_published:
  assumes "impl_SendReply E (Some m) data n e s = (Inr x, t)" and "msg_protocol m = AITT_TYPE_MQTT"
  shows "v5_published (mq_calls (im_mq t)) =
     v5_published (mq_calls (im_mq s)) @ [(msg_reply_topic m, data, reply_props (reply_msg e m))]"
  using assms
  by (auto simp: impl_SendReply_def mq_SendReply_def reply_props_def act_simps Let_def split: if_splits)

lemma send_replies_published:
  assumes "send_replies E m rs s = (Inr ms, t)" and "msg_protocol m = AITT_TYPE_MQTT"
  shows "v5_published (mq_calls (im_mq t)) = v5_published (mq_calls (im_mq s)) @
       map2 (\<lambda>r m'. (msg_reply_topic m, fst r, reply_props m')) rs ms \<and>
     length ms = length rs \<and> (\<forall>m' \<in> set ms. msg_correlation m' = msg_correlation m)"
  using assms
proof (induction rs arbitrary: m s ms)
  case (Cons r rs)
  obtain data e where r: "r = (data, e)" by (cases r)
  obtain x s1 where x: "impl_SendReply E (Some m) data (int (length data)) e s = (Inr x, s1)"
    using Cons.prems(1) r by (auto simp: act_simps split: prod.splits sum.splits)
  obtain ms1 where ms: "send_replies E (reply_msg e m) rs s1 = (Inr ms1, t)" "ms = reply_msg e m # ms1"
    using Cons.prems(1) r x SendReply_msg [OF x] by (auto simp: act_simps split: prod.splits sum.splits)
  from Cons.IH [OF ms(1)] SendReply_published [OF x Cons.prems(2)] Cons.prems(2) r ms(2) show ?case by simp
qed (simp add: act_simps)

section \<open>The requester\<close>

text \<open>Each reply arrives at the client, and the main loop works its queue off before the next one.\<close>

fun handle_replies :: "impl_env \<Rightarrow> (string \<times> byte list \<times> mprop list) list \<Rightarrow> (Impl, unit) act" where
  "handle_replies E [] = ret ()"
| "handle_replies E ((topic, data, props) # rs) =
     sq (impl_mq_message E topic data (Some props))
     (sq (\<lambda>s. forA (im_idle s) (\<lambda>_. impl_idle E) s) (handle_replies E rs))"

text \<open>A requester that waits for replies on a topic with one subscription.\<close>

definition awaits :: "impl_env \<Rightarrow> string \<Rightarrow> ptr \<Rightarrow> ptr \<Rightarrow> nat \<Rightarrow> ptr \<Rightarrow> Impl \<Rightarrow> bool" where
  "awaits E topic h i n ud s \<longleftrightarrow> impl_ok s \<and> \<not> subscriber_iterator_updated (im_mq s) \<and> im_idle s = [] \<and>
     (\<exists>sd. filter (wants (ie_mq E) topic) (subscribers (im_mq s)) = [(h, sd)] \<and> sd_cb sd = i \<and> sd_user_data sd = ud) \<and>
     map_of (im_closures s) i = Some \<lparr>cl_cb = ReplyCb n, cl_protocol = AITT_TYPE_MQTT, cl_loop = None\<rparr> \<and>
     (\<exists>p. map_of (im_infos s) i = Some (AITT_TYPE_MQTT, p)) \<and> disc_mq (im_discovery s) \<noteq> None"

lemma leave_mqtt_throws:
  assumes "leave_provider E AITT_TYPE_MQTT handle s = (Inl e, t)" and "disc_mq (im_discovery s) \<noteq> None"
  shows "\<exists>c. e = AittException c"
  using assms
  by (auto simp: leave_provider_def mq_Unsubscribe_def mdh_Unsubscribe_def mdh_UpdateDiscoveryMsg_def UpdateDiscoveryMsg_def
      PublishDiscoveryMsg_def mq_Publish_def act_simps Let_def split: if_splits option.splits sum.splits prod.splits)

text \<open>What taking an MQTT subscription away can throw is caught in the callback of a request.\<close>

lemma try_Unsubscribe_mqtt:
  assumes "map_of (im_infos s) i = Some (AITT_TYPE_MQTT, h)" and "disc_mq (im_discovery s) \<noteq> None"
  shows "fst (try_Unsubscribe E i s) = Inr ()"
proof -
  have "\<exists>c. e = AittException c" if "impl_Unsubscribe E i s = (Inl e, t)" for e t
    using that assms leave_mqtt_throws [of E h s e]
    by (auto simp: impl_Unsubscribe_def delete_info_def act_simps split: option.splits prod.splits sum.splits)
  then show ?thesis
    by (cases "impl_Unsubscribe E i s"; cases "fst (impl_Unsubscribe E i s)") (auto simp: try_Unsubscribe_def act_simps)
qed

lemma reply_queued:
  assumes "awaits E topic h i n ud s" and "read_msg (ie_mq E) topic props = Inr m"
  shows "\<exists>q. impl_mq_message E topic data props s = (Inr (), s\<lparr>im_mq := q, im_idle := [Detached (ReplyCb n) (SetID i m) data ud]\<rparr>) \<and>
     subscribers q = subscribers (im_mq s) \<and> \<not> subscriber_iterator_updated q \<and>
     same_subscriptions s (s\<lparr>im_mq := q, im_idle := x\<rparr>)"
proof -
  obtain sd where sd: "filter (wants (ie_mq E) topic) (subscribers (im_mq s)) = [(h, sd)]" "sd_cb sd = i" "sd_user_data sd = ud"
    using assms(1) by (auto simp: awaits_def)
  have c: "map_of (im_closures s) i = Some \<lparr>cl_cb = ReplyCb n, cl_protocol = AITT_TYPE_MQTT, cl_loop = None\<rparr>"
    using assms(1) by (simp add: awaits_def)
  have "sub = (h, sd)" if "sub \<in> set (subscribers (im_mq s))" "wants (ie_mq E) topic sub" for sub
  proof -
    have "sub \<in> set (filter (wants (ie_mq E) topic) (subscribers (im_mq s)))" using that by simp
    then show ?thesis unfolding sd(1) by simp
  qed
  then have "\<forall>sub \<in> set (subscribers (im_mq s)). wants (ie_mq E) topic sub \<longrightarrow> main_closure s (snd sub)"
    using c sd(2) by (auto simp: main_closure_def)
  from mq_message_same [OF _ _ assms(2) this, of data x] assms(1) sd c show ?thesis
    by (auto simp: awaits_def task_of_def)
qed

lemma impl_idle_update [simp]:
  "impl_ok (u\<lparr>im_idle := x\<rparr>) = impl_ok u" "impl_table (u\<lparr>im_idle := x\<rparr>) = impl_table u"
proof -
  have "prov (u\<lparr>im_idle := x\<rparr>) = prov u" by (simp add: prov_def tcp_of_def fun_eq_iff)
  then have "impl_entry (u\<lparr>im_idle := x\<rparr>) = impl_entry u" by (rule impl_entry_cong) simp
  then show "impl_table (u\<lparr>im_idle := x\<rparr>) = impl_table u" by (intro ext) (simp add: impl_table_def)
  show "impl_ok (u\<lparr>im_idle := x\<rparr>) = impl_ok u"
    by (simp add: impl_ok_def providers_ok_def infos_ok_def prov_def nxt_def tcp_of_def)
qed

lemma more_replies_to_come:
  assumes "awaits E topic h i n ud s" and "read_msg (ie_mq E) topic (Some props) = Inr m" and "\<not> msg_end_sequence m"
  shows "\<exists>t. handle_replies E ((topic, data, props) # rs) s = handle_replies E rs t \<and> awaits E topic h i n ud t \<and>
     impl_table t = impl_table s \<and> im_events t = im_events s @ [AppMessage n (SetID i m) data ud]"
proof -
  obtain q where q: "impl_mq_message E topic data (Some props) s = (Inr (), s\<lparr>im_mq := q, im_idle := [Detached (ReplyCb n) (SetID i m) data ud]\<rparr>)"
    "subscribers q = subscribers (im_mq s)" "\<not> subscriber_iterator_updated q" "same_subscriptions s (s\<lparr>im_mq := q, im_idle := []\<rparr>)"
    using reply_queued [OF assms(1,2), of data "[]"] by blast
  define t where "t = s\<lparr>im_mq := q, im_idle := [], im_events := im_events s @ [AppMessage n (SetID i m) data ud]\<rparr>"
  have "impl_idle E (s\<lparr>im_mq := q, im_idle := [Detached (ReplyCb n) (SetID i m) data ud]\<rparr>) = (Inr (), t)"
    using assms(3) by (simp add: impl_idle_def DetachedCB_def app_event_def act_simps t_def SetID_def)
  then have "handle_replies E ((topic, data, props) # rs) s = handle_replies E rs t"
    by (simp add: act_simps q(1))
  moreover have ok: "impl_ok (s\<lparr>im_mq := q, im_idle := []\<rparr>) \<and> impl_table (s\<lparr>im_mq := q, im_idle := []\<rparr>) = impl_table s"
    using same_subscriptions_ok [OF _ q(4)] assms(1) by (simp add: awaits_def)
  moreover have "t = (s\<lparr>im_mq := q, im_idle := []\<rparr>)\<lparr>im_events := im_events s @ [AppMessage n (SetID i m) data ud]\<rparr>" by (simp add: t_def)
  then have "impl_ok t" "impl_table t = impl_table s" using ok by (simp_all only: impl_events_update)
  ultimately show ?thesis using assms(1) q(2,3) by (intro exI [of _ t]) (simp add: awaits_def t_def)
qed

lemma last_reply:
  assumes "awaits E topic h i n ud s" and "read_msg (ie_mq E) topic (Some props) = Inr m" and "msg_end_sequence m"
  shows "\<exists>u. handle_replies E [(topic, data, props)] s = (Inr (), u) \<and> impl_table u = (impl_table s)(i := None) \<and> im_events u = im_events s @ [AppMessage n (SetID i m) data ud]"
proof -
  obtain q where q: "impl_mq_message E topic data (Some props) s = (Inr (), s\<lparr>im_mq := q, im_idle := [Detached (ReplyCb n) (SetID i m) data ud]\<rparr>)"
    "same_subscriptions s (s\<lparr>im_mq := q, im_idle := [Detached (ReplyCb n) (SetID i m) data ud]\<rparr>)"
    using reply_queued [OF assms(1,2), of data "[Detached (ReplyCb n) (SetID i m) data ud]"] by blast
  define s1 where "s1 = s\<lparr>im_mq := q, im_idle := [Detached (ReplyCb n) (SetID i m) data ud]\<rparr>"
  have ok: "impl_ok s1" "impl_table s1 = impl_table s" "im_events s1 = im_events s"
    using same_subscriptions_ok [OF _ q(2)] assms(1) by (simp_all add: awaits_def s1_def)
  obtain p where "map_of (im_infos s1) (msg_id (SetID i m)) = Some (AITT_TYPE_MQTT, p)" "disc_mq (im_discovery s1) \<noteq> None"
    using assms(1) by (auto simp: awaits_def s1_def SetID_def)
  then have "fst (DetachedCB E (ReplyCb n) (SetID i m) data ud s1) = Inr ()"
    using try_Unsubscribe_mqtt [of s1 "msg_id (SetID i m)" p E]
    by (auto simp: DetachedCB_def app_event_def act_simps split: prod.splits sum.splits)
  then obtain t where d: "DetachedCB E (ReplyCb n) (SetID i m) data ud s1 = (Inr (), t)" by (metis prod.collapse)
  define u where "u = t\<lparr>im_idle := tl (im_idle t)\<rparr>"
  have "impl_idle E s1 = (Inr (), u)" using d by (simp add: impl_idle_def s1_def act_simps u_def)
  then have "handle_replies E [(topic, data, props)] s = (Inr (), u)"
    using q(1) unfolding s1_def [symmetric] by (simp add: act_simps s1_def)
  with last_reply_ends_request [OF ok(1) d] assms(3) ok(2,3) show ?thesis
    by (intro exI [of _ u]) (simp add: u_def SetID_def)
qed

lemma replies_handled:
  assumes "awaits E topic h i n ud s" and "list_all2 (\<lambda>x m. read_msg (ie_mq E) topic (Some (snd x)) = Inr m) xs ms"
    and "map msg_end_sequence ms = replicate k False @ [True]"
  shows "\<exists>u. handle_replies E (map (Pair topic) xs) s = (Inr (), u) \<and>
     im_events u = im_events s @ map2 (\<lambda>x m. AppMessage n (SetID i m) (fst x) ud) xs ms \<and>
     impl_table u = (impl_table s)(i := None)"
  using assms
proof (induction k arbitrary: xs ms s)
  case 0
  then obtain data props m where "xs = [(data, props)]" "ms = [m]" "msg_end_sequence m" "read_msg (ie_mq E) topic (Some props) = Inr m"
    by (auto simp: map_eq_Cons_conv list_all2_Cons2)
  with last_reply [OF "0.prems"(1)] show ?case by fastforce
next
  case (Suc k)
  then obtain data props m xs' ms' where x: "xs = (data, props) # xs'" "ms = m # ms'" "\<not> msg_end_sequence m"
    "read_msg (ie_mq E) topic (Some props) = Inr m" "list_all2 (\<lambda>x m. read_msg (ie_mq E) topic (Some (snd x)) = Inr m) xs' ms'"
    "map msg_end_sequence ms' = replicate k False @ [True]"
    by (auto simp: map_eq_Cons_conv list_all2_Cons2)
  obtain t where t: "handle_replies E (map (Pair topic) xs) s = handle_replies E (map (Pair topic) xs') t" "awaits E topic h i n ud t"
    "impl_table t = impl_table s" "im_events t = im_events s @ [AppMessage n (SetID i m) data ud]"
    using more_replies_to_come [OF Suc.prems(1) x(4,3), of data "map (Pair topic) xs'"] by (auto simp: x(1))
  from Suc.IH [OF t(2) x(5,6)] t x(1,2) show ?case by auto
qed

text \<open>What the requester reads from the properties of a reply.\<close>

definition reply_read :: "string \<Rightarrow> AittMsg \<Rightarrow> AittMsg" where
  "reply_read topic m = SetEndSequence (msg_end_sequence m) (SetSequence (GetSequence m)
     (SetCorrelation (msg_correlation m) (SetTopic topic AittMsg_new)))"

lemma reply_read_fields [simp]:
  "GetSequence (SetID i (reply_read topic m)) = GetSequence m" "msg_end_sequence (SetID i (reply_read topic m)) = msg_end_sequence m"
  "msg_correlation (SetID i (reply_read topic m)) = msg_correlation m" "msg_topic (SetID i (reply_read topic m)) = topic"
  "msg_id (SetID i (reply_read topic m)) = i" "msg_end_sequence (reply_read topic m) = msg_end_sequence m"
  by (simp_all add: reply_read_def AittMsg_defs)

lemma map2_map2_reply:
  "length rs = length ms \<Longrightarrow>
   map2 (\<lambda>x m. f m (fst x)) (map2 (\<lambda>r m. (fst r, g m)) rs ms) (map h ms) = map2 f (map h ms) (map fst rs)"
  by (induction rs ms rule: list_induct2) simp_all

section \<open>The request\<close>

lemma read_request_props:
  assumes "mosq_props_ok E" and "length c < 65536"
  shows "read_msg E topic (Some [ResponseTopic rt, correlation_prop c]) =
     Inr (SetCorrelation c (SetResponseTopic rt (SetTopic topic AittMsg_new)))"
  using assms by (simp add: read_msg_def mosq_props_ok_def correlation_prop_short Let_def)

lemma impl_reply_id_update [simp]:
  "impl_ok (u\<lparr>reply_id := x\<rparr>) = impl_ok u" "impl_table (u\<lparr>reply_id := x\<rparr>) = impl_table u"
proof -
  have "prov (u\<lparr>reply_id := x\<rparr>) = prov u" by (simp add: prov_def tcp_of_def fun_eq_iff)
  then have "impl_entry (u\<lparr>reply_id := x\<rparr>) = impl_entry u" by (rule impl_entry_cong) simp
  then show "impl_table (u\<lparr>reply_id := x\<rparr>) = impl_table u" by (intro ext) (simp add: impl_table_def)
  show "impl_ok (u\<lparr>reply_id := x\<rparr>) = impl_ok u"
    by (simp add: impl_ok_def providers_ok_def infos_ok_def prov_def nxt_def tcp_of_def)
qed

lemma mq_PublishWithReply_same:
  assumes "mq_PublishWithReply E topic data qos retain rt c q = (Inr (), q')"
  shows "q' = q\<lparr>mq_calls := mq_calls q'\<rparr> \<and>
     v5_published (mq_calls q') = v5_published (mq_calls q) @ [(topic, data, [ResponseTopic rt, correlation_prop c])]"
  using assms by (auto simp: mq_PublishWithReply_def act_simps split: if_splits)

lemma mqtt_subscribed:
  assumes "impl_Subscribe E topic cb ud AITT_TYPE_MQTT qos s = (Inr i, t)" and "\<not> subscribers_iterating (im_mq s)"
  shows "i = im_next_info s \<and> im_idle t = im_idle s \<and> im_events t = im_events s \<and>
     subscribers (im_mq t) = subscribers (im_mq s) @ [(mq_next_ptr (im_mq s), \<lparr>sd_topic = topic, sd_cb = i, sd_user_data = ud\<rparr>)] \<and>
     subscriber_iterator_updated (im_mq t) = subscriber_iterator_updated (im_mq s) \<and>
     map_of (im_closures t) i = Some \<lparr>cl_cb = cb, cl_protocol = AITT_TYPE_MQTT, cl_loop = None\<rparr> \<and>
     map_of (im_infos t) i = Some (AITT_TYPE_MQTT, mq_next_ptr (im_mq s)) \<and> disc_mq (im_discovery t) \<noteq> None \<and>
     v5_published (mq_calls (im_mq t)) = v5_published (mq_calls (im_mq s))"
  using assms
  by (auto simp: impl_Subscribe_def new_info_def SubscribeMQ_def add_closure_def push_info_def mq_Subscribe_def mdh_Subscribe_def
      mdh_UpdateDiscoveryMsg_def UpdateDiscoveryMsg_def PublishDiscoveryMsg_def mq_Publish_def act_simps Let_def
      split: if_splits option.splits sum.splits prod.splits)

lemma request_awaits:
  fixes a :: Impl
  assumes "impl_ok a" "\<not> subscriber_iterator_updated (im_mq a)" "im_idle a = []"
    and rt: "rt = reply_topic topic (reply_id a)" "CompareTopic (ie_mq A) rt rt" "filter (wants (ie_mq A) rt) (subscribers (im_mq a)) = []"
    and ask: "impl_PublishWithReply A topic data len AITT_TYPE_MQTT qos retain n ud c a = (Inr (), s)"
  shows "\<exists>h i. awaits A rt h i n ud s \<and> (impl_table s)(i := None) = impl_table a \<and> im_events s = im_events a \<and>
     v5_published (mq_calls (im_mq s)) = v5_published (mq_calls (im_mq a)) @ [(topic, data, [ResponseTopic rt, correlation_prop c])]"
proof -
  define a1 where "a1 = a\<lparr>reply_id := reply_id a + 1\<rparr>"
  obtain i t where i: "impl_Subscribe A rt (ReplyCb n) ud AITT_TYPE_MQTT qos a1 = (Inr i, t)"
    and p: "im_on_mq (mq_PublishWithReply (ie_mq A) topic data qos retain rt c) t = (Inr (), s)"
    using ask by (auto simp: impl_PublishWithReply_def next_reply_topic_def bnd_run a1_def rt(1) split: sum.splits prod.splits)
  obtain q where q: "mq_PublishWithReply (ie_mq A) topic data qos retain rt c (im_mq t) = (Inr (), q)" "s = t\<lparr>im_mq := q\<rparr>"
    using p by (auto simp: im_on_run split: prod.splits)
  have ok1: "impl_ok a1" "impl_table a1 = impl_table a" using assms(1) by (simp_all add: a1_def)
  have "impl_add A qos (rt, ReplyCb n, ud, AITT_TYPE_MQTT) a1 = (Inr i, t)" using i by (simp add: impl_add_def)
  from impl_add_law [OF ok1(1) this] have t: "impl_ok t" "impl_table a i = None"
    "impl_table t = (impl_table a)(i \<mapsto> (rt, ReplyCb n, ud, AITT_TYPE_MQTT))" using ok1(2) by simp_all
  have "\<not> subscribers_iterating (im_mq a1)" using ok1(1) by (simp add: impl_ok_def providers_ok_def mq_idle_def)
  note f = mqtt_subscribed [OF i this]
  obtain cs where cs: "q = im_mq t\<lparr>mq_calls := cs\<rparr>"
    "v5_published cs = v5_published (mq_calls (im_mq t)) @ [(topic, data, [ResponseTopic rt, correlation_prop c])]"
    using mq_PublishWithReply_same [OF q(1)] by blast
  have "same_subscriptions t s" using t(1)
    by (auto simp: q(2) cs(1) impl_ok_def same_subscriptions_def same_infos_def providers_ok_def prov_def mq_table_def nxt_def tcp_of_def
        mq_idle_def mq_ok_defs fun_eq_iff)
  from same_subscriptions_ok [OF t(1) this] have s: "impl_ok s" "impl_table s = impl_table t" by simp_all
  have w: "filter (wants (ie_mq A) rt) (subscribers (im_mq s)) = [(mq_next_ptr (im_mq a), \<lparr>sd_topic = rt, sd_cb = i, sd_user_data = ud\<rparr>)]"
    using f rt(2,3) by (simp add: q(2) cs(1) a1_def wants_def)
  have "awaits A rt (mq_next_ptr (im_mq a)) i n ud s"
    using s(1) w f assms(2,3) by (auto simp: awaits_def q(2) cs(1) a1_def)
  moreover have "(impl_table s)(i := None) = impl_table a" using s(2) t(2,3) by (simp add: fun_upd_idem)
  moreover have "im_events s = im_events a" "v5_published (mq_calls (im_mq s)) =
      v5_published (mq_calls (im_mq a)) @ [(topic, data, [ResponseTopic rt, correlation_prop c])]"
    using f cs(2) by (simp_all add: q(2) cs(1) a1_def)
  ultimately show ?thesis by blast
qed

lemma answers_handled:
  assumes lib: "mosq_props_ok (ie_mq A)" and c: "length (msg_correlation m) < 65536"
    and wait: "awaits A (msg_reply_topic m) h i n ud s"
    and m: "msg_protocol m = AITT_TYPE_MQTT" "GetSequence m = 0"
    and answer: "int (length ds) < INT32_MAX"
      "send_replies B m (map (\<lambda>d. (d, False)) ds @ [(d, True)]) b = (Inr ms, b')"
    and wire: "v5_published (mq_calls (im_mq b')) = v5_published (mq_calls (im_mq b)) @ replies"
  shows "\<exists>u msgs. handle_replies A replies s = (Inr (), u) \<and>
     im_events u = im_events s @ map2 (\<lambda>msg d. AppMessage n msg d ud) msgs (ds @ [d]) \<and>
     length msgs = length ds + 1 \<and>
     map GetSequence msgs = (if ds = [] then [0] else map int [1 ..< length ds + 2]) \<and>
     map msg_end_sequence msgs = replicate (length ds) False @ [True] \<and>
     (\<forall>x \<in> set msgs. msg_correlation x = msg_correlation m \<and> msg_topic x = msg_reply_topic m \<and> msg_id x = i) \<and>
     impl_table u = (impl_table s)(i := None)"
proof -
  define rs where "rs = map (\<lambda>d. (d, False)) ds @ [(d, True)]"
  define rt where "rt = msg_reply_topic m"
  note sent = send_replies_published [OF answer(2) m(1), folded rs_def rt_def]
  note numbers = reply_numbers [OF answer(2) m(2) answer(1)]
  define xs where "xs = map2 (\<lambda>r m'. (fst r, reply_props m')) rs ms"
  have replies: "replies = map (Pair rt) xs" using wire sent by (auto simp: xs_def split_def comp_def)
  have len: "length rs = length ms" using sent by simp
  have "list_all2 (\<lambda>x m. read_msg (ie_mq A) rt (Some (snd x)) = Inr m) xs (map (reply_read rt) ms)"
    using sent c read_reply_props [OF lib(1), of _ rt] len
    by (auto simp: xs_def list_all2_conv_all_nth reply_read_def)
  moreover have "map msg_end_sequence (map (reply_read rt) ms) = replicate (length ds) False @ [True]"
    using numbers by (simp add: comp_def)
  ultimately obtain u where u: "handle_replies A replies s = (Inr (), u)"
    "im_events u = im_events s @ map2 (\<lambda>x m. AppMessage n (SetID i m) (fst x) ud) xs (map (reply_read rt) ms)"
    "impl_table u = (impl_table s)(i := None)"
    using replies_handled [OF wait [folded rt_def], of xs "map (reply_read rt) ms" "length ds"] replies by auto
  define msgs where "msgs = map (\<lambda>m. SetID i (reply_read rt m)) ms"
  have "map2 (\<lambda>x m. AppMessage n (SetID i m) (fst x) ud) xs (map (reply_read rt) ms) =
      map2 (\<lambda>m d. AppMessage n (SetID i m) d ud) (map (reply_read rt) ms) (ds @ [d])"
    using map2_map2_reply [OF len, of "\<lambda>msg d. AppMessage n (SetID i msg) d ud" reply_props "reply_read rt"]
    by (simp add: xs_def rs_def comp_def)
  also have "\<dots> = map2 (\<lambda>msg d. AppMessage n msg d ud) msgs (ds @ [d])"
    by (simp add: msgs_def zip_map1 split_def comp_def)
  finally have "im_events u = im_events s @ map2 (\<lambda>msg d. AppMessage n msg d ud) msgs (ds @ [d])" using u(2) by simp
  moreover have "length msgs = length ds + 1" using len by (simp add: msgs_def rs_def)
  moreover have "map GetSequence msgs = (if ds = [] then [0] else map int [1 ..< length ds + 2])"
    "map msg_end_sequence msgs = replicate (length ds) False @ [True]"
    using numbers by (simp_all add: msgs_def comp_def)
  moreover have "\<forall>x \<in> set msgs. msg_correlation x = msg_correlation m \<and> msg_topic x = rt \<and> msg_id x = i"
    using sent by (simp add: msgs_def)
  ultimately show ?thesis using u(1,3) unfolding rt_def by blast
qed

end
