(* ===== verification/Viewer_Model.thy ===== *)
theory Viewer_Model
  imports TCPModule_Props MQDiscovery_Model
begin

text \<open>
  The viewer of discovery messages, \<open>tools/discovery_viewer.cc\<close> and \<open>tools/FlexbufPrinter.cc\<close>: an MQTT
  client of its own that subscribes to the discovery messages of all devices and prints what each of them
  advertises, in full or for the topics with a given prefix.

  The accessors \<open>GetType\<close> and \<open>ToString\<close> of a reference belong to the serialisation library and are
  parameters, like those of \<open>flexbuf\<close>.  What goes to the terminal is a string, what goes to the log a list.
\<close>

section \<open>The printer\<close>

text \<open>The types that the printer tells apart; any other number is \<open>FBT_OTHER\<close>.\<close>

datatype FbType =
    FBT_NULL | FBT_INT | FBT_UINT | FBT_FLOAT | FBT_KEY | FBT_STRING
  | FBT_INDIRECT_INT | FBT_INDIRECT_UINT | FBT_INDIRECT_FLOAT | FBT_MAP | FBT_VECTOR
  | FBT_VECTOR_INT | FBT_VECTOR_UINT | FBT_VECTOR_FLOAT | FBT_VECTOR_KEY | FBT_VECTOR_STRING_DEPRECATED
  | FBT_VECTOR_INT2 | FBT_VECTOR_UINT2 | FBT_VECTOR_FLOAT2 | FBT_VECTOR_INT3 | FBT_VECTOR_UINT3 | FBT_VECTOR_FLOAT3
  | FBT_VECTOR_INT4 | FBT_VECTOR_UINT4 | FBT_VECTOR_FLOAT4 | FBT_BLOB | FBT_BOOL | FBT_VECTOR_BOOL
  | FBT_OTHER int

datatype plog = ErrLog string | HexDump "byte list"

record printer =
  pr_tab :: int
  pr_topic :: string
  pr_out :: string
  pr_log :: "plog list"

text \<open>What the viewer takes from outside: the library, the calls of the stack it has, the random number of its
  identifier and the results of libmosquitto's functions.\<close>

datatype vcall =
    V_lib_init
  | V_new string
  | V_lib_cleanup
  | V_int_option int int
  | V_message_callback_set
  | V_loop_start
  | V_connect string int int
  | V_subscribe string int

record view_env =
  ve_fb :: flexbuf
  ve_GetType :: "fb \<Rightarrow> FbType"
  ve_ToString :: "fb \<Rightarrow> string"
  ve_stack :: nat
  ve_rand :: nat
  ve_rc :: "vcall list \<Rightarrow> vcall \<Rightarrow> int"

abbreviation endl :: string where "endl \<equiv> [CHR 0x0A]"

definition cout :: "string \<Rightarrow> (printer, unit) act" where
  "cout t = upd (\<lambda>s. s\<lparr>pr_out := pr_out s @ t\<rparr>)"

definition plog :: "plog \<Rightarrow> (printer, unit) act" where
  "plog l = upd (\<lambda>s. s\<lparr>pr_log := pr_log s @ [l]\<rparr>)"

definition tab_add :: "int \<Rightarrow> (printer, unit) act" where
  "tab_add i = upd (\<lambda>s. s\<lparr>pr_tab := pr_tab s + i\<rparr>)"

definition FlexbufPrinter_new :: printer where
  "FlexbufPrinter_new = \<lparr>pr_tab = 0, pr_topic = [], pr_out = [], pr_log = []\<rparr>"

definition pr_SetTopic :: "string \<Rightarrow> (printer, unit) act" where
  "pr_SetTopic topic = upd (\<lambda>s. s\<lparr>pr_topic := topic\<rparr>)"

definition PrettyTab :: "bool \<Rightarrow> printer \<Rightarrow> string" where
  "PrettyTab ignore s = (if ignore then [] else replicate (nat (pr_tab s)) (CHR 0x09))"

text \<open>A line of output behind the indentation.\<close>

definition tab_line :: "bool \<Rightarrow> string \<Rightarrow> (printer, unit) act" where
  "tab_line ignore t = (\<lambda>s. cout (PrettyTab ignore s @ t @ endl) s)"

definition PrettyBlob :: "view_env \<Rightarrow> fb \<Rightarrow> (printer, unit) act" where
  "PrettyBlob V data = plog (HexDump (fb_as_blob (ve_fb V) data))"

text \<open>The entries of a map and the elements of a vector are printed by \<open>PrettyParsing\<close>, here an argument.\<close>

definition PrettyMap :: "view_env \<Rightarrow> (fb \<Rightarrow> bool \<Rightarrow> (printer, unit) act) \<Rightarrow> fb \<Rightarrow> bool \<Rightarrow> (printer, unit) act" where
  "PrettyMap V parsing data inline_value =
     sq (tab_line inline_value ''{'')
     (sq (tab_add 1)
     (sq (forA (fb_keys (ve_fb V) data) (\<lambda>key.
            sq (\<lambda>s. cout (PrettyTab False s @ key @ '' : '') s)
               (parsing (fb_lookup (ve_fb V) data key) True)))
     (sq (tab_add (- 1)) (tab_line False ''}''))))"

definition PrettyVector :: "view_env \<Rightarrow> (fb \<Rightarrow> bool \<Rightarrow> (printer, unit) act) \<Rightarrow> fb \<Rightarrow> bool \<Rightarrow> (printer, unit) act" where
  "PrettyVector V parsing data inline_value =
     sq (tab_line inline_value ''['')
     (sq (tab_add 1)
     (sq (forA (fb_as_vector (ve_fb V) data) (\<lambda>v. parsing v False))
     (sq (tab_add (- 1)) (tab_line False '']''))))"

text \<open>The number is the depth of calls that the stack still has room for.\<close>

fun PrettyParsing :: "view_env \<Rightarrow> nat \<Rightarrow> fb \<Rightarrow> bool \<Rightarrow> (printer, unit) act" where
  "PrettyParsing V 0 data inline_value = raise (UndefinedBehaviour ''stack overflow'')"
| "PrettyParsing V (Suc n) data inline_value =
     (case ve_GetType V data of
        FBT_NULL \<Rightarrow> plog (ErrLog ''Unknown Type : case FBT_NULL'')
      | FBT_KEY \<Rightarrow> plog (ErrLog ''Unknown Type : case FBT_KEY'')
      | FBT_MAP \<Rightarrow> PrettyMap V (PrettyParsing V n) data inline_value
      | FBT_BLOB \<Rightarrow> PrettyBlob V data
      | FBT_VECTOR \<Rightarrow> PrettyVector V (PrettyParsing V n) data inline_value
      | FBT_OTHER i \<Rightarrow> plog (ErrLog (''Unknown Type('' @ to_string i @ '')''))
      | _ \<Rightarrow> tab_line inline_value (ve_ToString V data))"

definition TCPTopicPrint :: "view_env \<Rightarrow> fb \<Rightarrow> string \<Rightarrow> string \<Rightarrow> (printer, unit) act" where
  "TCPTopicPrint V data protocol topic =
     (if topic = ''host'' then ret ()
      else let F = ve_fb V;
               connectInfo = fb_lookup F data topic;
               port = fb_as_uint F (fb_index F connectInfo CONN_INFO_PORT) mod 65536;
               num_of_cb = fb_as_uint F (fb_index F connectInfo CONN_INFO_NUM_OF_CB) mod 65536
           in sq (tab_add 1)
              (sq (tab_line False (''topic : '' @ topic))
              (sq (tab_line False (''[ port : '' @ to_string (int port) @ '', num_of_cb : '' @ to_string (int num_of_cb) @ '' ]''))
              (sq (whenA (protocol = ''SECURE_TCP'')
                     (if length (fb_as_vector F connectInfo) \<noteq> CONN_INFO_MAX then plog (ErrLog ''Unknown Message'')
                      else sq (plog (HexDump (fb_as_blob F (fb_index F connectInfo CONN_INFO_KEY))))
                              (plog (HexDump (fb_as_blob F (fb_index F connectInfo CONN_INFO_IV))))))
                  (tab_add (- 1))))))"

text \<open>\<open>topic.compare(0, topic_.size(), topic_)\<close> is zero exactly when the topic starts with the filter.\<close>

definition topic_matches :: "string \<Rightarrow> string \<Rightarrow> bool" where
  "topic_matches filter_topic topic \<longleftrightarrow> take (length filter_topic) topic = filter_topic"

text \<open>The topics to print: those that match, or all of them without a filter.\<close>

definition matched_topics :: "string \<Rightarrow> string list \<Rightarrow> string list" where
  "matched_topics filter_topic topics =
     (if filter_topic = [] then topics else filter (topic_matches filter_topic) topics)"

definition TCPPrettyParsing :: "view_env \<Rightarrow> string \<Rightarrow> fb \<Rightarrow> string \<Rightarrow> (printer, unit) act" where
  "TCPPrettyParsing V name data protocol =
     (\<lambda>s. let topics = fb_keys (ve_fb V) data; matched = matched_topics (pr_topic s) topics in
          if pr_topic s \<noteq> [] \<and> matched = [] then (Inr (), s)
          else sq (cout (name @ endl))
               (sq (tab_line False (''protocol : '' @ protocol))
               (sq (tab_line False ''['')
               (sq (tab_add 1)
               (sq (tab_line False (''host : '' @ fb_as_string (ve_fb V) (fb_lookup (ve_fb V) data ''host'')))
               (sq (tab_line False ''topic list : {'')
               (sq (forA matched (TCPTopicPrint V data protocol))
               (sq (tab_line False ''}'')
               (sq (tab_add (- 1))
                   (\<lambda>s. cout (PrettyTab False s @ '']'' @ endl @ endl) s))))))))) s)"

definition MQTTTopicPrint :: "string \<Rightarrow> (printer, unit) act" where
  "MQTTTopicPrint topic = sq (tab_add 1) (sq (tab_line False (''topic : '' @ topic)) (tab_add (- 1)))"

definition MQTTPrettyParsing :: "view_env \<Rightarrow> string \<Rightarrow> fb \<Rightarrow> (printer, unit) act" where
  "MQTTPrettyParsing V name data =
     (\<lambda>s. let topics = map (fb_as_string (ve_fb V)) (fb_as_vector (ve_fb V) data); matched = matched_topics (pr_topic s) topics in
          if pr_topic s \<noteq> [] \<and> matched = [] then (Inr (), s)
          else sq (cout (name @ endl))
               (sq (tab_line False ''protocol : MQTT'')
               (sq (tab_line False ''['')
               (sq (tab_add 1)
               (sq (tab_line False ''topic list : {'')
               (sq (forA matched MQTTTopicPrint)
               (sq (tab_line False ''}'')
               (sq (tab_add (- 1))
                   (\<lambda>s. cout (PrettyTab False s @ '']'' @ endl @ endl) s)))))))) s)"

definition PrettyKey :: "view_env \<Rightarrow> string \<Rightarrow> fb \<Rightarrow> string \<Rightarrow> (printer, unit) act" where
  "PrettyKey V name root key =
     (if key = ''status'' then ret ()
      else let ref = fb_root (ve_fb V) (fb_as_blob (ve_fb V) (fb_lookup (ve_fb V) root key)) in
           if key = ''TCP'' \<or> key = ''SECURE_TCP'' then TCPPrettyParsing V name ref key
           else if key = ''MQTT'' then MQTTPrettyParsing V name ref
           else sq (cout (name @ endl)) (PrettyParsing V (ve_stack V) ref False))"

definition PrettyPrint :: "view_env \<Rightarrow> string \<Rightarrow> byte list \<Rightarrow> (printer, unit) act" where
  "PrettyPrint V name data =
     (let root = fb_root (ve_fb V) data in forA (fb_keys (ve_fb V) root) (PrettyKey V name root))"

section \<open>The viewer\<close>

record MQTTHandler =
  vh_handle :: bool
  vh_client_id :: string
  vh_topic :: string
  vh_calls :: "vcall list"
  vh_out :: string
  vh_log :: "plog list"

definition vcall :: "view_env \<Rightarrow> vcall \<Rightarrow> (MQTTHandler, int) act" where
  "vcall V c = (\<lambda>s. (Inr (ve_rc V (vh_calls s) c), s\<lparr>vh_calls := vh_calls s @ [c]\<rparr>))"

definition verr :: "string \<Rightarrow> (MQTTHandler, unit) act" where
  "verr t = upd (\<lambda>s. s\<lparr>vh_log := vh_log s @ [ErrLog t]\<rparr>)"

definition vcheck :: "view_env \<Rightarrow> vcall \<Rightarrow> string \<Rightarrow> (MQTTHandler, unit) act" where
  "vcheck V c t = bnd (vcall V c) (\<lambda>r. whenA (r \<noteq> MOSQ_ERR_SUCCESS) (verr t))"

text \<open>The result of \<open>mosquitto_new\<close> counts as a pointer: zero is null.\<close>

definition MQTTHandler_ctor :: "view_env \<Rightarrow> (MQTTHandler, unit) act" where
  "MQTTHandler_ctor V =
     sq (vcheck V V_lib_init ''mosquitto_lib_init() Fail'')
     (bnd (vcall V (V_new (to_string (int (ve_rand V mod 100))))) (\<lambda>h.
      if h = 0
      then sq (upd (\<lambda>s. s\<lparr>vh_handle := False\<rparr>))
           (sq (verr ''mosquitto_new() Fail'') (sq (vcall V V_lib_cleanup) (ret ())))
      else sq (upd (\<lambda>s. s\<lparr>vh_handle := True\<rparr>))
           (sq (vcall V (V_int_option 1 5))
           (sq (vcall V V_message_callback_set)
               (vcheck V V_loop_start ''mosquitto_loop_start() Fail'')))))"

definition vh_Connect :: "view_env \<Rightarrow> string \<Rightarrow> (MQTTHandler, unit) act" where
  "vh_Connect V broker_ip =
     sq (vcheck V (V_connect broker_ip 1883 60) ''mosquitto_connect() Fail'')
        (vcheck V (V_subscribe (DISCOVERY_TOPIC_BASE @ ''+'') 0) ''mosquitto_subscribe() Fail'')"

definition vh_SetClientID :: "string \<Rightarrow> (MQTTHandler, unit) act" where
  "vh_SetClientID c = upd (\<lambda>s. s\<lparr>vh_client_id := c\<rparr>)"

definition vh_SetTopic :: "string \<Rightarrow> (MQTTHandler, unit) act" where
  "vh_SetTopic t = upd (\<lambda>s. s\<lparr>vh_topic := t\<rparr>)"

text \<open>The callback for a message; the printer is a local object, the terminal is not.\<close>

definition viewer_message :: "view_env \<Rightarrow> string \<Rightarrow> byte list \<Rightarrow> (MQTTHandler, unit) act" where
  "viewer_message V topic payload =
     (\<lambda>s. case topic_client_id topic of
        Inl e \<Rightarrow> (Inl e, s)
      | Inr client_id \<Rightarrow>
          if vh_client_id s \<noteq> [] \<and> vh_client_id s \<noteq> client_id then (Inr (), s)
          else (let p = (if vh_topic s \<noteq> [] then snd (pr_SetTopic (vh_topic s) FlexbufPrinter_new) else FlexbufPrinter_new) in
                if payload = [] then (Inr (), s)
                else (case PrettyPrint V client_id payload p of
                        (r, p') \<Rightarrow> (r, s\<lparr>vh_out := vh_out s @ pr_out p', vh_log := vh_log s @ pr_log p'\<rparr>))))"

record ParsingData =
  pd_clean :: bool
  pd_broker_ip :: string
  pd_id :: string
  pd_topic :: string

definition ParsingData_new :: ParsingData where
  "ParsingData_new = \<lparr>pd_clean = False, pd_broker_ip = ''127.0.0.1'', pd_id = [], pd_topic = []\<rparr>"

datatype argp_key = Key char | ARGP_KEY_NO_ARGS | OtherKey int

abbreviation (input) ARGP_ERR_UNKNOWN :: int where "ARGP_ERR_UNKNOWN \<equiv> 7"

definition parse_opt :: "argp_key \<Rightarrow> string \<Rightarrow> ParsingData \<Rightarrow> int \<times> ParsingData" where
  "parse_opt key arg args =
     (case key of
        Key c \<Rightarrow>
          if c = CHR ''b'' then (0, args\<lparr>pd_broker_ip := arg\<rparr>)
          else if c = CHR ''c'' then (0, args\<lparr>pd_clean := True\<rparr>)
          else if c = CHR ''i'' then (0, args\<lparr>pd_id := arg\<rparr>)
          else if c = CHR ''t'' then (0, args\<lparr>pd_topic := arg\<rparr>)
          else (ARGP_ERR_UNKNOWN, args)
      | ARGP_KEY_NO_ARGS \<Rightarrow> (0, args)
      | OtherKey _ \<Rightarrow> (ARGP_ERR_UNKNOWN, args))"

text \<open>\<open>argp_parse\<close> calls \<open>parse_opt\<close> for each option it finds.\<close>

definition parse_args :: "(argp_key \<times> string) list \<Rightarrow> ParsingData" where
  "parse_args opts = fold (\<lambda>(key, arg) args. snd (parse_opt key arg args)) opts ParsingData_new"

text \<open>
  \<open>main\<close> up to its endless loop, in which the messages arrive: the code it returns at once, or nothing when
  it goes on with a set up client.
\<close>

definition viewer_main :: "view_env \<Rightarrow> (argp_key \<times> string) list \<Rightarrow> (MQTTHandler, int option) act" where
  "viewer_main V opts =
     (let arg = parse_args opts in
      if pd_clean arg then sq (verr ''Not Supported'') (ret (Some (- 1)))
      else tryA (sq (MQTTHandler_ctor V)
                (sq (whenA (pd_id arg \<noteq> []) (vh_SetClientID (pd_id arg)))
                (sq (whenA (pd_topic arg \<noteq> []) (vh_SetTopic (pd_topic arg)))
                (sq (vh_Connect V (pd_broker_ip arg)) (ret None)))))
             (\<lambda>e. sq (verr ''MQTTHandler Fail'') (ret (Some (- 1)))))"

section \<open>What the printer writes\<close>

definition view_ok :: "view_env \<Rightarrow> bool" where
  "view_ok V \<longleftrightarrow> flexbuf_ok (ve_fb V) \<and> ve_GetType V FbNull = FBT_NULL \<and> (\<forall>i. ve_GetType V (FbInt i) = FBT_INT) \<and>
     (\<forall>n. ve_GetType V (FbUInt n) = FBT_UINT) \<and> (\<forall>b. ve_GetType V (FbBool b) = FBT_BOOL) \<and>
     (\<forall>t. ve_GetType V (FbString t) = FBT_STRING) \<and> (\<forall>b. ve_GetType V (FbBlob b) = FBT_BLOB) \<and>
     (\<forall>vs. ve_GetType V (FbVector vs) = FBT_VECTOR) \<and> (\<forall>kvs. ve_GetType V (FbMap kvs) = FBT_MAP)"

definition indent :: "bool \<Rightarrow> int \<Rightarrow> string" where
  "indent ignore k = (if ignore then [] else replicate (nat k) (CHR 0x09))"

text \<open>An action that only writes: to the terminal and to the log, at a given indentation.\<close>

definition prints :: "(printer, unit) act \<Rightarrow> printer \<Rightarrow> string \<Rightarrow> plog list \<Rightarrow> bool" where
  "prints m s t l \<longleftrightarrow> m s = (Inr (), s\<lparr>pr_out := pr_out s @ t, pr_log := pr_log s @ l\<rparr>)"

lemma print_run [act_simps]:
  "cout t s = (Inr (), s\<lparr>pr_out := pr_out s @ t\<rparr>)" "plog l s = (Inr (), s\<lparr>pr_log := pr_log s @ [l]\<rparr>)"
  "tab_add i s = (Inr (), s\<lparr>pr_tab := pr_tab s + i\<rparr>)"
  "tab_line b t s = (Inr (), s\<lparr>pr_out := pr_out s @ indent b (pr_tab s) @ t @ endl\<rparr>)"
  by (simp_all add: cout_def plog_def tab_add_def tab_line_def PrettyTab_def indent_def act_simps)

lemma PrettyTab_indent [simp]: "PrettyTab b s = indent b (pr_tab s)"
  by (simp add: PrettyTab_def indent_def)

lemma printer_updates [simp]:
  "s\<lparr>pr_log := l, pr_out := t\<rparr> = s\<lparr>pr_out := t, pr_log := l\<rparr>"
  "s\<lparr>pr_out := t, pr_tab := k\<rparr> = s\<lparr>pr_tab := k, pr_out := t\<rparr>"
  "s\<lparr>pr_log := l, pr_tab := k\<rparr> = s\<lparr>pr_tab := k, pr_log := l\<rparr>" for s :: printer
  by simp_all

lemma forA_prints:
  assumes "\<And>x o' l'. x \<in> set xs \<Longrightarrow> prints (f x) (s\<lparr>pr_out := o', pr_log := l'\<rparr>) (t x) (l x)"
  shows "prints (forA xs f) s (concat (map t xs)) (concat (map l xs))"
  using assms
proof (induction xs arbitrary: s)
  case (Cons x xs)
  have x: "f x s = (Inr (), s\<lparr>pr_out := pr_out s @ t x, pr_log := pr_log s @ l x\<rparr>)"
    using Cons.prems [of x "pr_log s" "pr_out s"] by (simp add: prints_def)
  from Cons.IH [of "s\<lparr>pr_out := pr_out s @ t x, pr_log := pr_log s @ l x\<rparr>"] Cons.prems
  show ?case by (simp add: prints_def x act_simps)
qed (simp add: prints_def act_simps)

lemma forA_map: "forA (map g xs) f = forA xs (\<lambda>x. f (g x))"
  by (induction xs) (simp_all add: forA.simps)

lemma concat_map_Nil [simp]: "concat (map (\<lambda>_. []) xs) = []"
  by (induction xs) simp_all

lemma forA_skip: "(\<And>x. x \<in> set xs \<Longrightarrow> \<not> P x \<Longrightarrow> f x = ret ()) \<Longrightarrow> forA xs f = forA (filter P xs) f"
  by (induction xs) (auto simp: forA.simps sq_def bnd_def ret_def)

text \<open>The text of a value as a function of its structure.\<close>

fun fb_text :: "view_env \<Rightarrow> int \<Rightarrow> bool \<Rightarrow> fb \<Rightarrow> string" where
  "fb_text V k b FbNull = []"
| "fb_text V k b (FbBlob d) = []"
| "fb_text V k b (FbMap kvs) =
     indent b k @ ''{'' @ endl @ concat (map (\<lambda>kv. indent False (k + 1) @ fst kv @ '' : '' @ fb_text V (k + 1) True (snd kv)) kvs)
     @ indent False k @ ''}'' @ endl"
| "fb_text V k b (FbVector vs) =
     indent b k @ ''['' @ endl @ concat (map (fb_text V (k + 1) False) vs) @ indent False k @ '']'' @ endl"
| "fb_text V k b v = indent b k @ ve_ToString V v @ endl"

fun fb_logs :: "fb \<Rightarrow> plog list" where
  "fb_logs FbNull = [ErrLog ''Unknown Type : case FBT_NULL'']"
| "fb_logs (FbBlob d) = [HexDump d]"
| "fb_logs (FbMap kvs) = concat (map (\<lambda>kv. fb_logs (snd kv)) kvs)"
| "fb_logs (FbVector vs) = concat (map fb_logs vs)"
| "fb_logs v = []"

text \<open>With room on the stack for the depth of the value, the printer returns, has written the text of the
  value, and has the indentation it started with.\<close>

lemma PrettyParsing_prints:
  assumes "view_ok V" and "fb_wf v" and "fb_depth v \<le> n"
  shows "prints (PrettyParsing V n v b) s (fb_text V (pr_tab s) b v) (fb_logs v)"
  using assms(2,3)
proof (induction v arbitrary: n b s rule: fb_depth.induct)
  case (1 vs)
  then obtain m where n: "n = Suc m" by (cases n) auto
  have F: "fb_as_vector (ve_fb V) (FbVector vs) = vs" "ve_GetType V (FbVector vs) = FBT_VECTOR"
    using assms(1) by (simp_all add: view_ok_def flexbuf_ok_def)
  define s1 where "s1 = s\<lparr>pr_out := pr_out s @ indent b (pr_tab s) @ ''['' @ endl, pr_tab := pr_tab s + 1\<rparr>"
  have "prints (PrettyParsing V m v False) (s1\<lparr>pr_out := o', pr_log := l'\<rparr>) (fb_text V (pr_tab s + 1) False v) (fb_logs v)"
    if "v \<in> set vs" for v o' l'
  proof -
    have "fb_wf v" "fb_depth v \<le> m"
      using 1(2,3) that n member_le_sum_list [of "fb_depth v" "map fb_depth vs"] by (auto simp: list_all_iff)
    from 1(1) [OF that this, of False "s1\<lparr>pr_out := o', pr_log := l'\<rparr>"] show ?thesis by (simp add: s1_def)
  qed
  note forA_prints [of vs, OF this]
  then show ?case using F by (simp add: n prints_def act_simps s1_def PrettyVector_def)
next
  case (2 kvs)
  then obtain m where n: "n = Suc m" by (cases n) auto
  have F: "fb_as_map (ve_fb V) (FbMap kvs) = kvs" "ve_GetType V (FbMap kvs) = FBT_MAP"
    using assms(1) by (simp_all add: view_ok_def flexbuf_ok_def)
  have d: "distinct (map fst kvs)" using 2(2) by simp
  define s1 where "s1 = s\<lparr>pr_out := pr_out s @ indent b (pr_tab s) @ ''{'' @ endl, pr_tab := pr_tab s + 1\<rparr>"
  define val where "val k = fb_lookup (ve_fb V) (FbMap kvs) k" for k
  have val: "val (fst kv) = snd kv" if "kv \<in> set kvs" for kv
    using that d by (simp add: val_def fb_lookup_def F(1) map_of_is_SomeI [of kvs "fst kv" "snd kv"])
  have "prints (sq (\<lambda>s. cout (PrettyTab False s @ k @ '' : '') s) (PrettyParsing V m (val k) True)) (s1\<lparr>pr_out := o', pr_log := l'\<rparr>)
      (indent False (pr_tab s + 1) @ k @ '' : '' @ fb_text V (pr_tab s + 1) True (val k)) (fb_logs (val k))"
    if k: "k \<in> set (map fst kvs)" for k o' l'
  proof -
    obtain kv where kv: "kv \<in> set kvs" "k = fst kv" using k by auto
    have "fb_wf (snd kv)" "fb_depth (snd kv) \<le> m"
      using 2(2,3) kv(1) n member_le_sum_list [of "fb_depth (snd kv)" "map (\<lambda>kv. fb_depth (snd kv)) kvs"] by (auto simp: list_all_iff)
    from 2(1) [OF kv(1) this, of True "s1\<lparr>pr_out := o' @ indent False (pr_tab s1) @ k @ '' : '', pr_log := l'\<rparr>"]
    show ?thesis using val [OF kv(1)] by (simp add: s1_def prints_def act_simps kv(2))
  qed
  note forA_prints [of "map fst kvs", OF this]
  with F val show ?case by (simp add: n prints_def act_simps s1_def PrettyMap_def fb_keys_def val_def comp_def cong: map_cong)
qed (use assms(1) in \<open>auto simp: prints_def view_ok_def flexbuf_ok_def PrettyBlob_def act_simps gr0_conv_Suc Suc_le_eq\<close>)

section \<open>What the viewer shows\<close>

text \<open>What a device advertises under one protocol: the topics it subscribes to over MQTT, its servers of
  a TCP transport (topic, port, number of callbacks, key and iv), or a value of another protocol.\<close>

datatype advert =
    MqttAdvert "string list"
  | TcpAdvert bool string "(string \<times> nat \<times> nat \<times> byte list \<times> byte list) list"
  | OtherAdvert string fb

fun advert_key :: "advert \<Rightarrow> string" where
  "advert_key (MqttAdvert ts) = ''MQTT''"
| "advert_key (TcpAdvert secure ip es) = tcp_NAME secure"
| "advert_key (OtherAdvert key v) = key"

fun server_vector :: "bool \<Rightarrow> nat \<times> nat \<times> byte list \<times> byte list \<Rightarrow> fb" where
  "server_vector secure (port, n, key, iv) =
     FbVector ([FbUInt port, FbUInt n] @ (if secure then [FbBlob key, FbBlob iv] else []))"

fun advert_fb :: "advert \<Rightarrow> fb" where
  "advert_fb (MqttAdvert ts) = FbVector (map FbString ts)"
| "advert_fb (TcpAdvert secure ip es) = FbMap ((''host'', FbString ip) # map (\<lambda>e. (fst e, server_vector secure (snd e))) es)"
| "advert_fb (OtherAdvert key v) = v"

fun advert_ok :: "view_env \<Rightarrow> advert \<Rightarrow> bool" where
  "advert_ok V (MqttAdvert ts) \<longleftrightarrow> True"
| "advert_ok V (TcpAdvert secure ip es) \<longleftrightarrow>
     distinct (''host'' # map fst es) \<and> list_all (\<lambda>(topic, port, n, _). port < 65536 \<and> n < 65536) es"
| "advert_ok V (OtherAdvert key v) \<longleftrightarrow>
     key \<notin> {''status'', ''TCP'', ''SECURE_TCP'', ''MQTT''} \<and> fb_wf v \<and> fb_depth (fb_norm v) \<le> ve_stack V"

abbreviation (input) line :: "int \<Rightarrow> string \<Rightarrow> string" where "line k t \<equiv> indent False k @ t @ endl"

fun server_text :: "string \<times> nat \<times> nat \<times> byte list \<times> byte list \<Rightarrow> string" where
  "server_text (topic, port, n, key, iv) =
     line 2 (''topic : '' @ topic) @ line 2 (''[ port : '' @ to_string (int port) @ '', num_of_cb : '' @ to_string (int n) @ '' ]'')"

text \<open>The servers in the order of their topics, without those the filter leaves out.\<close>

definition shown_servers :: "string \<Rightarrow> (string \<times> 'a) list \<Rightarrow> (string \<times> 'a) list" where
  "shown_servers f es = filter (\<lambda>e. topic_matches f (fst e)) (sort_key fst es)"

fun advert_text :: "view_env \<Rightarrow> string \<Rightarrow> string \<Rightarrow> advert \<Rightarrow> string" where
  "advert_text V f name (MqttAdvert ts) =
     (if f \<noteq> [] \<and> matched_topics f ts = [] then []
      else name @ endl @ line 0 ''protocol : MQTT'' @ line 0 ''['' @ line 1 ''topic list : {''
        @ concat (map (\<lambda>t. line 2 (''topic : '' @ t)) (matched_topics f ts)) @ line 1 ''}'' @ line 0 '']'' @ endl)"
| "advert_text V f name (TcpAdvert secure ip es) =
     (if f \<noteq> [] \<and> matched_topics f (''host'' # map fst es) = [] then []
      else name @ endl @ line 0 (''protocol : '' @ tcp_NAME secure) @ line 0 ''['' @ line 1 (''host : '' @ ip) @ line 1 ''topic list : {''
        @ concat (map server_text (shown_servers f es)) @ line 1 ''}'' @ line 0 '']'' @ endl)"
| "advert_text V f name (OtherAdvert key v) = name @ endl @ fb_text V 0 False (fb_norm v)"

fun advert_log :: "string \<Rightarrow> advert \<Rightarrow> plog list" where
  "advert_log f (MqttAdvert ts) = []"
| "advert_log f (TcpAdvert secure ip es) =
     (if secure then concat (map (\<lambda>(_, _, _, key, iv). [HexDump key, HexDump iv]) (shown_servers f es)) else [])"
| "advert_log f (OtherAdvert key v) = fb_logs (fb_norm v)"

lemma fb_norm_wf: "fb_wf v \<Longrightarrow> fb_wf (fb_norm v)"
proof (induction v rule: fb_norm.induct)
  case (2 kvs)
  then have "distinct (map fst (sort_key fst (map (\<lambda>kv. (fst kv, fb_norm (snd kv))) kvs)))"
    by (simp add: distinct_map comp_def inj_on_def) force
  with 2 show ?case by (auto simp: list_all_iff)
qed (auto simp: list_all_iff)

lemma advert_wf: "advert_ok V a \<Longrightarrow> fb_wf (advert_fb a)"
proof (cases a)
  case (TcpAdvert secure ip es)
  have "fb_wf (server_vector secure x)" for x by (cases x) simp
  with TcpAdvert show "advert_ok V a \<Longrightarrow> fb_wf (advert_fb a)" by (auto simp: list_all_iff comp_def)
qed (auto simp: list_all_iff)

lemma topic_matches_Nil [simp]: "topic_matches [] t"
  by (simp add: topic_matches_def)

lemma matched_topics_filter: "matched_topics f ts = filter (topic_matches f) ts"
  by (simp add: matched_topics_def)

lemma mqtt_prints:
  assumes "flexbuf_ok (ve_fb V)" and "pr_tab s = 0"
  shows "prints (MQTTPrettyParsing V name (FbVector (map FbString ts))) s (advert_text V (pr_topic s) name (MqttAdvert ts)) []"
proof (cases "pr_topic s \<noteq> [] \<and> matched_topics (pr_topic s) ts = []")
  case True
  with assms show ?thesis by (simp add: prints_def MQTTPrettyParsing_def flexbuf_okD Let_def comp_def)
next
  case False
  define s1 where "s1 = s\<lparr>pr_out := pr_out s @ name @ endl @ line 0 ''protocol : MQTT'' @ line 0 ''['' @ line 1 ''topic list : {'', pr_tab := 1\<rparr>"
  have "prints (MQTTTopicPrint t) (s1\<lparr>pr_out := o', pr_log := l'\<rparr>) (line 2 (''topic : '' @ t)) []" for t o' l'
    by (simp add: prints_def MQTTTopicPrint_def act_simps s1_def)
  then have "prints (forA (matched_topics (pr_topic s) ts) MQTTTopicPrint) s1
      (concat (map (\<lambda>t. line 2 (''topic : '' @ t)) (matched_topics (pr_topic s) ts))) []"
    using forA_prints [of _ MQTTTopicPrint s1 "\<lambda>t. line 2 (''topic : '' @ t)" "\<lambda>_. []"] by simp
  with False assms show ?thesis
    by (auto simp: prints_def MQTTPrettyParsing_def flexbuf_okD Let_def comp_def act_simps s1_def)
qed

lemma tcp_topic_prints:
  assumes F: "flexbuf_ok (ve_fb V)" and tab: "pr_tab s = 1" and e: "fst e \<noteq> ''host''"
    and v: "fb_lookup (ve_fb V) root (fst e) = server_vector secure (snd e)" and small: "fst (snd e) < 65536" "fst (snd (snd e)) < 65536"
  shows "prints (TCPTopicPrint V root (tcp_NAME secure) (fst e)) s (server_text e)
     (if secure then [HexDump (fst (snd (snd (snd e)))), HexDump (snd (snd (snd (snd e))))] else [])"
proof -
  obtain topic port n key iv where ee: "e = (topic, port, n, key, iv)" by (cases e)
  show ?thesis
    using assms
    by (cases secure) (simp_all add: ee prints_def TCPTopicPrint_def fb_index_def flexbuf_okD tcp_NAME_def act_simps Let_def)
qed

lemma insort_key_map: "insort_key fst (fst e, h (snd e)) (map (\<lambda>e. (fst e, h (snd e))) es) = map (\<lambda>e. (fst e, h (snd e))) (insort_key fst e es)"
  by (induction es) auto

lemma sort_key_map: "sort_key fst (map (\<lambda>e. (fst e, h (snd e))) es) = map (\<lambda>e. (fst e, h (snd e))) (sort_key fst es)"
  by (induction es) (simp_all add: insort_key_map)

lemma tcp_root:
  assumes F: "flexbuf_ok F" and d: "distinct (''host'' # map fst es)" and root: "root = fb_norm (advert_fb (TcpAdvert secure ip es))"
  shows "fb_as_string F (fb_lookup F root ''host'') = ip"
    and "e \<in> set es \<Longrightarrow> fb_lookup F root (fst e) = server_vector secure (snd e)"
    and "filter (\<lambda>k. k \<noteq> ''host'') (filter P (fb_keys F root)) = map fst (filter (\<lambda>e. P (fst e)) (sort_key fst es))"
    and "filter P (fb_keys F root) = [] \<longleftrightarrow> filter P (''host'' # map fst es) = []"
proof -
  define kvs where "kvs = (''host'', FbString ip) # map (\<lambda>e. (fst e, server_vector secure (snd e))) es"
  have norm: "fb_norm (server_vector secure x) = server_vector secure x" for x by (cases x) simp
  have r: "root = fb_norm (FbMap kvs)" by (simp add: root kvs_def)
  have look: "fb_lookup F root k = (case map_of kvs k of None \<Rightarrow> FbNull | Some v \<Rightarrow> fb_norm v)" for k
    unfolding r using d by (intro fb_lookup_norm [OF F]) (simp add: kvs_def comp_def)
  show "fb_as_string F (fb_lookup F root ''host'') = ip" by (simp add: look kvs_def flexbuf_okD [OF F])
  show "fb_lookup F root (fst e) = server_vector secure (snd e)" if "e \<in> set es"
  proof -
    have "map_of kvs (fst e) = Some (server_vector secure (snd e))"
      using that d by (intro map_of_is_SomeI) (auto simp: kvs_def comp_def)
    then show ?thesis by (simp add: look norm)
  qed
  have keys: "fb_keys F root = map fst (sort_key fst kvs)"
    by (simp add: r fb_keys_def flexbuf_okD [OF F] kvs_def norm comp_def)
  have "filter (\<lambda>x. fst x \<noteq> ''host'') es = es" using d by (intro filter_True) force
  then have "filter (\<lambda>kv. fst kv \<noteq> ''host'') kvs = map (\<lambda>e. (fst e, server_vector secure (snd e))) es"
    by (simp add: kvs_def filter_map comp_def)
  then have "filter (\<lambda>kv. P (fst kv)) (filter (\<lambda>kv. fst kv \<noteq> ''host'') kvs) = map (\<lambda>e. (fst e, server_vector secure (snd e))) (filter (\<lambda>e. P (fst e)) es)"
    by (simp add: filter_map comp_def del: filter_filter)
  then show "filter (\<lambda>k. k \<noteq> ''host'') (filter P (fb_keys F root)) = map fst (filter (\<lambda>e. P (fst e)) (sort_key fst es))"
    by (simp add: keys filter_map comp_def filter_sort sort_key_map conj_commute)
  have "set (fb_keys F root) = set (''host'' # map fst es)" by (simp add: keys kvs_def image_image set_insort_key)
  then show "filter P (fb_keys F root) = [] \<longleftrightarrow> filter P (''host'' # map fst es) = []" by (simp only: filter_empty_conv)
qed

lemma tcp_prints:
  assumes F: "flexbuf_ok (ve_fb V)" and tab: "pr_tab s = 0" and ok: "advert_ok V (TcpAdvert secure ip es)"
  shows "prints (TCPPrettyParsing V name (fb_norm (advert_fb (TcpAdvert secure ip es))) (tcp_NAME secure)) s
     (advert_text V (pr_topic s) name (TcpAdvert secure ip es))
     (advert_log (pr_topic s) (TcpAdvert secure ip es))"
proof -
  define root where "root = fb_norm (advert_fb (TcpAdvert secure ip es))"
  define f where "f = pr_topic s"
  have d: "distinct (''host'' # map fst es)" using ok by simp
  note r = tcp_root [OF F d root_def]
  have none: "f \<noteq> [] \<and> matched_topics f (fb_keys (ve_fb V) root) = [] \<longleftrightarrow> f \<noteq> [] \<and> matched_topics f (''host'' # map fst es) = []"
    by (simp only: matched_topics_filter r(4))
  have loop: "forA (matched_topics f (fb_keys (ve_fb V) root)) (TCPTopicPrint V root (tcp_NAME secure)) =
      forA (shown_servers f es) (\<lambda>e. TCPTopicPrint V root (tcp_NAME secure) (fst e))"
    using r(3) [of "topic_matches f"]
    by (subst forA_skip [where P = "\<lambda>k. k \<noteq> ''host''"])
       (simp_all add: TCPTopicPrint_def matched_topics_filter shown_servers_def forA_map del: filter_filter)
  define s1 where "s1 = s\<lparr>pr_tab := 1, pr_out := pr_out s @ name @ endl @ line 0 (''protocol : '' @ tcp_NAME secure) @ line 0 ''['' @
      line 1 (''host : '' @ ip) @ line 1 ''topic list : {''\<rparr>"
  have "prints (TCPTopicPrint V root (tcp_NAME secure) (fst e)) (s1\<lparr>pr_out := o', pr_log := l'\<rparr>) (server_text e)
      (if secure then [HexDump (fst (snd (snd (snd e)))), HexDump (snd (snd (snd (snd e))))] else [])"
    if "e \<in> set (shown_servers f es)" for e o' l'
    using that ok r(2) [of e] by (intro tcp_topic_prints [OF F]) (force simp: s1_def shown_servers_def list_all_iff)+
  then have "prints (forA (shown_servers f es) (\<lambda>e. TCPTopicPrint V root (tcp_NAME secure) (fst e))) s1
      (concat (map server_text (shown_servers f es))) (advert_log f (TcpAdvert secure ip es))"
    using forA_prints [of "shown_servers f es" "\<lambda>e. TCPTopicPrint V root (tcp_NAME secure) (fst e)" s1 server_text
        "\<lambda>e. if secure then [HexDump (fst (snd (snd (snd e)))), HexDump (snd (snd (snd (snd e))))] else []"]
    by (cases secure) (simp_all add: split_def)
  moreover have "shown_servers f es = []" if "matched_topics f (''host'' # map fst es) = []"
    using that by (force simp: shown_servers_def matched_topics_filter filter_empty_conv split: if_splits)
  ultimately show ?thesis unfolding root_def [symmetric] f_def [symmetric]
    using none loop r(1) tab
    by (cases "f \<noteq> [] \<and> matched_topics f (''host'' # map fst es) = []")
       (auto simp: prints_def TCPPrettyParsing_def act_simps s1_def f_def Let_def)
qed

lemma advert_key_not_status: "advert_ok V a \<Longrightarrow> advert_key a \<noteq> ''status''"
  by (cases a) (auto simp: tcp_NAME_def)

lemma key_prints:
  assumes V: "view_ok V" and tab: "pr_tab s = 0" and ok: "advert_ok V a"
    and root: "fb_lookup (ve_fb V) root (advert_key a) = FbBlob (fb_finish (ve_fb V) (advert_fb a))"
  shows "prints (PrettyKey V name root (advert_key a)) s (advert_text V (pr_topic s) name a) (advert_log (pr_topic s) a)"
proof -
  have F: "flexbuf_ok (ve_fb V)" using V by (simp add: view_ok_def)
  have r: "fb_root (ve_fb V) (fb_as_blob (ve_fb V) (fb_lookup (ve_fb V) root (advert_key a))) = fb_norm (advert_fb a)"
    using flexbuf_okD(1) [OF F advert_wf [OF ok]] by (simp add: root flexbuf_okD [OF F])
  show ?thesis
  proof (cases a)
    case (MqttAdvert ts)
    with r mqtt_prints [OF F tab, of name ts] show ?thesis by (simp add: PrettyKey_def comp_def)
  next
    case (TcpAdvert secure ip es)
    with r tcp_prints [OF F tab, of secure ip es name] ok advert_key_not_status [OF ok] show ?thesis
      by (auto simp: PrettyKey_def tcp_NAME_def simp del: advert_fb.simps advert_text.simps advert_log.simps split: if_splits)
  next
    case (OtherAdvert key v)
    have wf: "fb_wf (fb_norm v)" using ok OtherAdvert by (simp add: fb_norm_wf)
    with OtherAdvert ok r PrettyParsing_prints [OF V wf, of "ve_stack V" False "s\<lparr>pr_out := pr_out s @ name @ endl\<rparr>"] tab show ?thesis
      by (simp add: PrettyKey_def prints_def act_simps)
  qed
qed

lemma viewer_shows_adverts:
  assumes V: "view_ok V" and ok: "list_all (advert_ok V) as"
    and m: "m = map (\<lambda>a. (advert_key a, fb_finish (ve_fb V) (advert_fb a))) as" "omap_ok m"
    and i: "CHR ''/'' \<notin> set ident" "length ident \<le> npos" and s: "vh_client_id s = [] \<or> vh_client_id s = ident"
  shows "viewer_message V (DISCOVERY_TOPIC_BASE @ ident) (fb_finish (ve_fb V) (discovery_fb m)) s =
     (Inr (), s\<lparr>vh_out := vh_out s @ concat (map (advert_text V (vh_topic s) ident) as),
                vh_log := vh_log s @ concat (map (advert_log (vh_topic s)) as)\<rparr>)"
proof -
  define F where "F = ve_fb V"
  have F: "flexbuf_ok F" using V by (simp add: view_ok_def F_def)
  have ns: "''status'' \<notin> fst ` set m" using ok advert_key_not_status by (force simp: m(1) list_all_iff)
  note wf = discovery_fb_wf [OF m(2) ns]
  define root where "root = fb_norm (discovery_fb m)"
  define p where "p = FlexbufPrinter_new\<lparr>pr_topic := vh_topic s\<rparr>"
  have keys: "filter (\<lambda>k. k \<noteq> ''status'') (fb_keys F root) = map advert_key as"
    using keys_discovery_fb [OF F m(2) ns] by (simp add: root_def m(1) comp_def)
  have look: "fb_lookup F root (advert_key a) = FbBlob (fb_finish F (advert_fb a))" if "a \<in> set as" for a
    using lookup_discovery_fb(2) [OF F m(2) ns, of "(advert_key a, fb_finish F (advert_fb a))"] that by (simp add: root_def m(1) F_def)
  have "prints (PrettyKey V ident root (advert_key a)) (p\<lparr>pr_out := o', pr_log := l'\<rparr>) (advert_text V (vh_topic s) ident a) (advert_log (vh_topic s) a)"
    if "a \<in> set as" for a o' l'
    using key_prints [OF V, of "p\<lparr>pr_out := o', pr_log := l'\<rparr>" a root ident] look [OF that] ok that
    by (simp add: p_def FlexbufPrinter_new_def F_def list_all_iff)
  then have "prints (forA as (\<lambda>a. PrettyKey V ident root (advert_key a))) p (concat (map (advert_text V (vh_topic s) ident) as))
      (concat (map (advert_log (vh_topic s)) as))"
    using forA_prints [of as "\<lambda>a. PrettyKey V ident root (advert_key a)" p] by blast
  moreover have "forA (fb_keys F root) (PrettyKey V ident root) = forA as (\<lambda>a. PrettyKey V ident root (advert_key a))"
    by (subst forA_skip [where P = "\<lambda>k. k \<noteq> ''status''"]) (simp_all add: PrettyKey_def keys forA_map)
  moreover have "fb_root F (fb_finish F (discovery_fb m)) = root" using flexbuf_okD(1) [OF F wf] by (simp add: root_def)
  ultimately have "PrettyPrint V ident (fb_finish F (discovery_fb m)) p =
      (Inr (), p\<lparr>pr_out := concat (map (advert_text V (vh_topic s) ident) as), pr_log := concat (map (advert_log (vh_topic s)) as)\<rparr>)"
    by (simp add: PrettyPrint_def F_def prints_def p_def FlexbufPrinter_new_def)
  moreover have "(if vh_topic s \<noteq> [] then snd (pr_SetTopic (vh_topic s) FlexbufPrinter_new) else FlexbufPrinter_new) = p"
    by (auto simp: p_def pr_SetTopic_def FlexbufPrinter_new_def act_simps)
  moreover have "fb_finish F (discovery_fb m) \<noteq> []" using flexbuf_okD(2) [OF F wf] .
  ultimately show ?thesis using s
    by (auto simp: viewer_message_def topic_client_id_base [OF i] F_def Let_def)
qed

text \<open>The servers of a TCP transport as they are advertised.\<close>

definition server_rows :: "(int \<Rightarrow> port) \<Rightarrow> TCPModule \<Rightarrow> (string \<times> nat \<times> nat \<times> byte list \<times> byte list) list" where
  "server_rows ports a = map (\<lambda>(_, tsd, srv). (tsd_topic tsd, unat (ports (srv_handle srv)), length (tsd_cb_list tsd), srv_key srv, srv_iv srv))
     (subscribeTable a)"

lemma server_rows_vector:
  "map (\<lambda>e. (fst e, server_vector secure (snd e))) (server_rows ports a) =
   map (\<lambda>e. (tsd_topic (fst (snd e)), connect_vector secure (ports (srv_handle (snd (snd e)))) (fst (snd e)) (snd (snd e)))) (subscribeTable a)"
  by (auto simp: server_rows_def connect_vector_def)

lemma UpdateDiscoveryMsg_publishes:
  assumes "UpdateDiscoveryMsg E F key b d = (Inr (), d')"
  shows "discovery_map d' = omap_put key b (discovery_map d) \<and> disc_id d' = disc_id d \<and>
     (\<exists>q cs. disc_mq d' = Some q \<and> mq_calls q = cs @
        [M_publish (DISCOVERY_TOPIC_BASE @ disc_id d) (fb_finish F (discovery_fb (discovery_map d'))) AITT_QOS_EXACTLY_ONCE True])"
  using assms
  by (auto simp: UpdateDiscoveryMsg_def PublishDiscoveryMsg_def mq_Publish_def act_simps split: option.splits if_splits)

lemma advertised_map:
  assumes F: "te_fb E = F" and ports: "\<And>t h. os_sockname (te_os E) t h = ports h"
    and d: "omap_ok (discovery_map d)" "fst ` set (discovery_map d) \<subseteq> {''MQTT'', tcp_NAME (tm_secure a)}"
    and mq: "mdh_UpdateDiscoveryMsg Q F (h, d) = (Inr (), (h1, d1))"
    and tcp: "tcp_UpdateDiscoveryMsg E (a, d1) = (Inr (), (a1, d2))"
    and ads: "as = [MqttAdvert (map snd (my_subscribe_table h)), TcpAdvert (tm_secure a) (tm_ip a) (server_rows ports a)]"
  shows "discovery_map d2 = map (\<lambda>x. (advert_key x, fb_finish F (advert_fb x))) as \<and>
     (\<exists>q cs. disc_mq d2 = Some q \<and> mq_calls q = cs @
        [M_publish (DISCOVERY_TOPIC_BASE @ disc_id d) (fb_finish F (discovery_fb (discovery_map d2))) AITT_QOS_EXACTLY_ONCE True])"
proof -
  define T where "T = fb_finish F (FbMap ((''host'', FbString (tm_ip a)) # map (\<lambda>e. (fst e, server_vector (tm_secure a) (snd e))) (server_rows ports a)))"
  define M where "M = fb_finish F (topics_fb (my_subscribe_table h))"
  have "UpdateDiscoveryMsg Q F ''MQTT'' M d = (Inr (), d1)"
    using mq by (auto simp: mdh_UpdateDiscoveryMsg_def act_simps M_def split: prod.splits)
  then have d1: "discovery_map d1 = omap_put ''MQTT'' M (discovery_map d)" "disc_id d1 = disc_id d"
    using UpdateDiscoveryMsg_publishes by blast+
  obtain infos t where si: "server_infos (te_os E) (tm_secure a) (subscribeTable a) (tm_trace a) = (Inr infos, t)"
    and up: "UpdateDiscoveryMsg (te_mq E) F (tcp_NAME (tm_secure a)) (fb_finish F (FbMap ((''host'', FbString (tm_ip a)) # infos))) d1 = (Inr (), d2)"
    using tcp F by (auto simp: tcp_UpdateDiscoveryMsg_def act_simps split: prod.splits sum.splits)
  have infos: "infos = map (\<lambda>e. (fst e, server_vector (tm_secure a) (snd e))) (server_rows ports a)"
    unfolding server_rows_vector by (rule server_infos_run [OF ports si])
  have d2: "discovery_map d2 = omap_put (tcp_NAME (tm_secure a)) T (omap_put ''MQTT'' M (discovery_map d))"
    "\<exists>q cs. disc_mq d2 = Some q \<and> mq_calls q = cs @
        [M_publish (DISCOVERY_TOPIC_BASE @ disc_id d) (fb_finish F (discovery_fb (discovery_map d2))) AITT_QOS_EXACTLY_ONCE True]"
    using UpdateDiscoveryMsg_publishes [OF up, unfolded infos d1, folded T_def] by blast+
  have "discovery_map d2 = [(''MQTT'', M), (tcp_NAME (tm_secure a), T)]"
  proof (subst omap_eq_iff)
    show "omap_ok (discovery_map d2)" using d(1) d2(1) by simp
    show "omap_ok [(''MQTT'', M), (tcp_NAME (tm_secure a), T)]" by (simp add: omap_ok_def tcp_NAME_def)
    have "map_of (discovery_map d) k = None" if "k \<noteq> ''MQTT''" "k \<noteq> tcp_NAME (tm_secure a)" for k
      using that d(2) by (auto simp: map_of_eq_None_iff)
    then show "map_of (discovery_map d2) = map_of [(''MQTT'', M), (tcp_NAME (tm_secure a), T)]"
      by (auto simp: d2(1) fun_eq_iff tcp_NAME_def)
  qed
  then show ?thesis using d2(2) by (auto simp: ads M_def T_def topics_fb_def comp_def)
qed

text \<open>C38. The viewer shows what a device subscribes to.  After the device has advertised its MQTT subscriptions
  and the servers of a TCP transport, the message it published last makes a viewer that watches this device print, under its name, the list of
  the MQTT topics and the list of the TCP servers with address, port and number of callbacks, in the order of their topics; with a topic
  filter only the topics that start with it, and nothing for a protocol without one (the reserved key
  \<open>host\<close> counts as a topic here).  The printer neither fails nor runs out of stack.\<close>

theorem viewer_shows_subscriptions:
  assumes V: "view_ok V" "te_fb E = ve_fb V"
    and tcp: "tcp_ok a" "\<And>t h. os_sockname (te_os E) t h = ports h"
      "\<forall>(p, tsd, srv) \<in> set (subscribeTable a). tsd_topic tsd \<noteq> ''host'' \<and> length (tsd_cb_list tsd) < 65536"
    and d: "omap_ok (discovery_map d)" "fst ` set (discovery_map d) \<subseteq> {''MQTT'', tcp_NAME (tm_secure a)}"
      "CHR ''/'' \<notin> set (disc_id d)" "length (disc_id d) \<le> npos"
    and run: "mdh_UpdateDiscoveryMsg Q (ve_fb V) (h, d) = (Inr (), (h1, d1))" "tcp_UpdateDiscoveryMsg E (a, d1) = (Inr (), (a1, d2))"
    and sent: "disc_mq d2 = Some q" "mq_calls q = cs @ [M_publish topic payload qos retain]"
    and s: "vh_client_id s = [] \<or> vh_client_id s = disc_id d"
    and ads: "as = [MqttAdvert (map snd (my_subscribe_table h)), TcpAdvert (tm_secure a) (tm_ip a) (server_rows ports a)]"
  shows "viewer_message V topic payload s =
     (Inr (), s\<lparr>vh_out := vh_out s @ concat (map (advert_text V (vh_topic s) (disc_id d)) as),
                vh_log := vh_log s @ concat (map (advert_log (vh_topic s)) as)\<rparr>)"
proof -
  note m = advertised_map [OF V(2) tcp(2) d(1,2) run ads]
  then have p: "topic = DISCOVERY_TOPIC_BASE @ disc_id d" "payload = fb_finish (ve_fb V) (discovery_fb (discovery_map d2))"
    using sent by auto
  have "distinct (map (\<lambda>e. tsd_topic (fst (snd e))) (subscribeTable a))"
    using tcp(1) tables_topics_distinct [of "tm_next_ptr a"] by (simp add: tcp_ok_def)
  moreover have "unat (ports x) < 65536" for x using unsigned_less [of "ports x", where 'a = nat] by simp
  ultimately have "list_all (advert_ok V) as"
    using tcp(3) by (auto simp: ads server_rows_def list_all_iff comp_def split_def)
  moreover have "omap_ok (discovery_map d2)" using m by (simp add: ads omap_ok_def tcp_NAME_def)
  ultimately show ?thesis unfolding p
    using viewer_shows_adverts [OF V(1), of as "discovery_map d2" "disc_id d" s] m d(3,4) s by blast
qed

definition sample_view :: view_env where
  "sample_view = \<lparr>ve_fb = sample_flexbuf,
     ve_GetType = (\<lambda>v. case v of FbNull \<Rightarrow> FBT_NULL | FbInt _ \<Rightarrow> FBT_INT | FbUInt _ \<Rightarrow> FBT_UINT | FbBool _ \<Rightarrow> FBT_BOOL
        | FbString _ \<Rightarrow> FBT_STRING | FbBlob _ \<Rightarrow> FBT_BLOB | FbVector _ \<Rightarrow> FBT_VECTOR | FbMap _ \<Rightarrow> FBT_MAP),
     ve_ToString = (\<lambda>v. case v of FbString t \<Rightarrow> t | _ \<Rightarrow> ''?''), ve_stack = 100, ve_rand = 42, ve_rc = (\<lambda>_ c. case c of V_new _ \<Rightarrow> 1 | _ \<Rightarrow> 0)\<rparr>"

definition sample_viewer :: MQTTHandler where
  "sample_viewer = \<lparr>vh_handle = True, vh_client_id = ''me'', vh_topic = [], vh_calls = [], vh_out = [], vh_log = []\<rparr>"

lemma sample_view_ok: "view_ok sample_view"
  using sample_flexbuf_ok by (simp add: view_ok_def sample_view_def)

theorem viewer_shows_subscriptions_witness:
  "\<exists>topic payload. viewer_message sample_view topic payload sample_viewer =
     (Inr (), sample_viewer\<lparr>vh_out :=
        ''me'' @ endl @ ''protocol : MQTT'' @ endl @ ''['' @ endl @ indent False 1 @ ''topic list : {'' @ endl @
        indent False 2 @ ''topic : m'' @ endl @ indent False 1 @ ''}'' @ endl @ '']'' @ endl @ endl @
        ''me'' @ endl @ ''protocol : TCP'' @ endl @ ''['' @ endl @ indent False 1 @ ''host : '' @ tm_ip sample_subscriber @ endl @
        indent False 1 @ ''topic list : {'' @ endl @ indent False 2 @ ''topic : t'' @ endl @
        indent False 2 @ ''[ port : '' @ to_string 4000 @ '', num_of_cb : '' @ to_string 1 @ '' ]'' @ endl @
        indent False 1 @ ''}'' @ endl @ '']'' @ endl @ endl\<rparr>)"
proof -
  define h where "h = \<lparr>mdh_id = ''me'', mdh_discovery_cb = 1, my_subscribe_table = [(1, ''m'')], remote_subscribe_table = []\<rparr>"
  define V where "V = sample_view"
  define E where "E = sample_tcp_env"
  define a where "a = sample_subscriber"
  define Q where "Q = plain_env (\<lambda>_ _ _. [])"
  have V: "view_ok V" "te_fb E = ve_fb V" using sample_view_ok by (simp_all add: V_def E_def sample_tcp_env_def sample_view_def)
  note run = E_def a_def Q_def V_def sample_view_def mdh_UpdateDiscoveryMsg_def tcp_UpdateDiscoveryMsg_def sample_subscriber_def sample_tcp_env_def
    sample_discovery_def act_simps Server_GetPort_def plain_os_def UpdateDiscoveryMsg_def PublishDiscoveryMsg_def mq_Publish_def
    plain_env_def AittDiscovery_new_def sample_module_def
  obtain d1 where mq: "mdh_UpdateDiscoveryMsg Q (ve_fb V) (h, sample_discovery) = (Inr (), (h, d1))"
    and "fst (tcp_UpdateDiscoveryMsg E (a, d1)) = Inr ()"
    by (simp add: run)
  then obtain a1 d2 where tcp: "tcp_UpdateDiscoveryMsg E (a, d1) = (Inr (), (a1, d2))" by (metis prod.collapse)
  define as where "as = [MqttAdvert (map snd (my_subscribe_table h)), TcpAdvert (tm_secure a) (tm_ip a) (server_rows (\<lambda>_. 4000) a)]"
  have ok: "tcp_ok a" "\<And>t h. os_sockname (te_os E) t h = 4000"
    "\<forall>(p, tsd, srv) \<in> set (subscribeTable a). tsd_topic tsd \<noteq> ''host'' \<and> length (tsd_cb_list tsd) < 65536"
    "omap_ok (discovery_map sample_discovery)" "fst ` set (discovery_map sample_discovery) \<subseteq> {''MQTT'', tcp_NAME (tm_secure a)}"
    "CHR ''/'' \<notin> set (disc_id sample_discovery)" "length (disc_id sample_discovery) \<le> npos"
    "vh_client_id sample_viewer = [] \<or> vh_client_id sample_viewer = disc_id sample_discovery"
    by (simp_all add: a_def tcp_ok_def tables_ok_def server_ok_def sample_subscriber_def omap_ok_def sample_server_def E_def sample_tcp_env_def plain_os_def
        sample_discovery_def AittDiscovery_new_def sample_viewer_def)
  obtain q cs where sent: "disc_mq d2 = Some q" "mq_calls q = cs @ [M_publish (DISCOVERY_TOPIC_BASE @ disc_id sample_discovery)
      (fb_finish (ve_fb V) (discovery_fb (discovery_map d2))) AITT_QOS_EXACTLY_ONCE True]"
    using advertised_map [OF V(2) ok(2,4,5) mq tcp as_def] by blast
  note viewer_shows_subscriptions [OF V ok(1-7) mq tcp sent ok(8) as_def]
  then show ?thesis
    by (intro exI [of _ "DISCOVERY_TOPIC_BASE @ disc_id sample_discovery"] exI [of _ "fb_finish (ve_fb V) (discovery_fb (discovery_map d2))"])
       (simp add: V_def as_def h_def sample_viewer_def matched_topics_def shown_servers_def server_rows_def a_def sample_subscriber_def sample_discovery_def
          AittDiscovery_new_def indent_def [of _ 0] sample_module_def tcp_NAME_def)
qed

text \<open>The key \<open>host\<close> of an advertisement is compared with the filter like a topic: a device without
  any matching topic is shown.\<close>

lemma filter_finds_host:
  assumes "flexbuf_ok (ve_fb V)" and "pr_tab s = 0" and "pr_topic s = ''ho''"
  shows "TCPPrettyParsing V name (fb_norm (advert_fb (TcpAdvert secure ip []))) (tcp_NAME secure) s =
     (Inr (), s\<lparr>pr_out := pr_out s @ name @ endl @ ''protocol : '' @ tcp_NAME secure @ endl @ ''['' @ endl @ line 1 (''host : '' @ ip) @
        line 1 ''topic list : {'' @ line 1 ''}'' @ '']'' @ endl @ endl\<rparr>)"
  using tcp_prints [OF assms(1,2), of secure ip "[]" name] assms(3)
  by (simp add: prints_def matched_topics_def topic_matches_def shown_servers_def indent_def [of _ 0] del: advert_fb.simps)

text \<open>A start without errors connects, subscribes to the discovery messages of all devices and sets the filters.\<close>

lemma viewer_main_subscribes:
  assumes "\<And>cs c. ve_rc V cs c = (case c of V_new _ \<Rightarrow> 1 | _ \<Rightarrow> 0)" and "\<not> pd_clean (parse_args opts)"
  shows "viewer_main V opts s = (Inr None, s\<lparr>vh_handle := True,
     vh_client_id := (if pd_id (parse_args opts) = [] then vh_client_id s else pd_id (parse_args opts)),
     vh_topic := (if pd_topic (parse_args opts) = [] then vh_topic s else pd_topic (parse_args opts)),
     vh_calls := vh_calls s @ [V_lib_init, V_new (to_string (int (ve_rand V mod 100))), V_int_option 1 5, V_message_callback_set, V_loop_start,
       V_connect (pd_broker_ip (parse_args opts)) 1883 60, V_subscribe (DISCOVERY_TOPIC_BASE @ ''+'') 0]\<rparr>)"
  using assms
  by (simp add: viewer_main_def Let_def MQTTHandler_ctor_def vcheck_def vcall_def vh_Connect_def vh_SetClientID_def vh_SetTopic_def act_simps)

end
