(* ===== verification/AittJni_Model.thy ===== *)
theory AittJni_Model
  imports AittC_Model
begin

text \<open>
  The native side of the Android binding, \<open>android/aitt-native/src/main/jni/aitt_jni.cc\<close>, with
  \<open>src/AittDiscoveryHelper.cc\<close>: the methods that Java calls on an object of the class
  \<open>AittNativeInterface\<close>, and the callbacks that call methods of a Java object.

  The Java virtual machine is a parameter: every call of its interface is recorded, and its results
  depend on the calls made before it.  \<open>jw_pinned\<close> counts the strings and arrays whose contents the
  native side has obtained and not released.  A Java reference is its contents, \<open>None\<close> for null.  \<open>JNI_LOG\<close> only
  writes.  The callbacks given to the class are numbers, as everywhere: \<open>JNI_MESSAGE_CB\<close> and \<open>JNI_CONNECTION_CB\<close> with
  the native object as user data, and a numbered binding of the object and a topic for discovery.
\<close>

section \<open>The virtual machine\<close>

datatype jargs =
    MessageArgs string "byte list"
  | ConnectionArgs int
  | DiscoveryArgs string string string "byte list"

datatype jcall =
    J_GetStringUTFChars string
  | J_ReleaseStringUTFChars string
  | J_GetByteArrayElements "byte list"
  | J_ReleaseByteArrayElements "byte list"
  | J_GetEnv
  | J_AttachCurrentThread
  | J_DetachCurrentThread
  | J_NewStringUTF string
  | J_NewByteArray nat
  | J_SetByteArrayRegion "byte list"
  | J_ExceptionCheck
  | J_CallVoidMethod ptr string jargs
  | J_GetJavaVM
  | J_NewGlobalRef ptr
  | J_DeleteGlobalRef ptr
  | J_FindClass string
  | J_GetMethodID string string
  | J_DeleteLocalRef
  | J_RegisterNatives "(string \<times> string) list"

abbreviation (input) JNI_OK :: int where "JNI_OK \<equiv> 0"
abbreviation (input) JNI_ERR :: int where "JNI_ERR \<equiv> - 1"
abbreviation (input) JNI_EDETACHED :: int where "JNI_EDETACHED \<equiv> - 2"
abbreviation (input) JNI_EVERSION :: int where "JNI_EVERSION \<equiv> - 3"
abbreviation (input) JNI_VERSION_1_6 :: int where "JNI_VERSION_1_6 \<equiv> 65542"

record jni_env =
  je_impl :: impl_env
  je_gen :: "nat \<Rightarrow> nat"
  je_utf_ok :: "jcall list \<Rightarrow> bool"
  je_bytes_ok :: "jcall list \<Rightarrow> bool"
  je_status :: "jcall list \<Rightarrow> int"
  je_attach :: "jcall list \<Rightarrow> int"
  je_exception :: "jcall list \<Rightarrow> bool"
  je_vm :: "jcall list \<Rightarrow> int"
  je_class :: "jcall list \<Rightarrow> bool"
  je_register :: "jcall list \<Rightarrow> int"

section \<open>State\<close>

record AittNativeInterface =
  ni_aitt :: AITT
  ni_discovery :: bool
  ni_cbObject :: ptr

text \<open>\<open>cbContext\<close>: the virtual machine and whether the three method identifiers have been found.\<close>

record CallbackContext =
  cx_jvm :: bool
  cx_methods :: "string list"

record jni_world =
  jw_objects :: "(ptr, AittNativeInterface) omap"
  jw_next :: ptr
  jw_binds :: "(nat, ptr \<times> string) omap"
  jw_next_bind :: nat
  jw_context :: CallbackContext
  jw_calls :: "jcall list"
  jw_pinned :: nat

abbreviation (input) JNI_MESSAGE_CB :: nat where "JNI_MESSAGE_CB \<equiv> 1"
abbreviation (input) JNI_CONNECTION_CB :: nat where "JNI_CONNECTION_CB \<equiv> 2"

definition jvm_call :: "(jcall list \<Rightarrow> 'a) \<Rightarrow> jcall \<Rightarrow> (jni_world, 'a) act" where
  "jvm_call f c = (\<lambda>s. (Inr (f (jw_calls s)), s\<lparr>jw_calls := jw_calls s @ [c]\<rparr>))"

definition jdo :: "jcall \<Rightarrow> (jni_world, unit) act" where
  "jdo c = jvm_call (\<lambda>_. ()) c"

definition pin :: "(jni_world, unit) act" where
  "pin = upd (\<lambda>s. s\<lparr>jw_pinned := jw_pinned s + 1\<rparr>)"

definition unpin :: "jcall \<Rightarrow> (jni_world, unit) act" where
  "unpin c = sq (jdo c) (upd (\<lambda>s. s\<lparr>jw_pinned := jw_pinned s - 1\<rparr>))"

text \<open>A method called on the object behind a handle.\<close>

definition deref_native :: "ptr \<Rightarrow> (jni_world, AittNativeInterface) act" where
  "deref_native h =
     (\<lambda>s. case map_of (jw_objects s) h of
        None \<Rightarrow> (Inl (UndefinedBehaviour ''no native object at this address''), s)
      | Some x \<Rightarrow> (Inr x, s))"

definition on_native :: "ptr \<Rightarrow> (AITT, 'a) act \<Rightarrow> (jni_world, 'a) act" where
  "on_native h a =
     bnd (deref_native h) (\<lambda>x s.
       case a (ni_aitt x) of (r, y) \<Rightarrow> (r, s\<lparr>jw_objects := omap_put h (x\<lparr>ni_aitt := y\<rparr>) (jw_objects s)\<rparr>))"

text \<open>\<open>discovery\<close> points into the implementation that the object owns.\<close>

definition on_native_discovery :: "ptr \<Rightarrow> (AittDiscovery, 'a) act \<Rightarrow> (jni_world, 'a) act" where
  "on_native_discovery h a =
     bnd (deref_native h) (\<lambda>x.
     if ni_discovery x then on_native h (forward (im_on_disc a))
     else raise (UndefinedBehaviour ''null discovery''))"

section \<open>Helpers\<close>

definition CheckParams :: "bool \<Rightarrow> ptr \<Rightarrow> bool" where
  "CheckParams env jni_interface_object \<longleftrightarrow> env \<and> jni_interface_object \<noteq> nullptr"

definition GetStringUTF :: "jni_env \<Rightarrow> bool \<Rightarrow> string option \<Rightarrow> (jni_world, string) act" where
  "GetStringUTF J env str =
     (if \<not> env then ret []
      else (case str of
              None \<Rightarrow> raise (UndefinedBehaviour ''null jstring'')
            | Some t \<Rightarrow>
                bnd (jvm_call (je_utf_ok J) (J_GetStringUTFChars t)) (\<lambda>ok.
                if \<not> ok then ret [] else sq pin (sq (unpin (J_ReleaseStringUTFChars t)) (ret t)))))"

text \<open>\<open>GetByteArrayElements\<close>: the elements, or nothing for a null result.\<close>

definition get_bytes :: "jni_env \<Rightarrow> byte list option \<Rightarrow> (jni_world, byte list option) act" where
  "get_bytes J data =
     (case data of
        None \<Rightarrow> raise (UndefinedBehaviour ''null jbyteArray'')
      | Some b \<Rightarrow> bnd (jvm_call (je_bytes_ok J) (J_GetByteArrayElements b)) (\<lambda>ok.
          if ok then sq pin (ret (Some b)) else ret None))"

text \<open>\<open>try { ... } catch (std::exception &e) { JNI_LOG(...); }\<close>\<close>

definition logged :: "(jni_world, unit) act \<Rightarrow> (jni_world, unit) act" where
  "logged a = tryA a (\<lambda>_. ret ())"

text \<open>The first \<open>n\<close> elements of an array are read: there have to be as many.\<close>

definition within :: "byte list \<Rightarrow> int \<Rightarrow> (jni_world, 'a) act \<Rightarrow> (jni_world, 'a) act" where
  "within b n a = (if 0 \<le> n \<and> n \<le> int (length b) then a else raise (UndefinedBehaviour ''length of a jbyteArray''))"

text \<open>\<open>JniStatusCheck\<close> after \<open>GetEnv\<close>: whether to go on, and whether there is an environment then.\<close>

definition JniStatusCheck :: "jni_env \<Rightarrow> int \<Rightarrow> (jni_world, bool \<times> bool) act" where
  "JniStatusCheck J status =
     (if status = JNI_EDETACHED
      then bnd (jvm_call (je_attach J) J_AttachCurrentThread) (\<lambda>r. ret (r = 0, r = 0))
      else ret (status \<noteq> JNI_EVERSION, status = JNI_OK))"

section \<open>Methods called from Java\<close>

definition jni_Connect :: "jni_env \<Rightarrow> bool \<Rightarrow> ptr \<Rightarrow> ptr \<Rightarrow> string option \<Rightarrow> int \<Rightarrow> (jni_world, unit) act" where
  "jni_Connect J env jobj handle host port =
     (if \<not> CheckParams env jobj then ret ()
      else bnd (GetStringUTF J env host) (\<lambda>brokerIp.
           if brokerIp = [] then ret ()
           else logged (on_native handle (AITT_Connect (je_impl J) brokerIp port [] []))))"

definition jni_Publish ::
  "jni_env \<Rightarrow> bool \<Rightarrow> ptr \<Rightarrow> ptr \<Rightarrow> string option \<Rightarrow> byte list option \<Rightarrow> int \<Rightarrow> int \<Rightarrow> int \<Rightarrow> bool \<Rightarrow> (jni_world, unit) act" where
  "jni_Publish J env jobj handle topic data data_len protocol qos retain =
     (if \<not> CheckParams env jobj then ret ()
      else bnd (GetStringUTF J env topic) (\<lambda>customTopic.
           if customTopic = [] then ret ()
           else bnd (get_bytes J data) (\<lambda>cdata.
                case cdata of
                  None \<Rightarrow> ret ()
                | Some b \<Rightarrow>
                    sq (logged ((if bad_size (wrap32 data_len) then id else within b (wrap32 data_len)) (on_native handle
                          (AITT_Publish (je_impl J) customTopic b (wrap32 data_len) (word_of_int protocol) qos retain))))
                       (unpin (J_ReleaseByteArrayElements b)))))"

definition jni_SetWillInfo ::
  "jni_env \<Rightarrow> bool \<Rightarrow> ptr \<Rightarrow> ptr \<Rightarrow> string option \<Rightarrow> byte list option \<Rightarrow> int \<Rightarrow> int \<Rightarrow> bool \<Rightarrow> (jni_world, unit) act" where
  "jni_SetWillInfo J env jobj handle topic data data_len qos retain =
     (if \<not> CheckParams env jobj then ret ()
      else bnd (GetStringUTF J env topic) (\<lambda>mqttTopic.
           if mqttTopic = [] then ret ()
           else bnd (get_bytes J data) (\<lambda>cdata.
                case cdata of
                  None \<Rightarrow> ret ()
                | Some b \<Rightarrow>
                    sq (logged (within b (wrap32 data_len) (on_native handle
                          (AITT_SetWillInfo (je_impl J) mqttTopic (take (nat (wrap32 data_len)) b) qos retain))))
                       (unpin (J_ReleaseByteArrayElements b)))))"

definition jni_Disconnect :: "jni_env \<Rightarrow> bool \<Rightarrow> ptr \<Rightarrow> ptr \<Rightarrow> (jni_world, unit) act" where
  "jni_Disconnect J env jobj handle =
     (if \<not> CheckParams env jobj then ret () else logged (on_native handle (AITT_Disconnect (je_impl J))))"

definition jni_Subscribe :: "jni_env \<Rightarrow> bool \<Rightarrow> ptr \<Rightarrow> ptr \<Rightarrow> string option \<Rightarrow> int \<Rightarrow> int \<Rightarrow> (jni_world, ptr) act" where
  "jni_Subscribe J env jobj handle topic protocol qos =
     (if \<not> CheckParams env jobj then ret nullptr
      else bnd (GetStringUTF J env topic) (\<lambda>customTopic.
           if customTopic = [] then ret nullptr
           else tryA (on_native handle
                  (AITT_Subscribe (je_impl J) customTopic JNI_MESSAGE_CB handle (word_of_int protocol) qos))
                (\<lambda>_. ret nullptr)))"

definition jni_Unsubscribe :: "jni_env \<Rightarrow> bool \<Rightarrow> ptr \<Rightarrow> ptr \<Rightarrow> ptr \<Rightarrow> (jni_world, unit) act" where
  "jni_Unsubscribe J env jobj handle aittSubId =
     (if \<not> CheckParams env jobj then ret ()
      else logged (sq (on_native handle (AITT_Unsubscribe (je_impl J) aittSubId)) (ret ())))"

definition jni_SetConnectionCallback :: "jni_env \<Rightarrow> bool \<Rightarrow> ptr \<Rightarrow> ptr \<Rightarrow> (jni_world, unit) act" where
  "jni_SetConnectionCallback J env jobj handle =
     (if \<not> CheckParams env jobj then ret ()
      else logged (on_native handle (AITT_SetConnectionCallback (Some JNI_CONNECTION_CB) handle)))"

definition new_bind :: "ptr \<Rightarrow> string \<Rightarrow> (jni_world, nat) act" where
  "new_bind handle topic =
     (\<lambda>s. (Inr (jw_next_bind s),
           s\<lparr>jw_next_bind := jw_next_bind s + 1, jw_binds := omap_put (jw_next_bind s) (handle, topic) (jw_binds s)\<rparr>))"

definition jni_SetDiscoveryCallback :: "jni_env \<Rightarrow> bool \<Rightarrow> ptr \<Rightarrow> ptr \<Rightarrow> string option \<Rightarrow> (jni_world, int) act" where
  "jni_SetDiscoveryCallback J env jobj handle topic =
     (if \<not> CheckParams env jobj then ret (- 1)
      else bnd (GetStringUTF J env topic) (\<lambda>t.
           if t = [] then ret (- 1)
           else bnd (new_bind handle t) (\<lambda>n. on_native_discovery handle (AddDiscoveryCB t n))))"

definition jni_RemoveDiscoveryCallback :: "jni_env \<Rightarrow> bool \<Rightarrow> ptr \<Rightarrow> ptr \<Rightarrow> int \<Rightarrow> (jni_world, unit) act" where
  "jni_RemoveDiscoveryCallback J env jobj handle cbHandle =
     (if \<not> CheckParams env jobj then ret ()
      else logged (on_native_discovery handle (RemoveDiscoveryCB cbHandle)))"

text \<open>The elements of the array are not released.\<close>

definition jni_UpdateDiscoveryMessage ::
  "jni_env \<Rightarrow> bool \<Rightarrow> ptr \<Rightarrow> ptr \<Rightarrow> string option \<Rightarrow> byte list option \<Rightarrow> int \<Rightarrow> (jni_world, unit) act" where
  "jni_UpdateDiscoveryMessage J env jobj handle topic data data_len =
     (if \<not> CheckParams env jobj then ret ()
      else bnd (GetStringUTF J env topic) (\<lambda>t.
           if t = [] then ret ()
           else bnd (get_bytes J data) (\<lambda>cdata.
                case cdata of
                  None \<Rightarrow> ret ()
                | Some b \<Rightarrow>
                    logged (within b (wrap32 data_len) (on_native_discovery handle
                      (UpdateDiscoveryMsg (ie_disc (je_impl J)) (ie_fb (je_impl J)) t (take (nat (wrap32 data_len)) b)))))))"

section \<open>Creation and loading\<close>

definition AittNativeInterface_ctor :: "jni_env \<Rightarrow> string \<Rightarrow> string \<Rightarrow> bool \<Rightarrow> exn + AittNativeInterface" where
  "AittNativeInterface_ctor J mqId ip clearSession =
     (case AITT_new (je_impl J) (je_gen J) mqId ip (AittOption_new clearSession False) of
        Inl e \<Rightarrow> Inl e
      | Inr a \<Rightarrow> Inr \<lparr>ni_aitt = a, ni_discovery = False, ni_cbObject = nullptr\<rparr>)"

text \<open>The destructor and the release of the memory; the members are destroyed last.\<close>

definition delete_native :: "jni_env \<Rightarrow> ptr \<Rightarrow> (jni_world, unit) act" where
  "delete_native J h =
     bnd (deref_native h) (\<lambda>x.
     sq (whenA (ni_cbObject x \<noteq> nullptr)
           (bnd (jvm_call (je_status J) J_GetEnv) (\<lambda>status.
            bnd (if status = JNI_EDETACHED then jvm_call (\<lambda>cs. je_attach J cs = 0) J_AttachCurrentThread else ret False) (\<lambda>attached.
            sq (whenA (status = JNI_OK \<or> attached) (jdo (J_DeleteGlobalRef (ni_cbObject x))))
               (whenA attached (jdo J_DetachCurrentThread))))))
     (sq (on_native h (AITT_dtor (je_impl J)))
         (upd (\<lambda>s. s\<lparr>jw_objects := omap_del h (jw_objects s)\<rparr>))))"

text \<open>\<open>AittDiscoveryHelper::GetAittDiscovery\<close>: the address of a member of the implementation.\<close>

definition GetAittDiscovery :: "AITT \<Rightarrow> exn + bool" where
  "GetAittDiscovery a = (case pImpl a of None \<Rightarrow> Inl (UndefinedBehaviour ''null pImpl'') | Some _ \<Rightarrow> Inr True)"

definition new_native :: "jni_env \<Rightarrow> string \<Rightarrow> string \<Rightarrow> bool \<Rightarrow> (jni_world, ptr) act" where
  "new_native J mqId ip clearSession =
     bnd (lift_result (AittNativeInterface_ctor J mqId ip clearSession)) (\<lambda>x.
     bnd (lift_result (GetAittDiscovery (ni_aitt x))) (\<lambda>d.
     (\<lambda>s. (Inr (jw_next s), s\<lparr>jw_next := jw_next s + 1, jw_objects := omap_put (jw_next s) (x\<lparr>ni_discovery := d\<rparr>) (jw_objects s)\<rparr>))))"

definition JNI_CLASS :: string where "JNI_CLASS = ''com/samsung/android/aittnative/JniInterface''"

definition callback_methods :: "(string \<times> string) list" where
  "callback_methods =
     [(''messageCallback'', ''(Ljava/lang/String;[B)V''), (''connectionStatusCallback'', ''(I)V''),
      (''discoveryMessageCallback'', ''(Ljava/lang/String;Ljava/lang/String;Ljava/lang/String;[B)V'')]"

definition jni_Init :: "jni_env \<Rightarrow> bool \<Rightarrow> ptr \<Rightarrow> string option \<Rightarrow> string option \<Rightarrow> bool \<Rightarrow> (jni_world, int) act" where
  "jni_Init J env jobj ident ip clearSession =
     (if \<not> CheckParams env jobj then ret JNI_ERR
      else bnd (GetStringUTF J env ident) (\<lambda>mqId.
           if mqId = [] then ret 0
           else bnd (GetStringUTF J env ip) (\<lambda>selfIp.
                if selfIp = [] then ret 0
                else bnd (tryA (new_native J mqId selfIp clearSession) (\<lambda>_. ret nullptr)) (\<lambda>instance.
                     if instance = nullptr then ret 0
                     else bnd (jvm_call (je_vm J) J_GetJavaVM) (\<lambda>r.
                          if r \<noteq> JNI_OK then sq (delete_native J instance) (ret 0)
                          else sq (upd (\<lambda>s. s\<lparr>jw_context := (jw_context s)\<lparr>cx_jvm := True\<rparr>\<rparr>))
                               (sq (jdo (J_NewGlobalRef jobj))
                               (sq (bnd (deref_native instance) (\<lambda>x.
                                    upd (\<lambda>s. s\<lparr>jw_objects := omap_put instance (x\<lparr>ni_cbObject := jobj\<rparr>) (jw_objects s)\<rparr>)))
                               (sq (jdo (J_FindClass JNI_CLASS))
                               (sq (forA callback_methods (\<lambda>(name, sig). jdo (J_GetMethodID name sig)))
                               (sq (upd (\<lambda>s. s\<lparr>jw_context := (jw_context s)\<lparr>cx_methods := map fst callback_methods\<rparr>\<rparr>))
                               (sq (jdo J_DeleteLocalRef) (ret (int instance)))))))))))))"

definition aitt_jni_methods :: "(string \<times> string) list" where
  "aitt_jni_methods =
     [(''initJNI'', ''(Ljava/lang/String;Ljava/lang/String;Z)J''),
      (''connectJNI'', ''(JLjava/lang/String;I)V''),
      (''subscribeJNI'', ''(JLjava/lang/String;II)J''),
      (''publishJNI'', ''(JLjava/lang/String;[BJIIZ)V''),
      (''setWillInfoJNI'', ''(JLjava/lang/String;[BJIZ)V''),
      (''unsubscribeJNI'', ''(JJ)V''),
      (''disconnectJNI'', ''(J)V''),
      (''setConnectionCallbackJNI'', ''(J)V''),
      (''setDiscoveryCallbackJNI'', ''(JLjava/lang/String;)I''),
      (''removeDiscoveryCallbackJNI'', ''(JI)V''),
      (''updateDiscoveryMessageJNI'', ''(JLjava/lang/String;[BJ)V'')]"

definition JNI_OnLoad :: "jni_env \<Rightarrow> (jni_world, int) act" where
  "JNI_OnLoad J =
     bnd (jvm_call (je_status J) J_GetEnv) (\<lambda>status.
     if status \<noteq> JNI_OK then ret JNI_ERR
     else bnd (jvm_call (je_class J) (J_FindClass JNI_CLASS)) (\<lambda>found.
          if \<not> found then ret JNI_ERR
          else bnd (jvm_call (je_register J) (J_RegisterNatives aitt_jni_methods)) (\<lambda>r.
               sq (jdo J_DeleteLocalRef) (ret (if r \<noteq> 0 then JNI_ERR else JNI_VERSION_1_6)))))"

section \<open>Callbacks into Java\<close>

text \<open>
  The frame the three callbacks share: get the environment, attach the thread, run the calls, and detach
  the thread in the end.  A call after which an exception is pending ends the rest.
\<close>

definition with_env :: "jni_env \<Rightarrow> (bool \<Rightarrow> (jni_world, unit) act) \<Rightarrow> (jni_world, unit) act" where
  "with_env J body =
     (\<lambda>s. if \<not> cx_jvm (jw_context s) then (Inl (UndefinedBehaviour ''null jvm''), s)
          else bnd (jvm_call (je_status J) J_GetEnv) (\<lambda>status.
               bnd (JniStatusCheck J status) (\<lambda>(go_on, env).
               if \<not> go_on then ret () else sq (body env) (jdo J_DetachCurrentThread))) s)"

definition then_check :: "jni_env \<Rightarrow> (jni_world, unit) act \<Rightarrow> (jni_world, unit) act \<Rightarrow> (jni_world, unit) act" where
  "then_check J calls rest =
     sq calls (bnd (jvm_call (je_exception J) J_ExceptionCheck) (\<lambda>failed. if failed then ret () else rest))"

definition new_array :: "byte list \<Rightarrow> (jni_world, unit) act" where
  "new_array b = sq (jdo (J_NewByteArray (length b))) (jdo (J_SetByteArrayRegion b))"

text \<open>The lambda of \<open>Subscribe\<close>.\<close>

definition jni_on_message :: "jni_env \<Rightarrow> AittMsg \<Rightarrow> byte list \<Rightarrow> ptr \<Rightarrow> (jni_world, unit) act" where
  "jni_on_message J msg data cbdata =
     with_env J (\<lambda>env.
       whenA env (bnd (deref_native cbdata) (\<lambda>x.
       whenA (ni_cbObject x \<noteq> nullptr)
         (then_check J (jdo (J_NewStringUTF (msg_topic msg)))
         (then_check J (new_array data)
         (then_check J (jdo (J_CallVoidMethod (ni_cbObject x) ''messageCallback'' (MessageArgs (msg_topic msg) data)))
            (ret ())))))))"

text \<open>The lambda of \<open>SetConnectionCallback\<close>.\<close>

definition jni_on_connection :: "jni_env \<Rightarrow> int \<Rightarrow> ptr \<Rightarrow> (jni_world, unit) act" where
  "jni_on_connection J status user_data =
     with_env J (\<lambda>env.
       whenA env (bnd (deref_native user_data) (\<lambda>x.
       whenA (ni_cbObject x \<noteq> nullptr)
         (then_check J (jdo (J_CallVoidMethod (ni_cbObject x) ''connectionStatusCallback'' (ConnectionArgs status)))
            (ret ())))))"

text \<open>A message of a peer that left has no contents.\<close>

definition jni_DiscoveryMessageCallback :: "jni_env \<Rightarrow> ptr \<Rightarrow> string \<Rightarrow> string \<Rightarrow> string \<Rightarrow> byte list option \<Rightarrow> (jni_world, unit) act" where
  "jni_DiscoveryMessageCallback J this topic clientId status msg =
     with_env J (\<lambda>env.
       whenA env
         (then_check J (jdo (J_NewStringUTF topic))
         (then_check J (jdo (J_NewStringUTF clientId))
         (then_check J (jdo (J_NewStringUTF status))
         (then_check J (new_array (case msg of None \<Rightarrow> [] | Some b \<Rightarrow> b))
         (bnd (deref_native this) (\<lambda>x.
          then_check J (jdo (J_CallVoidMethod (ni_cbObject x) ''discoveryMessageCallback''
             (DiscoveryArgs topic clientId status (case msg of None \<Rightarrow> [] | Some b \<Rightarrow> b)))) (ret ()))))))))"

text \<open>What the class calls: the events it records are calls of these lambdas.\<close>

definition jni_event :: "jni_env \<Rightarrow> app_event \<Rightarrow> (jni_world, unit) act" where
  "jni_event J e =
     (case e of
        AppMessage n msg data user_data \<Rightarrow> jni_on_message J msg data user_data
      | AppConnection n user_data status \<Rightarrow> jni_on_connection J status user_data)"

definition jni_disc_call :: "jni_env \<Rightarrow> disc_call \<Rightarrow> (jni_world, unit) act" where
  "jni_disc_call J c =
     (case c of DiscCall n clientId status msg \<Rightarrow>
        (\<lambda>s. case map_of (jw_binds s) n of
           None \<Rightarrow> (Inr (), s)
         | Some (this, topic) \<Rightarrow> jni_DiscoveryMessageCallback J this topic clientId status msg s))"

section \<open>Calls from Java\<close>

datatype java_call =
    InitCall "string option" "string option" bool
  | ConnectCall ptr "string option" int
  | SubscribeCall ptr "string option" int int
  | PublishCall ptr "string option" "byte list option" int int int bool
  | SetWillInfoCall ptr "string option" "byte list option" int int bool
  | UnsubscribeCall ptr ptr
  | DisconnectCall ptr
  | SetConnectionCallbackCall ptr
  | SetDiscoveryCallbackCall ptr "string option"
  | RemoveDiscoveryCallbackCall ptr int
  | UpdateDiscoveryMessageCall ptr "string option" "byte list option" int

fun run_java :: "jni_env \<Rightarrow> bool \<Rightarrow> ptr \<Rightarrow> java_call \<Rightarrow> (jni_world, int) act" where
  "run_java J env jobj (InitCall ident ip clear) = jni_Init J env jobj ident ip clear"
| "run_java J env jobj (ConnectCall h host port) = sq (jni_Connect J env jobj h host port) (ret 0)"
| "run_java J env jobj (SubscribeCall h topic protocol qos) = bnd (jni_Subscribe J env jobj h topic protocol qos) (\<lambda>i. ret (int i))"
| "run_java J env jobj (PublishCall h topic data len protocol qos retain) =
     sq (jni_Publish J env jobj h topic data len protocol qos retain) (ret 0)"
| "run_java J env jobj (SetWillInfoCall h topic data len qos retain) = sq (jni_SetWillInfo J env jobj h topic data len qos retain) (ret 0)"
| "run_java J env jobj (UnsubscribeCall h i) = sq (jni_Unsubscribe J env jobj h i) (ret 0)"
| "run_java J env jobj (DisconnectCall h) = sq (jni_Disconnect J env jobj h) (ret 0)"
| "run_java J env jobj (SetConnectionCallbackCall h) = sq (jni_SetConnectionCallback J env jobj h) (ret 0)"
| "run_java J env jobj (SetDiscoveryCallbackCall h topic) = jni_SetDiscoveryCallback J env jobj h topic"
| "run_java J env jobj (RemoveDiscoveryCallbackCall h i) = sq (jni_RemoveDiscoveryCallback J env jobj h i) (ret 0)"
| "run_java J env jobj (UpdateDiscoveryMessageCall h topic data len) = sq (jni_UpdateDiscoveryMessage J env jobj h topic data len) (ret 0)"

section \<open>No exception reaches Java\<close>

text \<open>An action that gives back every buffer it obtains and lets no C++ exception out.\<close>

definition jni_contained :: "(jni_world, 'a) act \<Rightarrow> bool" where
  "jni_contained a \<longleftrightarrow> (\<forall>s. case a s of (Inl e, t) \<Rightarrow> (\<exists>w. e = UndefinedBehaviour w) | (Inr x, t) \<Rightarrow> jw_pinned t = jw_pinned s)"

text \<open>The same without the exceptions: what runs inside of a \<open>try\<close> block.\<close>

definition unpinned :: "(jni_world, 'a) act \<Rightarrow> bool" where
  "unpinned a \<longleftrightarrow> (\<forall>s. jw_pinned (snd (a s)) = jw_pinned s)"

named_theorems contained_intros "actions that let no exception out"

lemma contained_ret [contained_intros]: "jni_contained (ret x)"
  by (simp add: jni_contained_def act_simps)

lemma contained_raise [contained_intros]: "jni_contained (raise (UndefinedBehaviour w))"
  by (simp add: jni_contained_def act_simps)

lemma contained_bnd [contained_intros]: "jni_contained a \<Longrightarrow> (\<And>x. jni_contained (f x)) \<Longrightarrow> jni_contained (bnd a f)"
  unfolding jni_contained_def by (fastforce simp: act_simps split: prod.splits sum.splits)

lemma contained_sq [contained_intros]: "jni_contained a \<Longrightarrow> jni_contained b \<Longrightarrow> jni_contained (sq a b)"
  unfolding sq_def by (intro contained_intros)

lemma contained_whenA [contained_intros]: "jni_contained a \<Longrightarrow> jni_contained (whenA b a)"
  by (simp add: jni_contained_def act_simps)

lemma contained_if [contained_intros]: "jni_contained a \<Longrightarrow> jni_contained b \<Longrightarrow> jni_contained (if c then a else b)"
  by simp

lemma contained_tryA [contained_intros]: "unpinned a \<Longrightarrow> jni_contained (tryA a (\<lambda>_. ret x))"
  unfolding jni_contained_def unpinned_def
  by (auto simp: act_simps split: prod.splits sum.splits exn.splits) (metis snd_conv)+

lemma contained_calls [contained_intros]: "jni_contained (jvm_call f c)" "jni_contained (jdo c)"
  by (simp_all add: jni_contained_def jvm_call_def jdo_def)

lemma contained_forA [contained_intros]: "(\<And>x. jni_contained (f x)) \<Longrightarrow> jni_contained (forA xs f)"
  by (induction xs) (auto simp: forA.simps intro: contained_intros)

lemma unpinned_on_native: "unpinned (on_native h a)" "unpinned (on_native_discovery h b)"
  by (auto simp: unpinned_def on_native_def on_native_discovery_def deref_native_def act_simps split: option.splits prod.splits)

lemma unpinned_within: "unpinned a \<Longrightarrow> unpinned (within b n a)" "unpinned a \<Longrightarrow> unpinned ((if c then id else within b n) a)"
  by (simp_all add: unpinned_def within_def act_simps)

lemma contained_logged [contained_intros]: "unpinned a \<Longrightarrow> jni_contained (logged a)"
  unfolding logged_def by (rule contained_tryA)

lemma contained_GetStringUTF [contained_intros]: "jni_contained (GetStringUTF J env str)"
  by (auto simp: jni_contained_def GetStringUTF_def jvm_call_def jdo_def pin_def unpin_def act_simps split: option.splits)

lemma get_bytes_bnd:
  "bnd (get_bytes J (Some b)) k =
   bnd (jvm_call (je_bytes_ok J) (J_GetByteArrayElements b)) (\<lambda>ok. if ok then sq pin (k (Some b)) else k None)"
  by (rule ext) (simp add: get_bytes_def jvm_call_def pin_def act_simps)

text \<open>A byte array that is obtained, used and released.\<close>

lemma contained_with_bytes [contained_intros]:
  assumes "\<And>b. jni_contained (f b)" and "jni_contained g"
  shows "jni_contained (bnd (get_bytes J data) (\<lambda>cdata. case cdata of None \<Rightarrow> g | Some b \<Rightarrow> sq (f b) (unpin (J_ReleaseByteArrayElements b))))"
proof (cases data)
  case (Some b)
  have "case sq pin (sq (f b) (unpin c)) s of (Inl e, t) \<Rightarrow> \<exists>w. e = UndefinedBehaviour w | (Inr x, t) \<Rightarrow> jw_pinned t = jw_pinned s" for s c
    using assms(1) [of b, unfolded jni_contained_def, rule_format, of "s\<lparr>jw_pinned := jw_pinned s + 1\<rparr>"]
    by (auto simp: pin_def unpin_def jdo_def jvm_call_def act_simps split: prod.splits sum.splits)
  then have "jni_contained (sq pin (sq (f b) (unpin c)))" for c by (simp add: jni_contained_def)
  with Some assms(2) show ?thesis by (auto simp: get_bytes_bnd intro!: contained_bnd contained_calls contained_if)
qed (simp add: get_bytes_def jni_contained_def act_simps)

lemma contained_deref [contained_intros]: "jni_contained (deref_native h)"
  by (simp add: jni_contained_def deref_native_def split: option.splits)

lemma contained_upd [contained_intros]: "(\<And>s. jw_pinned (f s) = jw_pinned s) \<Longrightarrow> jni_contained (upd f)"
  by (simp add: jni_contained_def act_simps)

lemma contained_dtor [contained_intros]: "jni_contained (on_native h (AITT_dtor E))"
  by (auto simp: jni_contained_def on_native_def deref_native_def AITT_dtor_def forward_def Impl_dtor_def act_simps
      split: option.splits prod.splits sum.splits exn.splits)

lemma contained_AddDiscoveryCB [contained_intros]: "jni_contained (on_native_discovery h (AddDiscoveryCB t n))"
  by (auto simp: jni_contained_def on_native_discovery_def on_native_def deref_native_def forward_def AddDiscoveryCB_def Let_def act_simps
      split: option.splits)

lemma unpinned_new_native: "unpinned (new_native J i ip c)"
  by (auto simp: unpinned_def new_native_def lift_result_def act_simps split: sum.splits)

lemma unpinned_sq: "unpinned a \<Longrightarrow> unpinned (sq a (ret x))"
  by (auto simp: unpinned_def act_simps split: prod.splits sum.splits) (metis snd_conv)+

lemmas jni_method_defs = jni_Connect_def jni_Publish_def jni_SetWillInfo_def jni_Disconnect_def jni_Subscribe_def jni_Unsubscribe_def
  jni_SetConnectionCallback_def jni_SetDiscoveryCallback_def jni_RemoveDiscoveryCallback_def jni_UpdateDiscoveryMessage_def

lemma contained_delete_native [contained_intros]: "jni_contained (delete_native J h)"
  unfolding delete_native_def by (intro contained_intros) simp_all

lemma contained_new_bind [contained_intros]: "jni_contained (new_bind h t)"
  by (simp add: jni_contained_def new_bind_def)

lemma contained_Init: "jni_contained (jni_Init J env jobj ident ip clear)"
  unfolding jni_Init_def by (intro contained_intros unpinned_new_native | simp add: split_def)+

lemma java_call_contained:
  assumes "\<And>h topic data len. c \<noteq> UpdateDiscoveryMessageCall h topic data len"
  shows "jni_contained (run_java J env jobj c)"
  using assms
  by (cases c) (auto simp: jni_method_defs intro!: contained_intros unpinned_within unpinned_on_native unpinned_sq contained_Init)

lemma contained_update:
  assumes "run_java J env jobj (UpdateDiscoveryMessageCall h topic data len) s = (r, t)"
  shows "case r of Inl e \<Rightarrow> \<exists>w. e = UndefinedBehaviour w
     | Inr x \<Rightarrow> jw_pinned t = jw_pinned s \<or> (\<exists>b. data = Some b \<and> jw_pinned t = jw_pinned s + 1)"
proof -
  have c: "jni_contained (logged (within b n (on_native_discovery h a)))" for a :: "(AittDiscovery, unit) act" and b n
    by (intro contained_intros unpinned_within unpinned_on_native)
  have b: "case (bnd (get_bytes J data) (\<lambda>cdata. case cdata of None \<Rightarrow> ret () | Some b \<Rightarrow> logged (within b n (on_native_discovery h (g b))))) u of
      (Inl e, t) \<Rightarrow> \<exists>w. e = UndefinedBehaviour w
    | (Inr x, t) \<Rightarrow> jw_pinned t = jw_pinned u \<or> (\<exists>b. data = Some b \<and> jw_pinned t = jw_pinned u + 1)" for u g n
  proof (cases data)
    case (Some b)
    with c [of b n "g b", unfolded jni_contained_def, rule_format, of "u\<lparr>jw_calls := jw_calls u @ [J_GetByteArrayElements b], jw_pinned := jw_pinned u + 1\<rparr>"]
    show ?thesis by (auto simp: get_bytes_bnd jvm_call_def pin_def act_simps split: prod.splits sum.splits)
  qed (simp add: get_bytes_def act_simps)
  have g: "jni_contained (GetStringUTF J env topic)" by (rule contained_GetStringUTF)
  show ?thesis
  proof (cases "CheckParams env jobj")
    case True
    obtain x u where x: "GetStringUTF J env topic s = (x, u)" by fastforce
    with g have xu: "case x of Inl e \<Rightarrow> \<exists>w. e = UndefinedBehaviour w | Inr y \<Rightarrow> jw_pinned u = jw_pinned s"
      unfolding jni_contained_def by (metis (mono_tags, lifting) case_prod_conv)
    show ?thesis
    proof (cases x)
      case (Inr y)
      with xu b [of u "wrap32 len" "\<lambda>b. UpdateDiscoveryMsg (ie_disc (je_impl J)) (ie_fb (je_impl J)) y (take (nat (wrap32 len)) b)"] assms True x show ?thesis
        by (auto simp: jni_UpdateDiscoveryMessage_def sq_run bnd_run ret_run comp_def split: prod.splits sum.splits if_splits)
    qed (use xu assms True x in \<open>auto simp: jni_UpdateDiscoveryMessage_def act_simps\<close>)
  qed (use assms in \<open>auto simp: jni_UpdateDiscoveryMessage_def act_simps\<close>)
qed

text \<open>C39. Nothing gets past the native side of the Android binding: whatever Java calls, on whatever state, a
  call that returns has released every string and array it obtained from the virtual machine, but for the array of
  \<open>UpdateDiscoveryMessage\<close>, and no C++ exception leaves it (the failures that are left are marked as undefined
  behaviour: a null reference, a handle that is no object, or a length beyond the array).\<close>

theorem java_calls_contained:
  assumes "run_java J env jobj c s = (r, t)"
  shows "case r of Inl e \<Rightarrow> \<exists>w. e = UndefinedBehaviour w
     | Inr x \<Rightarrow> jw_pinned t = jw_pinned s \<or>
         (\<exists>h topic b len. c = UpdateDiscoveryMessageCall h topic (Some b) len \<and> jw_pinned t = jw_pinned s + 1)"
proof (cases "\<exists>h topic data len. c = UpdateDiscoveryMessageCall h topic data len")
  case True
  then obtain h topic data len where c: "c = UpdateDiscoveryMessageCall h topic data len" by blast
  with contained_update [of J env jobj h topic data len s r t] assms show ?thesis by (auto split: sum.splits)
next
  case False
  then have "jni_contained (run_java J env jobj c)" by (intro java_call_contained) blast
  then show ?thesis using assms unfolding jni_contained_def by (auto split: sum.splits dest: spec [of _ s])
qed

definition sample_jni :: jni_env where
  "sample_jni = \<lparr>je_impl = sample_impl_env, je_gen = (\<lambda>_. 0), je_utf_ok = (\<lambda>_. True), je_bytes_ok = (\<lambda>_. True),
     je_status = (\<lambda>_. JNI_EDETACHED), je_attach = (\<lambda>_. 0), je_exception = (\<lambda>_. False), je_vm = (\<lambda>_. JNI_OK),
     je_class = (\<lambda>_. True), je_register = (\<lambda>_. 0)\<rparr>"

definition sample_native :: "Impl \<Rightarrow> jni_world" where
  "sample_native i = \<lparr>jw_objects = [(1, \<lparr>ni_aitt = \<lparr>pImpl = Some i\<rparr>, ni_discovery = True, ni_cbObject = 9\<rparr>)], jw_next = 2,
     jw_binds = [], jw_next_bind = 10, jw_context = \<lparr>cx_jvm = True, cx_methods = map fst callback_methods\<rparr>, jw_calls = [], jw_pinned = 0\<rparr>"

lemmas sample_jni_defs = sample_jni_def sample_native_def jni_method_defs GetStringUTF_def get_bytes_def logged_def CheckParams_def pin_def unpin_def
  jvm_call_def jdo_def within_def on_native_def on_native_discovery_def deref_native_def forward_def

theorem java_calls_contained_witness:
  "\<exists>t. run_java sample_jni True 9 (PublishCall 1 (Some ''t'') (Some [1, 2]) 2 1 0 False) (sample_native sample_impl) = (Inr 0, t) \<and> jw_pinned t = 0"
proof -
  let ?c = "PublishCall 1 (Some ''t'') (Some [1, 2]) 2 1 0 False"
  obtain r t where t: "run_java sample_jni True 9 ?c (sample_native sample_impl) = (r, t)" by fastforce
  moreover have "r = Inr 0"
    using t by (auto simp: sample_jni_defs AITT_Publish_def bad_size_def impl_Publish_def sample_impl_def sample_discovery_def
        AittDiscovery_new_def act_simps wrap32_def)
  ultimately show ?thesis using java_calls_contained [OF t] by (simp add: sample_native_def)
qed

text \<open>\<open>UpdateDiscoveryMessage\<close> keeps the array it was given.\<close>

lemma update_discovery_leaks:
  "\<exists>t. jni_UpdateDiscoveryMessage sample_jni True 9 1 (Some ''x'') (Some [1]) 1 (sample_native sample_impl) = (Inr (), t) \<and> jw_pinned t = 1"
  by (simp add: sample_jni_defs sample_impl_defs UpdateDiscoveryMsg_def PublishDiscoveryMsg_def mq_Publish_def act_simps wrap32_def)

text \<open>No method looks at its handle: after an \<open>Init\<close> that failed with zero, the next call dereferences it.\<close>

lemma method_of_failed_init:
  "\<exists>u. jni_Init sample_jni True 9 (Some []) (Some ''10.0.0.1'') False (sample_native sample_impl) = (Inr 0, u) \<and>
     fst (jni_Connect sample_jni True 9 0 (Some ''10.0.0.2'') 1883 u) = Inl (UndefinedBehaviour ''no native object at this address'')"
  by (simp add: sample_jni_defs jni_Init_def act_simps)

section \<open>A message for Java\<close>

text \<open>A message arrives at the client of an object, the main loop works its queue off, and the callbacks run.\<close>

definition impl_pump :: "impl_env \<Rightarrow> string \<Rightarrow> byte list \<Rightarrow> mprop list option \<Rightarrow> (Impl, app_event list) act" where
  "impl_pump E topic payload props =
     (\<lambda>i. sq (impl_mq_message E topic payload props)
          (sq (\<lambda>t. forA (im_idle t) (\<lambda>_. impl_idle E) t)
              (rd (\<lambda>u. drop (length (im_events i)) (im_events u)))) i)"

definition jni_message :: "jni_env \<Rightarrow> ptr \<Rightarrow> string \<Rightarrow> byte list \<Rightarrow> mprop list option \<Rightarrow> (jni_world, unit) act" where
  "jni_message J h topic payload props =
     bnd (on_native h (forward (impl_pump (je_impl J) topic payload props))) (\<lambda>es. forA es (jni_event J))"

text \<open>A virtual machine in which native threads can be attached and nothing throws.\<close>

definition jvm_healthy :: "jni_env \<Rightarrow> bool" where
  "jvm_healthy J \<longleftrightarrow> je_status J = (\<lambda>_. JNI_EDETACHED) \<and> je_attach J = (\<lambda>_. 0) \<and> je_exception J = (\<lambda>_. False)"

text \<open>The calls of one delivery to Java.\<close>

definition java_delivery :: "ptr \<Rightarrow> string \<Rightarrow> byte list \<Rightarrow> jcall list" where
  "java_delivery jobj topic payload =
     [J_GetEnv, J_AttachCurrentThread, J_NewStringUTF topic, J_ExceptionCheck,
      J_NewByteArray (length payload), J_SetByteArrayRegion payload, J_ExceptionCheck,
      J_CallVoidMethod jobj ''messageCallback'' (MessageArgs topic payload), J_ExceptionCheck, J_DetachCurrentThread]"

lemma jni_on_message_run:
  assumes "jvm_healthy J" and "cx_jvm (jw_context s)" and "map_of (jw_objects s) h = Some x" and "ni_cbObject x \<noteq> nullptr"
  shows "jni_on_message J msg data h s = (Inr (), s\<lparr>jw_calls := jw_calls s @ java_delivery (ni_cbObject x) (msg_topic msg) data\<rparr>)"
  using assms
  by (simp add: jvm_healthy_def jni_on_message_def with_env_def JniStatusCheck_def then_check_def new_array_def deref_native_def jvm_call_def jdo_def
      java_delivery_def act_simps)

lemma jni_events_run:
  assumes "jvm_healthy J" and "cx_jvm (jw_context s)" and "map_of (jw_objects s) h = Some x" and "ni_cbObject x \<noteq> nullptr"
  shows "forA (map (\<lambda>m. AppMessage JNI_MESSAGE_CB m payload h) ms) (jni_event J) s =
     (Inr (), s\<lparr>jw_calls := jw_calls s @ concat (map (\<lambda>m. java_delivery (ni_cbObject x) (msg_topic m) payload) ms)\<rparr>)"
  using assms
proof (induction ms arbitrary: s)
  case (Cons m ms)
  let ?s = "s\<lparr>jw_calls := jw_calls s @ java_delivery (ni_cbObject x) (msg_topic m) payload\<rparr>"
  from Cons.IH [of ?s] Cons.prems jni_on_message_run [OF Cons.prems, of m payload] show ?case
    by (simp add: jni_event_def act_simps)
qed (simp add: act_simps)

lemma read_user_props_topic: "read_user_props ps m = Inr m' \<Longrightarrow> msg_topic m' = msg_topic m"
  by (induction ps m rule: read_user_props.induct) (auto simp: AittMsg_defs split: if_splits sum.splits)

lemma read_msg_topic: "read_msg E topic props = Inr m \<Longrightarrow> msg_topic m = topic"
  by (auto simp: read_msg_def Let_def AittMsg_defs dest!: read_user_props_topic split: option.splits)

lemma impl_pump_run:
  assumes "impl_ok i" and "\<not> subscriber_iterator_updated (im_mq i)" and "im_idle i = []"
    and "read_msg (ie_mq E) topic props = Inr m"
    and "\<forall>sub \<in> set (subscribers (im_mq i)). wants (ie_mq E) topic sub \<longrightarrow> sd_user_data (snd sub) = h \<and>
           map_of (im_closures i) (sd_cb (snd sub)) = Some \<lparr>cl_cb = UserCb JNI_MESSAGE_CB, cl_protocol = AITT_TYPE_MQTT, cl_loop = None\<rparr>"
  shows "\<exists>j ms. impl_pump E topic payload props i = (Inr (map (\<lambda>m. AppMessage JNI_MESSAGE_CB m payload h) ms), j) \<and>
     length ms = length (filter (wants (ie_mq E) topic) (subscribers (im_mq i))) \<and> (\<forall>x \<in> set ms. msg_topic x = topic)"
proof -
  let ?subs = "filter (wants (ie_mq E) topic) (subscribers (im_mq i))"
  let ?ms = "map (\<lambda>sub. SetID (sd_cb (snd sub)) m) ?subs"
  obtain t u where t: "impl_mq_message E topic payload props i = (Inr (), t)" "forA (im_idle t) (\<lambda>_. impl_idle E) t = (Inr (), u)"
    "im_events u = im_events i @ map (\<lambda>sub. AppMessage JNI_MESSAGE_CB (SetID (sd_cb (snd sub)) m) payload (sd_user_data (snd sub))) ?subs"
    using application_called [OF assms(1-4), of "\<lambda>_. JNI_MESSAGE_CB" payload] assms(5) by auto
  have "map (\<lambda>sub. AppMessage JNI_MESSAGE_CB (SetID (sd_cb (snd sub)) m) payload (sd_user_data (snd sub))) ?subs =
      map (\<lambda>m. AppMessage JNI_MESSAGE_CB m payload h) ?ms"
    using assms(5) by simp
  with t have "impl_pump E topic payload props i = (Inr (map (\<lambda>m. AppMessage JNI_MESSAGE_CB m payload h) ?ms), u)"
    by (simp add: impl_pump_def act_simps)
  moreover have "\<forall>x \<in> set ?ms. msg_topic x = topic" using read_msg_topic [OF assms(4)] by (simp add: SetID_def)
  ultimately show ?thesis by (intro exI [of _ u] exI [of _ ?ms]) simp
qed



end
