(* ===== verification/AITT_History.thy ===== *)
theory AITT_History
  imports AITT_Delivery
begin

text \<open>
  What an application sees of its calls: an abstract list of the subscriptions it has made and not
  given back, computed from its calls and their results alone.  The public class implements this list, and a message
  from the broker goes to exactly the members of it whose filter matches.
\<close>

section \<open>The application and what it may expect\<close>

datatype app_op =
    SubscribeOp string nat ptr AittProtocol int
  | UnsubscribeOp ptr
  | PublishOp string "byte list" int AittProtocol int bool
  | ConnectOp string int string string

fun run_app_op :: "impl_env \<Rightarrow> app_op \<Rightarrow> (Impl, ptr) act" where
  "run_app_op E (SubscribeOp topic cb user_data protocol qos) = impl_Subscribe E topic (UserCb cb) user_data protocol qos"
| "run_app_op E (UnsubscribeOp i) = impl_Unsubscribe E i"
| "run_app_op E (PublishOp topic data len protocols qos retain) = sq (impl_Publish E topic data len protocols qos retain) (ret nullptr)"
| "run_app_op E (ConnectOp host port user pw) = sq (impl_Connect E host port user pw) (ret nullptr)"

text \<open>Calls one after the other, whether they return or throw.\<close>

fun run_app :: "impl_env \<Rightarrow> app_op list \<Rightarrow> Impl \<Rightarrow> (app_op \<times> (exn + ptr)) list \<times> Impl" where
  "run_app E [] s = ([], s)"
| "run_app E (op # ops) s = (case run_app_op E op s of (r, t) \<Rightarrow> case run_app E ops t of (h, u) \<Rightarrow> ((op, r) # h, u))"

record live_sub =
  live_id :: ptr
  live_topic :: string
  live_cb :: nat
  live_data :: ptr
  live_protocol :: AittProtocol

fun live_step :: "app_op \<times> (exn + ptr) \<Rightarrow> live_sub list \<Rightarrow> live_sub list" where
  "live_step (SubscribeOp topic cb ud p qos, Inr i) L =
     L @ [\<lparr>live_id = i, live_topic = topic, live_cb = cb, live_data = ud, live_protocol = p\<rparr>]"
| "live_step (UnsubscribeOp i, r) L = filter (\<lambda>l. live_id l \<noteq> i) L"
| "live_step (_, _) L = L"

text \<open>No subscription over MQTT threw; what else threw does not matter.\<close>

definition mqtt_accepted :: "(app_op \<times> (exn + ptr)) list \<Rightarrow> bool" where
  "mqtt_accepted h \<longleftrightarrow> (\<forall>(op, r) \<in> set h. case op of
     SubscribeOp topic cb ud p qos \<Rightarrow> p = AITT_TYPE_MQTT \<longrightarrow> (\<exists>i. r = Inr i) | _ \<Rightarrow> True)"

section \<open>The relation between the class and the list\<close>

definition mq_live :: "live_sub list \<Rightarrow> live_sub list" where
  "mq_live L = filter (\<lambda>l. live_protocol l = AITT_TYPE_MQTT) L"

definition sub_of :: "live_sub \<Rightarrow> SubscribeData" where
  "sub_of l = \<lparr>sd_topic = live_topic l, sd_cb = live_id l, sd_user_data = live_data l\<rparr>"

definition row_of :: "live_sub \<Rightarrow> string \<times> user_cb \<times> ptr \<times> AittProtocol" where
  "row_of l = (live_topic l, UserCb (live_cb l), live_data l, live_protocol l)"

definition live_table :: "live_sub list \<Rightarrow> ptr \<Rightarrow> (string \<times> user_cb \<times> ptr \<times> AittProtocol) option" where
  "live_table L = map_of (map (\<lambda>l. (live_id l, row_of l)) L)"

lemma live_table_None: "live_table L i = None \<longleftrightarrow> i \<notin> live_id ` set L"
  by (induction L) (auto simp: live_table_def)

lemma live_table_append: "live_id l \<notin> live_id ` set L \<Longrightarrow> live_table (L @ [l]) = (live_table L)(live_id l \<mapsto> row_of l)"
  by (induction L) (auto simp: live_table_def)

lemma live_table_filter: "live_table (filter (\<lambda>l. live_id l \<noteq> i) L) = (live_table L)(i := None)"
  by (induction L) (auto simp: live_table_def fun_eq_iff)

lemma live_table_member: "distinct (map live_id L) \<Longrightarrow> l \<in> set L \<Longrightarrow> live_table L (live_id l) = Some (row_of l)"
  unfolding live_table_def by (rule map_of_is_SomeI) (auto simp: comp_def)

definition implements :: "Impl \<Rightarrow> live_sub list \<Rightarrow> bool" where
  "implements s L \<longleftrightarrow> impl_ok s \<and> im_idle s = [] \<and> subscriber_iterator (im_mq s) = None \<and> \<not> subscriber_iterator_updated (im_mq s) \<and>
     distinct (map live_id L) \<and> impl_table s = live_table L \<and>
     map snd (subscribers (im_mq s)) = map sub_of (mq_live L) \<and>
     (\<forall>l \<in> set (mq_live L). map_of (im_closures s) (live_id l) = Some \<lparr>cl_cb = UserCb (live_cb l), cl_protocol = AITT_TYPE_MQTT, cl_loop = None\<rparr>)"

text \<open>What operations that are no subscriptions leave alone.\<close>

definition mq_view :: "MosquittoMQ \<Rightarrow> _" where
  "mq_view q = (subscribers q, new_subscribers q, subscribers_iterating q, mq_next_ptr q, subscriber_iterator q, subscriber_iterator_updated q)"

definition untouched :: "Impl \<Rightarrow> Impl \<Rightarrow> bool" where
  "untouched s u \<longleftrightarrow> same_subscriptions s u \<and> mq_view (im_mq u) = mq_view (im_mq s) \<and> im_idle u = im_idle s"

lemma untouched_implements: "implements s L \<Longrightarrow> untouched s u \<Longrightarrow> implements u L"
  using same_subscriptions_ok [of s u] by (auto simp: implements_def untouched_def mq_view_def same_subscriptions_def)

lemma view_determines:
  assumes "mq_view (im_mq t) = mq_view (im_mq u)" and "im_modules t = im_modules u"
  shows "prov t = prov u" "nxt t = nxt u" "providers_ok t = providers_ok u"
  using assms by (simp_all add: prov_def nxt_def tcp_of_def providers_ok_def mq_table_def mq_idle_def mq_ok_defs mq_view_def fun_eq_iff)

lemma untouched_if:
  assumes "untouched s u" and "mq_view (im_mq t) = mq_view (im_mq u)" and "im_modules t = im_modules u" and "same_infos u t"
    and "im_closures t = im_closures u" and "im_idle t = im_idle u"
  shows "untouched s t"
  using assms(1,2,4-6) view_determines [OF assms(2,3)] by (simp add: untouched_def same_subscriptions_def same_infos_def)

lemma untouched_mq:
  assumes "\<And>v. preserves (\<lambda>q. mq_view q = v) a"
  shows "preserves (untouched s) (im_on_mq a)"
proof (rule preservesI)
  fix u assume u: "untouched s u"
  obtain r q where q: "a (im_mq u) = (r, q)" by fastforce
  have "mq_view q = mq_view (im_mq u)" using preservesD [OF assms, of "im_mq u"] q by simp
  then show "untouched s (snd (im_on_mq a u))"
    by (intro untouched_if [OF u]) (simp_all add: q act_simps same_infos_def)
qed

lemma untouched_disc: "preserves (untouched s) (im_on_disc a)"
  by (rule preservesI, erule untouched_if) (simp_all add: act_simps same_infos_def split: prod.split)

lemma mq_view_call: "preserves (\<lambda>q. mq_view q = v) (call E c)" "preserves (\<lambda>q. mq_view q = v) (call_or_throw E c)"
  by (auto simp: preserves_def mq_view_def act_simps)

lemma untouched_tcp_Publish:
  assumes "p = AITT_TYPE_TCP \<or> p = AITT_TYPE_TCP_SECURE"
  shows "preserves (untouched s) (im_on_mm (on_Get p (tcp_Publish E topic data n) g))"
proof (rule preservesI)
  fix u assume u: "untouched s u"
  obtain r t where t: "im_on_mm (on_Get p (tcp_Publish E topic data n) g) u = (r, t)" by fastforce
  have "providers_ok u" using u by (simp add: untouched_def same_subscriptions_def)
  from publish_tcp [OF this assms t] have "same_subscriptions u t" "im_mq t = im_mq u" by auto
  moreover have "im_idle t = im_idle u" using t by (auto simp: act_simps split: prod.splits)
  ultimately show "untouched s (snd (im_on_mm (on_Get p (tcp_Publish E topic data n) g) u))"
    using u t same_subscriptions_trans by (auto simp: untouched_def)
qed

lemma Publish_untouched: "preserves (untouched s) (impl_Publish E topic data n protocols qos retain)"
proof -
  have "preserves (untouched s) (sq (whenA a (im_on_mq (mq_Publish (ie_mq E) topic data qos retain)))
     (sq (whenA b (im_on_mm (on_Get AITT_TYPE_TCP (tcp_Publish (ie_tcp E) topic data n) (null_Publish topic data n))))
         (whenA c (im_on_mm (on_Get AITT_TYPE_TCP_SECURE (tcp_Publish (ie_tcp E) topic data n) (null_Publish topic data n))))))" for a b c
    unfolding mq_Publish_def by (intro preserves_intros untouched_mq mq_view_call untouched_tcp_Publish) simp_all
  then show ?thesis by (auto simp: impl_Publish_def preserves_def)
qed

lemma Connect_untouched: "preserves (untouched s) (impl_Connect E host port username password)"
proof -
  have "untouched s (u\<lparr>mqtt_broker_ip := x, mqtt_broker_port := y\<rparr>)" if "untouched s u" for u x y
    by (rule untouched_if [OF that]) (simp_all add: same_infos_def)
  then show ?thesis unfolding impl_Connect_def mq_Connect_def mq_Disconnect_def
    by (intro preserves_intros untouched_mq untouched_disc mq_view_call) auto
qed

section \<open>Subscribing and unsubscribing\<close>

lemma implements_fresh:
  assumes "implements s L" and "l \<in> set L"
  shows "live_id l < im_next_info s"
proof -
  have "impl_table s (live_id l) \<noteq> None" using assms by (auto simp: implements_def live_table_None)
  then have "live_id l \<in> set (subscribed_list s)" by (auto simp: impl_table_def split: if_splits)
  with assms(1) show ?thesis by (auto simp: implements_def impl_ok_def infos_ok_def)
qed

lemma Subscribe_mqtt_effect:
  assumes "mq_idle (im_mq s)" and "impl_Subscribe E topic cb ud AITT_TYPE_MQTT qos s = (Inr i, t)"
  shows "i = im_next_info s" "im_idle t = im_idle s"
    "im_closures t = omap_put i \<lparr>cl_cb = cb, cl_protocol = AITT_TYPE_MQTT, cl_loop = None\<rparr> (im_closures s)"
    "map snd (subscribers (im_mq t)) = map snd (subscribers (im_mq s)) @ [\<lparr>sd_topic = topic, sd_cb = i, sd_user_data = ud\<rparr>]"
    "subscriber_iterator_updated (im_mq t) = subscriber_iterator_updated (im_mq s)"
    "subscriber_iterator (im_mq s) = None \<Longrightarrow> subscriber_iterator (im_mq t) = None"
  using assms by (auto simp: impl_Subscribe_def new_info_def SubscribeMQ_def add_closure_def push_info_def mq_Subscribe_def mq_idle_def
      act_simps Let_def split: prod.splits sum.splits if_splits)

lemma Subscribe_other_effect:
  assumes "protocol \<noteq> AITT_TYPE_MQTT" and "impl_Subscribe E topic cb ud protocol qos s = (r, t)"
  shows "im_mq t = im_mq s" "im_idle t = im_idle s" "j \<noteq> im_next_info s \<Longrightarrow> map_of (im_closures t) j = map_of (im_closures s) j"
  using assms by (auto simp: impl_Subscribe_def new_info_def SubscribeTCP_def add_closure_def push_info_def delete_info_def
      act_simps split: prod.splits sum.splits if_splits)

lemma implements_Subscribe:
  assumes i: "implements s L" and "impl_Subscribe E topic (UserCb cb) ud p qos s = (r, t)" and "p = AITT_TYPE_MQTT \<longrightarrow> (\<exists>i. r = Inr i)"
  shows "implements t (live_step (SubscribeOp topic cb ud p qos, r) L)"
proof -
  define d where "d = (topic, UserCb cb, ud, p)"
  have a: "impl_add E qos d s = (r, t)" using assms(2) by (simp add: impl_add_def d_def)
  have ok: "impl_ok s" "mq_idle (im_mq s)" using i by (simp_all add: implements_def impl_ok_def providers_ok_def)
  note law = impl_add_law [OF ok(1) a]
  have fresh: "live_id l \<noteq> im_next_info s" if "l \<in> set L" for l using implements_fresh [OF i that] by simp
  show ?thesis
  proof (cases r)
    case (Inl e)
    then have p: "p \<noteq> AITT_TYPE_MQTT" using assms(3) by auto
    from Subscribe_other_effect [OF p assms(2)] law i Inl fresh show ?thesis by (simp add: implements_def mq_live_def)
  next
    case (Inr k)
    define l where "l = \<lparr>live_id = k, live_topic = topic, live_cb = cb, live_data = ud, live_protocol = p\<rparr>"
    have k: "k \<notin> live_id ` set L" using law Inr i by (simp add: implements_def live_table_None)
    have t: "impl_ok t" "impl_table t = live_table (L @ [l])" "k \<notin> live_id ` set L"
      using law Inr i k live_table_append [of l L] by (auto simp: implements_def l_def row_of_def d_def)
    have "implements t (L @ [l])"
    proof (cases "p = AITT_TYPE_MQTT")
      case True
      from Subscribe_mqtt_effect [OF ok(2) assms(2) [unfolded True Inr]] t i True fresh show ?thesis
        by (auto simp: implements_def mq_live_def l_def sub_of_def)
    next
      case False
      from Subscribe_other_effect [OF False assms(2)] t i False fresh show ?thesis
        by (auto simp: implements_def mq_live_def l_def)
    qed
    then show ?thesis by (simp add: Inr l_def)
  qed
qed

lemma erase_at_filter:
  assumes "distinct (map f xs)" and "j < length xs" and "f (xs ! j) = a"
  shows "erase_at j xs = filter (\<lambda>x. f x \<noteq> a) xs"
proof -
  define ys zs where "ys = take j xs" and "zs = drop (Suc j) xs"
  have xs: "xs = ys @ xs ! j # zs" using assms(2) by (simp add: ys_def zs_def id_take_nth_drop)
  have "f x \<noteq> a" if "x \<in> set ys \<union> set zs" for x
    using assms(1,3) that by (subst (asm) xs) (auto, (metis imageI)+)
  then have "filter (\<lambda>x. f x \<noteq> a) (ys @ xs ! j # zs) = ys @ zs" using assms(3) by (simp add: filter_id_conv)
  with xs show ?thesis by (simp add: erase_at_def ys_def zs_def)
qed

lemma mq_Unsubscribe_effect:
  assumes "mq_Unsubscribe E h q = (x, q')" and "h \<noteq> 0" and "distinct (map (sd_cb \<circ> snd) (subscribers q))"
    and "\<forall>d. map_of (subscribers q) h = Some d \<longrightarrow> sd_cb d = i" and "distinct (map fst (subscribers q))"
  shows "subscribers q' = (if map_of (subscribers q) h = None then subscribers q else filter (\<lambda>p. sd_cb (snd p) \<noteq> i) (subscribers q))"
    "subscriber_iterator q' = subscriber_iterator q"
    "subscriber_iterator q = None \<Longrightarrow> subscriber_iterator_updated q' = subscriber_iterator_updated q"
proof -
  have "erase_at j (subscribers q) = filter (\<lambda>p. sd_cb (snd p) \<noteq> i) (subscribers q)" "map_of (subscribers q) h \<noteq> None"
    if j: "index_of h (map fst (subscribers q)) = Some j" for j
  proof -
    from index_of_Some [OF j] have j: "j < length (subscribers q)" "fst (subscribers q ! j) = h" by auto
    then have "map_of (subscribers q) h = Some (snd (subscribers q ! j))"
      using assms(5) by (intro map_of_is_SomeI) (metis prod.collapse nth_mem)+
    with assms(4) have m: "map_of (subscribers q) h \<noteq> None" "(sd_cb \<circ> snd) (subscribers q ! j) = i" by auto
    from erase_at_filter [OF assms(3) j(1) m(2)] m(1)
    show "erase_at j (subscribers q) = filter (\<lambda>p. sd_cb (snd p) \<noteq> i) (subscribers q)" "map_of (subscribers q) h \<noteq> None" by simp_all
  qed
  moreover have "map_of (subscribers q) h = None" if "index_of h (map fst (subscribers q)) = None"
    using that index_of_None [of h "map fst (subscribers q)"] by (simp add: map_of_eq_None_iff)
  ultimately show "subscribers q' = (if map_of (subscribers q) h = None then subscribers q else filter (\<lambda>p. sd_cb (snd p) \<noteq> i) (subscribers q))"
    "subscriber_iterator q' = subscriber_iterator q"
    "subscriber_iterator q = None \<Longrightarrow> subscriber_iterator_updated q' = subscriber_iterator_updated q"
    using assms(1,2) by (auto simp: mq_Unsubscribe_def Let_def act_simps split: option.splits if_splits)
qed

lemma Unsubscribe_effect:
  assumes "impl_ok s" and "impl_Unsubscribe E i s = (r, t)" and "i \<in> set (subscribed_list s)" and "map_of (im_infos s) i = Some (p, h)"
    and "distinct (map (sd_cb \<circ> snd) (subscribers (im_mq s)))"
  shows "im_idle t = im_idle s" "im_closures t = im_closures s"
    "subscribers (im_mq t) = (if p = AITT_TYPE_MQTT \<and> prov s p h \<noteq> None
       then filter (\<lambda>x. sd_cb (snd x) \<noteq> i) (subscribers (im_mq s)) else subscribers (im_mq s))"
    "subscriber_iterator (im_mq t) = subscriber_iterator (im_mq s)"
    "subscriber_iterator (im_mq s) = None \<Longrightarrow> subscriber_iterator_updated (im_mq t) = subscriber_iterator_updated (im_mq s)"
proof -
  obtain k where k: "index_of i (subscribed_list s) = Some k"
    using assms(3) index_of_None [of i "subscribed_list s"] by (cases "index_of i (subscribed_list s)") auto
  obtain x u where u: "leave_provider E p h s = (x, u)" by fastforce
  have t: "im_idle t = im_idle u" "im_closures t = im_closures u" "im_mq t = im_mq u"
    using assms(2,4) k u by (auto simp: impl_Unsubscribe_def act_simps delete_info_def split: sum.splits)
  have ok: "mq_idle (im_mq s)" "h \<noteq> 0" "prov s p h = Some (topic, n, ud) \<Longrightarrow> n = i" for topic n ud
    using assms(1,3,4) by (auto simp: impl_ok_def providers_ok_def infos_ok_def)
  show "im_idle t = im_idle s" "im_closures t = im_closures s"
    using u by (auto simp: t leave_provider_def act_simps split: prod.splits sum.splits if_splits)
  obtain y q where q: "mq_Unsubscribe (ie_mq E) h (im_mq s) = (y, q)" by fastforce
  have m: "im_mq u = (if p = AITT_TYPE_MQTT then q else im_mq s)"
    using u q by (auto simp: leave_provider_def act_simps split: prod.splits sum.splits if_splits)
  have i: "\<forall>d. map_of (subscribers (im_mq s)) h = Some d \<longrightarrow> sd_cb d = i" if "p = AITT_TYPE_MQTT"
    using ok(3) that by (auto simp: prov_def mq_table_def)
  note e = mq_Unsubscribe_effect [OF q ok(2) assms(5) i mq_idle_distinct [OF ok(1)]]
  show "subscribers (im_mq t) = (if p = AITT_TYPE_MQTT \<and> prov s p h \<noteq> None
       then filter (\<lambda>x. sd_cb (snd x) \<noteq> i) (subscribers (im_mq s)) else subscribers (im_mq s))"
    "subscriber_iterator (im_mq t) = subscriber_iterator (im_mq s)"
    "subscriber_iterator (im_mq s) = None \<Longrightarrow> subscriber_iterator_updated (im_mq t) = subscriber_iterator_updated (im_mq s)"
    using e by (cases "p = AITT_TYPE_MQTT"; auto simp: t(3) m prov_def mq_table_def)+
qed

lemma implements_Unsubscribe:
  assumes im: "implements s L" and "impl_Unsubscribe E i s = (r, t)"
  shows "implements t (filter (\<lambda>l. live_id l \<noteq> i) L)"
proof (cases "i \<in> set (subscribed_list s)")
  case True
  have ok: "impl_ok s" and L: "impl_table s = live_table L" "distinct (map live_id L)" "map snd (subscribers (im_mq s)) = map sub_of (mq_live L)"
    using im by (simp_all add: implements_def)
  obtain p h where h: "map_of (im_infos s) i = Some (p, h)" using ok True by (auto simp: impl_ok_def infos_ok_def)
  have cbs: "map (sd_cb \<circ> snd) (subscribers (im_mq s)) = map live_id (mq_live L)"
    using arg_cong [OF L(3), of "map sd_cb"] by (simp add: sub_of_def comp_def)
  then have d: "distinct (map (sd_cb \<circ> snd) (subscribers (im_mq s)))"
    using L(2) by (simp add: mq_live_def distinct_map_filter)
  note e = Unsubscribe_effect [OF ok assms(2) True h d] and law = impl_Unsubscribe_law [OF ok assms(2)]
  have p: "live_protocol l = p \<and> prov s p h \<noteq> None" if "l \<in> set L" "live_id l = i" for l
  proof -
    have "impl_table s i = Some (row_of l)" using live_table_member [OF L(2) that(1)] L(1) that(2) by simp
    with True h show ?thesis by (auto simp: impl_table_def impl_entry_def row_of_def split: option.splits if_splits)
  qed
  have "map snd (subscribers (im_mq t)) = map sub_of (mq_live (filter (\<lambda>l. live_id l \<noteq> i) L))"
  proof (cases "p = AITT_TYPE_MQTT \<and> prov s p h \<noteq> None")
    case True
    have "subscribers (im_mq t) = filter (\<lambda>x. sd_cb (snd x) \<noteq> i) (subscribers (im_mq s))" unfolding e(3) using True by (rule if_P)
    then have "map snd (subscribers (im_mq t)) = filter (\<lambda>x. sd_cb x \<noteq> i) (map snd (subscribers (im_mq s)))"
      by (simp add: filter_map comp_def)
    then show ?thesis by (simp add: L(3) mq_live_def sub_of_def filter_map comp_def conj_commute)
  next
    case False
    then have "live_protocol l = AITT_TYPE_MQTT \<Longrightarrow> live_id l \<noteq> i" if "l \<in> set L" for l using p [OF that] by auto
    then have "mq_live (filter (\<lambda>l. live_id l \<noteq> i) L) = mq_live L" by (auto simp: mq_live_def intro: filter_cong)
    with False e(3) L(3) show ?thesis by auto
  qed
  with im e law show ?thesis
    by (auto simp: implements_def live_table_filter distinct_map_filter mq_live_def)
next
  case False
  then have "impl_table s i = None" by (simp add: impl_table_def)
  then have "filter (\<lambda>l. live_id l \<noteq> i) L = L" using im by (auto simp: implements_def live_table_None filter_id_conv)
  moreover have "t = s" using False assms(2) index_of_None [of i "subscribed_list s"] by (simp add: impl_Unsubscribe_def)
  ultimately show ?thesis using im by simp
qed

lemma implements_step:
  assumes "implements s L" and "run_app_op E op s = (r, t)" and "mqtt_accepted [(op, r)]"
  shows "implements t (live_step (op, r) L)"
proof (cases op)
  case (SubscribeOp topic cb ud p qos)
  with implements_Subscribe [OF assms(1), of E topic cb ud p qos r t] assms(2,3) show ?thesis by (simp add: mqtt_accepted_def)
next
  case (UnsubscribeOp i)
  with implements_Unsubscribe [OF assms(1), of E i r t] assms(2) show ?thesis by simp
next
  case (PublishOp topic data n p qos retain)
  have "untouched s s" using assms(1) by (simp add: untouched_def implements_def impl_ok_def same_subscriptions_refl)
  from preservesD [OF preserves_sq [OF Publish_untouched preserves_ret] this, of E topic data n p qos retain nullptr] PublishOp assms(1,2)
  show ?thesis by (auto intro: untouched_implements)
next
  case (ConnectOp host port u pw)
  have "untouched s s" using assms(1) by (simp add: untouched_def implements_def impl_ok_def same_subscriptions_refl)
  from preservesD [OF preserves_sq [OF Connect_untouched preserves_ret] this, of E host port u pw nullptr] ConnectOp assms(1,2)
  show ?thesis by (auto intro: untouched_implements)
qed

lemma implements_run:
  assumes "implements s L" and "run_app E ops s = (h, t)" and "mqtt_accepted h"
  shows "implements t (fold live_step h L)"
  using assms
proof (induction ops arbitrary: s L h)
  case (Cons op ops)
  obtain r u where u: "run_app_op E op s = (r, u)" by fastforce
  obtain g where g: "run_app E ops u = (g, t)" "h = (op, r) # g" using Cons.prems(2) u by (auto split: prod.splits)
  have "mqtt_accepted [(op, r)]" "mqtt_accepted g" using Cons.prems(3) by (simp_all add: g(2) mqtt_accepted_def)
  with implements_step [OF Cons.prems(1) u] Cons.IH [OF _ g(1)] g(2) show ?case by simp
qed simp

lemma implements_ctor:
  assumes "Impl_ctor E ident ip option = Inr s" and "loads (ie_mm E)" and "\<not> opt_use_custom_broker option"
  shows "implements s []"
proof -
  have "im_idle s = []" "subscribers (im_mq s) = []" "subscriber_iterator (im_mq s) = None" "\<not> subscriber_iterator_updated (im_mq s)"
    using assms(1,3)
    by (auto simp: Impl_ctor_def Impl_mqs_def MosquittoMQ_ctor_def MosquittoMQ_fail_def MosquittoMQ_init_def act_simps
        split: prod.splits sum.splits if_splits)
  with Impl_ctor_ok [OF assms] show ?thesis by (simp add: implements_def live_table_def mq_live_def)
qed

text \<open>
  Why a subscription over MQTT that throws is excluded: when the broker has accepted it and advertising the
  topic throws, the client keeps the subscription.  The application has no identifier to give it back, and its callback
  is called for every message.
\<close>

lemma failed_subscribe_still_called:
  assumes "mq_idle (im_mq s)" and "impl_Subscribe E topic cb ud AITT_TYPE_MQTT qos s = (Inl e, t)"
    and "env_rc (ie_mq E) (mq_calls (im_mq s)) (M_subscribe topic qos) = MOSQ_ERR_SUCCESS"
  shows "map snd (subscribers (im_mq t)) = map snd (subscribers (im_mq s)) @ [\<lparr>sd_topic = topic, sd_cb = im_next_info s, sd_user_data = ud\<rparr>]"
    "map_of (im_closures t) (im_next_info s) = Some \<lparr>cl_cb = cb, cl_protocol = AITT_TYPE_MQTT, cl_loop = None\<rparr>"
    "subscribed_list t = subscribed_list s"
  using assms by (auto simp: impl_Subscribe_def new_info_def SubscribeMQ_def add_closure_def push_info_def mq_Subscribe_def mq_idle_def
      act_simps Let_def split: prod.splits sum.splits if_splits)

section \<open>The properties\<close>

text \<open>The calls that a message over MQTT leads to.\<close>

definition expected :: "mq_env \<Rightarrow> string \<Rightarrow> AittMsg \<Rightarrow> byte list \<Rightarrow> live_sub list \<Rightarrow> app_event list" where
  "expected E topic m payload L =
     map (\<lambda>l. AppMessage (live_cb l) (SetID (live_id l) m) payload (live_data l))
       (filter (\<lambda>l. live_protocol l = AITT_TYPE_MQTT \<and> CompareTopic E (live_topic l) topic) L)"

lemma implements_delivers:
  assumes im: "implements s L" and m: "read_msg (ie_mq E) topic props = Inr m"
  shows "\<exists>t u. impl_mq_message E topic payload props s = (Inr (), t) \<and>
     forA (im_idle t) (\<lambda>_. impl_idle E) t = (Inr (), u) \<and> im_idle u = [] \<and>
     im_events u = im_events s @ expected (ie_mq E) topic m payload L"
proof -
  define app where "app sub = (case map_of (im_closures s) (sd_cb (snd sub)) of Some c \<Rightarrow> (case cl_cb c of UserCb n \<Rightarrow> n | _ \<Rightarrow> 0) | None \<Rightarrow> 0)"
    for sub :: "ptr \<times> SubscribeData"
  have L: "map snd (subscribers (im_mq s)) = map sub_of (mq_live L)"
    "l \<in> set (mq_live L) \<Longrightarrow> map_of (im_closures s) (live_id l) = Some \<lparr>cl_cb = UserCb (live_cb l), cl_protocol = AITT_TYPE_MQTT, cl_loop = None\<rparr>" for l
    using im by (simp_all add: implements_def)
  have s: "\<exists>l \<in> set (mq_live L). snd sub = sub_of l" if "sub \<in> set (subscribers (im_mq s))" for sub
    using arg_cong [OF L(1), of set] that by (metis (no_types, lifting) image_iff list.set_map)
  have a: "map_of (im_closures s) (sd_cb (snd sub)) = Some \<lparr>cl_cb = UserCb (app sub), cl_protocol = AITT_TYPE_MQTT, cl_loop = None\<rparr>"
    if "sub \<in> set (subscribers (im_mq s))" for sub
    using s [OF that] L(2) by (auto simp: app_def sub_of_def)
  define ev where "ev d = AppMessage (app (0, d)) (SetID (sd_cb d) m) payload (sd_user_data d)" for d
  have "map (\<lambda>sub. AppMessage (app sub) (SetID (sd_cb (snd sub)) m) payload (sd_user_data (snd sub))) (filter (wants (ie_mq E) topic) (subscribers (im_mq s))) =
      map ev (filter (\<lambda>d. CompareTopic (ie_mq E) (sd_topic d) topic) (map snd (subscribers (im_mq s))))"
    by (simp add: filter_map comp_def ev_def app_def wants_def [abs_def])
  also have "\<dots> = expected (ie_mq E) topic m payload L"
    using L(2) by (auto simp: L(1) filter_map comp_def expected_def ev_def app_def sub_of_def mq_live_def conj_commute)
  finally show ?thesis
    using application_called [of s E topic props m app payload] im m a by (auto simp: implements_def)
qed

text \<open>C24. The public class implements the list of subscriptions that its calls and their results describe.  After any sequence of
  \<open>Connect\<close>, \<open>Subscribe\<close>, \<open>Unsubscribe\<close> and \<open>Publish\<close> on a newly constructed object, whatever
  of them throws (but for a subscription over MQTT), the table of subscriptions is that list; and a message from the broker makes,
  in the order of subscribing, exactly one call for every subscription over MQTT that was made, not given back and matches, with its
  identifier, callback and user data.\<close>

theorem history_delivered:
  assumes "Impl_ctor E ident ip option = Inr s" and "loads (ie_mm E)" and "\<not> opt_use_custom_broker option"
    and "run_app E ops s = (h, t)" and "mqtt_accepted h" and "read_msg (ie_mq E) topic props = Inr m"
  shows "impl_table t = live_table (fold live_step h []) \<and>
    (\<exists>u v. impl_mq_message E topic payload props t = (Inr (), u) \<and> forA (im_idle u) (\<lambda>_. impl_idle E) u = (Inr (), v) \<and>
       im_events v = im_events t @ expected (ie_mq E) topic m payload (fold live_step h []))"
proof -
  have "implements t (fold live_step h [])"
    using implements_run [OF implements_ctor [OF assms(1-3)] assms(4,5)] .
  with implements_delivers [OF this assms(6), of payload] show ?thesis by (auto simp: implements_def)
qed

text \<open>A library that creates clients, and everything else succeeds.\<close>

definition creating_env :: impl_env where
  "creating_env =
     (let q = (plain_env (\<lambda>_ _ _. []))\<lparr>env_rc := \<lambda>_ c. case c of M_new _ _ \<Rightarrow> 1 | _ \<Rightarrow> 0\<rparr>
      in sample_impl_env\<lparr>ie_mq := q, ie_tcp := sample_tcp_env\<lparr>te_mq := q\<rparr>\<rparr>)"

text \<open>Two subscriptions of one topic, the first given back.\<close>

definition sample_calls :: "app_op list" where
  "sample_calls = [SubscribeOp ''t'' 7 42 AITT_TYPE_MQTT 0, SubscribeOp ''t'' 8 43 AITT_TYPE_MQTT 0, UnsubscribeOp 1]"

lemma creating_run:
  "\<exists>s t. Impl_ctor creating_env ''me'' ''1.2.3.4'' AittOption_default = Inr s \<and>
     run_app creating_env sample_calls s = (zip sample_calls [Inr 1, Inr 2, Inr 42], t)"
proof -
  have "[0..<2] = [0, 1::nat]" "[0..1::int] = [0, 1]" by (simp_all add: upt_rec upto.simps)
  then obtain s where s: "Impl_ctor creating_env ''me'' ''1.2.3.4'' AittOption_default = Inr s"
    and i: "subscribers (im_mq s) = []" "\<not> subscribers_iterating (im_mq s)" "subscribed_list s = []" "im_next_info s = 1" "im_infos s = []"
      "mq_next_ptr (im_mq s) = 1" "my_subscribe_table (im_mdh s) = []" "disc_mq (im_discovery s) \<noteq> None"
    by (simp add: creating_env_def Impl_ctor_def Impl_mqs_def ModuleManager_ctor_def LoadTransport_def OpenTransport_def OpenModule_def
      GetTransportFileName_def AITT_TRANSPORT_NEW_def TCPModule_ctor_run act_simps Let_def sample_impl_defs AittOption_default_def
      AittOption_new_def MosquittoMQ_ctor_def MQDiscoveryHandler_ctor_def AddDiscoveryCB_def disc_SetMQ_def)
  have "\<exists>t. run_app creating_env sample_calls s = (zip sample_calls [Inr 1, Inr 2, Inr 42], t)"
    using i
    by (simp add: sample_calls_def creating_env_def impl_Subscribe_def new_info_def SubscribeMQ_def add_closure_def push_info_def mq_Subscribe_def
        mdh_Subscribe_def mdh_UpdateDiscoveryMsg_def UpdateDiscoveryMsg_def PublishDiscoveryMsg_def mq_Publish_def act_simps Let_def
        sample_impl_defs impl_Unsubscribe_def leave_provider_def mq_Unsubscribe_def mdh_Unsubscribe_def delete_info_def erase_at_def
        split: option.split)
  with s show ?thesis by blast
qed

theorem history_delivered_witness:
  "\<exists>s t u v. Impl_ctor creating_env ''me'' ''1.2.3.4'' AittOption_default = Inr s \<and>
     run_app creating_env sample_calls s = (zip sample_calls [Inr 1, Inr 2, Inr 42], t) \<and>
     impl_mq_message creating_env ''t'' [5] None t = (Inr (), u) \<and> forA (im_idle u) (\<lambda>_. impl_idle creating_env) u = (Inr (), v) \<and>
     im_events v = im_events t @ [AppMessage 8 (SetID 2 (SetTopic ''t'' AittMsg_new)) [5] 43]"
proof -
  obtain s t where s: "Impl_ctor creating_env ''me'' ''1.2.3.4'' AittOption_default = Inr s"
    and t: "run_app creating_env sample_calls s = (zip sample_calls [Inr 1, Inr 2, Inr 42], t)"
    using creating_run by blast
  have a: "mqtt_accepted (zip sample_calls [Inr 1, Inr 2, Inr 42])" by (simp add: mqtt_accepted_def sample_calls_def)
  have m: "read_msg (ie_mq creating_env) ''t'' None = Inr (SetTopic ''t'' AittMsg_new)" by (simp add: read_msg_def)
  have e: "expected (ie_mq creating_env) ''t'' (SetTopic ''t'' AittMsg_new) [5] (fold live_step (zip sample_calls [Inr 1, Inr 2, Inr 42]) []) =
      [AppMessage 8 (SetID 2 (SetTopic ''t'' AittMsg_new)) [5] 43]"
    by (simp add: expected_def sample_calls_def creating_env_def CompareTopic_def plain_env_def Let_def)
  have "loads (ie_mm creating_env)" "\<not> opt_use_custom_broker AittOption_default"
    by (simp_all add: creating_env_def sample_impl_env_def loads_def AittOption_default_def AittOption_new_def Let_def)
  from history_delivered [OF s this t a m, of "[5]", unfolded e] s t show ?thesis by blast
qed

end
