(* ===== verification/Spec2Isabelle.thy ===== *)
theory Spec2Isabelle
  imports AittC_Model GlibMainLoop_Model RTSP_Model WebRtc_Session Network_Props Request_Props Viewer_Model AittJni_Model AITT_History
begin

text \<open>
  \<^bold>\<open>AITT, a publish/subscribe library for devices on one network.\<close>

  An application creates an object of the class \<open>AITT\<close> (or a handle of the C interface), connects
  it to an MQTT broker, and publishes and subscribes by topic.  A message travels over the broker
  or, when both ends ask for it, over direct TCP connections, plain or encrypted.  Media streams use
  RTSP or WebRTC.  Which peer serves what is found out by a discovery object: a second MQTT client
  that keeps one retained message per device, a map from protocol names to opaque blobs.

  \<^bold>\<open>How the parts call each other.\<close>  \<open>aitt_c.cc\<close> \<open>\<rightarrow>\<close> \<open>AITT.cc\<close> \<open>\<rightarrow>\<close> \<open>AITTImpl.cc\<close>, which owns a
  \<open>MosquittoMQ\<close> client, an \<open>AittDiscovery\<close>, an \<open>MQDiscoveryHandler\<close>, a \<open>ModuleManager\<close> and main
  loops.  The module manager loads the transports (\<open>modules/tcp/Module.cc\<close>, with \<open>TCP.cc\<close>,
  \<open>TCPServer.cc\<close> and the encryptors below it, or the \<open>NullTransport\<close>) and creates the streams
  (\<open>modules/rtsp\<close>, \<open>modules/webrtc\<close>).  Transports, streams and the discovery handler register
  callbacks with the one discovery object and advertise through it.

  \<^bold>\<open>Theories, from the bottom up.\<close>
  \<^item> \<open>Aitt_Prelude\<close>: exceptions, actions, maps, reachable states, the shared locales.
  \<^item> \<open>Aitt_Std\<close>: the functions of the C++ library on strings and integers that the sources call.
  \<^item> \<open>Aitt_Types\<close>: \<open>include/AittTypes.h\<close>, \<open>AittMsg\<close>, \<open>AittOption\<close>, \<open>AittException\<close>.
  \<^item> \<open>Flexbuffers\<close>: values and parameters for the serialisation library.
  \<^item> \<open>MosquittoMQ_Model\<close>: \<open>src/MosquittoMQ.cc\<close>, the client and the re-entrant delivery loop (C4, C5).
  \<^item> \<open>AittDiscovery_Model\<close>: \<open>common/AittDiscovery.cc\<close> (C6, C7); \<open>MQDiscovery_Model\<close>:
    \<open>src/MQDiscoveryHandler.cc\<close> (C8).
  \<^item> \<open>AES_Model\<close>: the two encryptors of \<open>modules/tcp\<close> (C9); \<open>TCP_Model\<close>: \<open>TCP.cc\<close> and \<open>TCPServer.cc\<close>,
    framing on top of partial transfers (C10--C12).
  \<^item> \<open>TCPModule_Model\<close> and \<open>TCPModule_Props\<close>: \<open>modules/tcp/Module.cc\<close> (C13--C15).
  \<^item> \<open>Network_Props\<close>: two devices, each step of a subscription and of a message between them; the
    compositions are at the end of this theory (C1, C2).  \<open>Request_Props\<close>: a
    request over MQTT and its replies (C3).
  \<^item> \<open>MainLoopIface_Spec\<close>: what \<open>common/MainLoopIface.h\<close> promises of watches.  \<open>MainLoop_Model\<close>:
    \<open>common/PosixMainLoop.cc\<close> (C16--C18).  \<open>GlibMainLoop_Model\<close>: \<open>common/GlibMainLoop.cc\<close> and the
    choice between the two (C19).
  \<^item> \<open>ModuleManager_Model\<close>: \<open>src/ModuleManager.cc\<close>, its Tizen RT build with the stub \<open>CustomMQ.cc\<close>, \<open>NullTransport.cc\<close> (C20--C22).
  \<^item> \<open>AITT_Model\<close>: \<open>src/AITTImpl.cc\<close> and \<open>src/AITT.cc\<close>; \<open>AITT_Props\<close> its table of subscriptions (C23);
    \<open>AITT_Delivery\<close> messages, replies and requests from end to end (C25--C28);
    \<open>AITT_History\<close> whole sequences of calls on the public class against the list of live subscriptions (C24).
  \<^item> \<open>AittC_Model\<close>: \<open>src/aitt_c.cc\<close> (C29, C30).
  \<^item> \<open>AittJni_Model\<close>: the native side of the Android binding, \<open>android/aitt-native/src/main/jni/aitt_jni.cc\<close>, with
    \<open>src/AittDiscoveryHelper.cc\<close> (C39, C40).
  \<^item> \<open>Viewer_Model\<close>: \<open>tools/discovery_viewer.cc\<close> and \<open>tools/FlexbufPrinter.cc\<close>, which print what the devices advertise
    (C38).
  \<^item> \<open>RTSP_Model\<close>: \<open>modules/rtsp\<close> (C31, C32).
  \<^item> \<open>WebRtcStream_Model\<close>, \<open>WebRtc_Model\<close>, \<open>WebRtc_Props\<close>: \<open>modules/webrtc\<close> (C37); \<open>WebRtc_Session\<close> the session of
    two devices from their constructors on (C36).
    \<open>RequestServer_Model\<close>: the frame queue, \<open>SyncQueue.h\<close> and \<open>RequestServer.cc\<close>, with its threads interleaved at
    every critical section (C33--C35).

  \<^bold>\<open>Conventions.\<close>  A class is a record with the fields of the source, an operation is a
  definition with the name of the source function, prefixed by its class where names clash
  (\<open>mq_Subscribe\<close>, \<open>tcp_Subscribe\<close>, \<open>impl_Subscribe\<close>).  Most operations are actions of type \<open>('s, 'a) act\<close>: a
  function from the state to a result, \<open>Inl\<close> an exception or \<open>Inr\<close> a value, and the new state.  As in
  C++, what was changed before a throw stays changed.  \<open>UndefinedBehaviour\<close> is a marker that no
  \<open>catch\<close> catches; the theorems show where it cannot occur, some lemmas show where it does.
  Pointers are numbers from counters that are never reused, and 0 is the null pointer.
  \<open>std::map\<close> is a sorted association list.  C strings hold no NUL.  \<open>int\<close>, \<open>uint16_t\<close>
  and \<open>size_t\<close> stay words where they can wrap: the reply identifier, the sequence number, the sizes
  on the wire.  A mutex is not modelled: the operation it guards is one atomic step; in \<open>RequestServer_Model\<close> these steps of several threads
  interleave, and a condition variable is the threads that sleep on it and those that were woken.  Callbacks of
  the application are recorded as events, in order, with their arguments.

  \<^bold>\<open>Parameters.\<close>  Code outside of the sources is an argument: libmosquitto (\<open>mq_env\<close>), FlexBuffers
  (\<open>flexbuf\<close>), the ciphers of Mbed TLS and OpenSSL (\<open>cbc\<close>, \<open>evp\<close>), the system calls on sockets (\<open>os\<close>,
  \<open>tcp_env\<close>), callbacks and timers of the main loop (\<open>loop_env\<close>), GLib (\<open>glib_env\<close>), the dynamic linker and the constructors
  of modules (\<open>mm_env\<close>, \<open>impl_env\<close>), \<open>inet_pton\<close> (\<open>c_env\<close>), the media player (\<open>player_env\<close>), the Java virtual
  machine (\<open>jni_env\<close>), the environment of the viewer (\<open>view_env\<close>) and the WebRTC
  library with its JSON parser (\<open>rtc_env\<close>).  The result of a call may depend on all the calls
  made before it.  Where a property needs documented behaviour of such code it says so by name:
  \<open>flexbuf_ok\<close> (a finished buffer is read back as the value it was built from), \<open>mosq_props_ok\<close> (MQTT 5 properties
  are read back as they were added), \<open>cbc_ok\<close> and \<open>evp_ok\<close> (decryption inverts encryption),
  \<open>view_ok\<close> (of FlexBuffers as the viewer reads them), \<open>jvm_healthy\<close> (a thread can be attached and no exception is pending),
  \<open>idle_player\<close> and \<open>rtc_negotiates\<close> (calls succeed and report the state they lead to).  Each of them
  holds of a concrete instance, which the witnesses use.

  \<^bold>\<open>Loops.\<close>  The delivery loop of \<open>MessageCB\<close> iterates over a vector that its callbacks change; it is a partial
  function of the option monad, and C4 shows that it returns.  The timeout loop terminates by a measure
  on its pipe.  \<open>Send\<close> and \<open>Recv\<close> recurse over the remaining bytes and the list of events of the socket;
  C11 bounds the number of calls.  The wait of a synchronous request consumes a list of events, and C26 shows
  that the timer ends it.  The printer of nested FlexBuffers takes the depth of the stack as an argument; running out of it is undefined
  behaviour, and C38 is about messages within it.  No other definition takes fuel.

  \<^bold>\<open>Interfaces.\<close>  \<open>invariant_system\<close> (initial states, steps, an invariant they keep) is interpreted for the discovery
  handler, the TCP module, the idle queue and the timers of the main loop, the streams of the module manager, the
  process behind the C interface, the GLib loop, the RTSP session and the frame queue of WebRTC.  \<open>handle_table\<close> (add returns a fresh handle, delete gives its payload
  back and leaves the others) is interpreted for \<open>MosquittoMQ\<close>, for the TCP module and for \<open>AITT::Impl\<close>, whose proof
  uses the first two: \<open>AITT\<close> is a handle table over those of its providers.  \<open>encryptor\<close> is what the framing of a
  secure connection needs of a cipher; both encryptors are interpretations.  \<open>loop_relation\<close> lifts a relation
  between states of the main loop from its operations to a whole round.  \<open>watch_table\<close> is the contract of
  \<open>MainLoopIface\<close> on watches; both event loops are interpretations, so their clients cannot tell them apart.

  \<^bold>\<open>What is shown.\<close>  \<^emph>\<open>Delivery\<close>: a message reaches each matching subscriber once and in order in the client (C5), over TCP
  (C10, C14), from device to device (C1) and at the application after any history of calls (C24); a request is answered by numbered replies, the last of which ends it
  (C3, C25, C26).  \<^emph>\<open>Discovery\<close>: what one side advertises is what the other reads (C6, C8, C2, C31, C36).  \<^emph>\<open>Tables\<close>: unsubscribing undoes
  subscribing at every level (C23, from the lemmas \<open>Subscribe_Unsubscribe\<close> of the client and \<open>tcp_Subscribe_Unsubscribe\<close> of the TCP module) and disconnecting leaves nothing behind (C27).
  \<^emph>\<open>Loops end\<close>: C4, C11, C17, C26, C34.  \<^emph>\<open>Errors\<close>: sockets are not leaked (C12), dispatch and configuration errors change
  nothing (C28, C37), no exception crosses the C interface (C29) or the
  Android binding (C39).

  \<^bold>\<open>Not modelled.\<close>  Concurrency below the granularity of an operation outside of the frame queue, and memory exhaustion.  The
  Java classes under \<open>android\<close> that call the native side, the macros for logging and
  profiling (\<open>common/aitt_internal.h\<close>, \<open>aitt_internal_profiling.h\<close>), which write and do not compute, and the tests.
\<close>

section \<open>Two devices\<close>

text \<open>C1. A published message reaches the application of another device over TCP.  A device advertises
  its servers; a publisher that did not know it hears the advertisement and publishes: it connects to
  the address and the port of the server of that topic filter, with its key.  The connection is accepted.  However the
  two parts of the message were accepted by \<open>send\<close> and cut into segments, the subscriber reads both, no byte
  more, and calls every callback of the topic, in order, with the payload and the message data as published (the
  end mark apart, which is always on); plain and secured with Mbed TLS.\<close>

theorem tcp_message_delivered:
  assumes F: "flexbuf_ok F" "te_fb S = F" "te_fb P = F" and ports: "\<And>t h. os_sockname (te_os S) t h = ports h"
    and sub: "tcp_ok s" "map_of (subscribeTable s) l = Some (tsd, srv)"
    and servers: "\<forall>(p, tsd, srv) \<in> set (subscribeTable s). tsd_topic tsd \<noteq> ''host'' \<and> length (tsd_cb_list tsd) < 65536 \<and>
       length (srv_key srv) = 32 \<and> length (srv_iv srv) = 16 \<and> srv_secure srv = tm_secure s"
    and advertise: "omap_ok (discovery_map d)" "tcp_UpdateDiscoveryMsg S (s, d) = (Inr (), (s1, d1))"
       "map_of (discovery_map d1) (tcp_NAME (tm_secure s)) = Some blob"
    and hear: "tm_secure p = tm_secure s" "known p (tsd_topic tsd) ident = None"
       "p1 = tcp_DiscoveryMessageCallback F ident ''connected'' blob p"
    and publish: "te_send P = (\<lambda>_ _. True)" "publish_to P msg data False (tsd_topic tsd) ident p1 = (Inr (), p2)"
       "known p2 (tsd_topic tsd) ident = Some (info, Some tcp)" "msg_topic msg \<noteq> []"
    and accept: "AcceptConnection S l s1 = (Inr r, s2)" "map_of (tm_watches s1) fd = None"
       "map_of (tm_watches s2) fd = Some (RecvWatch k peer)"
    and sent: "sent = map snd (drop (length (tm_sent p)) (tm_sent p2))" "\<forall>m \<in> set sent. fits (tm_secure s) m"
    and cipher: "tm_secure s \<Longrightarrow> cbc_ok C"
    and wire: "send_msgs (mbed_Encrypt C (tcp_crypto tcp)) (tcp_secure tcp) sent ([], sevs) = Some (Inr (), (out, sevs'))"
       "healthy revs" "arrived revs = out @ rest"
  shows "tcp_addr tcp = (tm_ip s, ports (srv_handle srv)) \<and>
     (\<exists>n1 b1 n2 b2 revs1 revs2.
        RecvSizedData mem (mbed_Decrypt C (tcp_crypto peer)) (tcp_secure peer) revs = Some (Inr (n1, b1), revs1) \<and>
        RecvSizedData mem (mbed_Decrypt C (tcp_crypto peer)) (tcp_secure peer) revs1 = Some (Inr (n2, b2), revs2) \<and>
        arrived revs2 = rest \<and>
        ReceiveData S OKAY fd (n1, b1) (n2, b2) s2 =
          (Inr AITT_LOOP_EVENT_CONTINUE, s2\<lparr>tm_delivered := tm_delivered s2 @
             map (\<lambda>(q, cb, cbdata). TcpDelivered cb
                    (msg\<lparr>msg_end_sequence := True, msg_id := nullptr, msg_protocol := AITT_TYPE_MQTT\<rparr>) data cbdata)
                 (tsd_cb_list tsd)\<rparr>))"
proof -
  have mem: "(l, tsd, srv) \<in> set (subscribeTable s)" using sub(2) by (rule map_of_SomeD)
  have wf: "\<forall>(p, tsd, srv) \<in> set (subscribeTable s). tsd_topic tsd \<noteq> ''host'' \<and> length (tsd_cb_list tsd) < 65536 \<and>
       length (srv_key srv) = 32 \<and> length (srv_iv srv) = 16" using servers by auto
  have fb: "flexbuf_ok (te_fb S)" and p1: "p1 = tcp_DiscoveryMessageCallback (te_fb S) ident ''connected'' blob p"
    using F hear(3) by simp_all
  obtain info0 where adv: "map_of (clientTable p1) ident = Some (tm_ip s)" "known p1 (tsd_topic tsd) ident = Some (info0, None)"
    "ci_port info0 = ports (srv_handle srv)" "ci_secure info0 = tm_secure s"
    "tm_secure s \<Longrightarrow> ci_key info0 = srv_key srv \<and> ci_iv info0 = srv_iv srv"
    using advertisement_known [OF fb sub(1) advertise(1) ports wf advertise(2,3) hear(1) p1 sub(2) hear(2)] by blast
  obtain tcp' t where pub: "TCP_connect (te_os P) (tm_ip s) info0 (tm_trace p1) = (Inr tcp', t)"
    "known p2 (tsd_topic tsd) ident = Some (info0, Some tcp')"
    "tm_sent p2 = tm_sent p @ [(tcp_handle tcp', fb_finish F (PackMsgInfo msg False)), (tcp_handle tcp', data)]"
    using publish_connects [OF publish(1) adv(2,1) publish(2)] F hear(3) by (auto simp: DiscoveryMessageCallback_sent)
  have tcp: "tcp' = tcp" using pub(2) publish(3) by simp
  have s1: "subscribeTable s1 = subscribeTable s"
    using UpdateDiscoveryMsg_same [of "(s, d)" S] advertise(2) by (simp add: same_tables_def)
  obtain tsd' t' u where acc: "k = l" "AcceptPeer (te_os S) srv t' = (Inr peer, u)"
    "map_of (subscribeTable s2) l = Some (tsd', srv)" "tsd_cb_list tsd' = tsd_cb_list tsd"
    using accepted_connection [OF accept(1) _ accept(2,3)] sub(2) s1 by auto
  have srv: "srv_secure srv = tm_secure s" "length (srv_key srv) = 32" using servers mem by auto
  have ends: "tcp_addr tcp = (tm_ip s, ports (srv_handle srv))" "tcp_secure tcp = tm_secure s" "tcp_secure peer = tm_secure s"
    "tcp_crypto peer = tcp_crypto tcp"
    using TCP_connect_state [OF pub(1)] AcceptPeer_state [OF acc(2)] adv(3-5) srv tcp by auto
  have key: "tm_secure s \<Longrightarrow> cbc_ok C \<and> aes_key (tcp_crypto tcp) \<noteq> []"
    using TCP_connect_state [OF pub(1)] adv(4,5) srv(2) cipher tcp by (auto simp: aes_Init_def AESEncryptor_new_def)
  define m1 where "m1 = fb_finish F (PackMsgInfo msg False)"
  have two: "sent = [m1, data]" using sent(1) pub(3) by (simp add: m1_def)
  have "m1 \<noteq> []" using flexbuf_okD(2) [OF F(1) PackMsgInfo_wf] by (simp add: m1_def)
  with two_messages [of "tm_secure s" C "tcp_crypto tcp", OF key, of m1 data sevs out sevs' revs rest mem] two sent(2) wire ends obtain n1 b1 n2 b2 revs1 revs2 where
    rcv: "RecvSizedData mem (mbed_Decrypt C (tcp_crypto peer)) (tcp_secure peer) revs = Some (Inr (n1, b1), revs1)"
      "RecvSizedData mem (mbed_Decrypt C (tcp_crypto peer)) (tcp_secure peer) revs1 = Some (Inr (n2, b2), revs2)"
      "arrived revs2 = rest" "b1 \<noteq> None" "message_of n1 b1 = m1" "0 \<le> n1" "message_of n2 b2 = data" "0 \<le> n2"
    by auto
  from ReceiveData_delivers [OF fb _ acc(3) publish(4) rcv(4) _ rcv(6,7,8), of fd peer] rcv accept(3) acc(1,4) F ends(1)
  show ?thesis by (auto simp: m1_def)
qed

theorem tcp_message_delivered_witness:
  "\<exists>s2 peer n1 b1 n2 b2. map_of (tm_watches s2) 6 = Some (RecvWatch 2 peer) \<and> tcp_secure peer \<and> ReceiveData sample_tcp_env OKAY 6 (n1, b1) (n2, b2) s2 =
     (Inr AITT_LOOP_EVENT_CONTINUE, s2\<lparr>tm_delivered := tm_delivered s2 @ [TcpDelivered 3 (SetTopic ''t'' AittMsg_new) [1, 2] 30]\<rparr>)"
proof -
  let ?msg = "SetTopic ''t'' AittMsg_new"
  have fb: "te_fb sample_tcp_env = sample_flexbuf" "te_fb sending_env = sample_flexbuf" "te_send sending_env = (\<lambda>_ _. True)"
    by (simp_all add: sending_env_def sample_tcp_env_def)
  have ports: "\<And>t h. os_sockname (te_os sample_tcp_env) t h = 4000" by (simp add: sample_tcp_env_def plain_os_def)
  note sub = secure_subscriber_ok
  obtain s1 d1 blob where adv: "tcp_UpdateDiscoveryMsg sample_tcp_env (secure_subscriber, sample_discovery) = (Inr (), (s1, d1))"
    "map_of (discovery_map d1) (tcp_NAME (tm_secure secure_subscriber)) = Some blob" "tm_watches s1 = []"
    "subscribeTable s1 = [(2, secure_data, secure_server)]" using secure_subscriber_advertises by blast
  define p1 where "p1 = tcp_DiscoveryMessageCallback sample_flexbuf ''me'' ''connected'' blob secure_publisher"
  have hear: "omap_ok (discovery_map sample_discovery)" "tm_secure secure_publisher = tm_secure secure_subscriber"
    "known secure_publisher (tsd_topic secure_data) ''me'' = None"
    by (simp_all add: sample_discovery_def AittDiscovery_new_def secure_publisher_def secure_subscriber_def known_def)
  obtain info where info: "known p1 ''t'' ''me'' = Some (info, None)" "ci_port info = 4000" "ci_secure info"
     "ci_key info = replicate 32 7" "ci_iv info = replicate 16 1" "map_of (clientTable p1) ''me'' = Some ''10.0.0.1''"
    using advertisement_known [OF _ sub(1) hear(1) ports _ adv(1,2) hear(2) _ sub(2) hear(3), of p1] sample_flexbuf_ok sub(3) fb
    by (auto simp: p1_def secure_data_def secure_subscriber_def secure_server_def sample_subscriber_def sample_module_def)
  obtain p2 tcp where pub: "publish_to sending_env ?msg [1, 2] False (tsd_topic secure_data) ''me'' p1 = (Inr (), p2)"
    "known p2 (tsd_topic secure_data) ''me'' = Some (info, Some tcp)" "tcp_crypto tcp = sample_key" "tcp_secure tcp"
    "map snd (drop (length (tm_sent p1)) (tm_sent p2)) = [fb_finish sample_flexbuf (PackMsgInfo ?msg False), [1, 2]]"
    using secure_publisher_sends [OF info, of ?msg] by (auto simp: secure_data_def)
  have sent: "[fb_finish sample_flexbuf (PackMsgInfo ?msg False), [1, 2]] =
      map snd (drop (length (tm_sent secure_publisher)) (tm_sent p2))"
    using pub(5) by (simp add: p1_def DiscoveryMessageCallback_sent)
  obtain s2 peer where acc: "AcceptConnection sample_tcp_env 2 s1 = (Inr AITT_LOOP_EVENT_CONTINUE, s2)"
    "map_of (tm_watches s2) 6 = Some (RecvWatch 2 peer)" "tcp_secure peer" using secure_subscriber_accepts [OF adv(4,3)] by blast
  obtain out sevs' where wire: "send_msgs (mbed_Encrypt xor_cbc (tcp_crypto tcp)) (tcp_secure tcp)
      [fb_finish sample_flexbuf (PackMsgInfo ?msg False), [1, 2]] ([], replicate 4 (Sent 1000)) = Some (Inr (), (out, sevs'))" "out \<noteq> []"
    using secure_wire pub(3,4) by auto
  have net: "healthy [Chunk out]" "arrived [Chunk out] = out @ []" "map_of (tm_watches s1) 6 = None" "msg_topic ?msg \<noteq> []"
    using wire(2) adv(3) by (simp_all add: healthy_def arrived_def AittMsg_defs)
  have fit: "\<forall>m \<in> set [fb_finish sample_flexbuf (PackMsgInfo ?msg False), [1, 2]]. fits (tm_secure secure_subscriber) m"
    using secure_messages_fit by (simp add: secure_subscriber_def)
  from acc(2,3) tcp_message_delivered [OF sample_flexbuf_ok fb(1,2) ports sub hear(1) adv(1,2) hear(2,3) p1_def fb(3) pub(1,2) net(4) acc(1) net(3) acc(2)
      sent fit xor_cbc_ok wire(1) net(1,2), of "\<lambda>_. 0"]
  show ?thesis by (intro exI [of _ s2] exI [of _ peer]) (auto simp: secure_data_def AittMsg_defs)
qed



text \<open>C3. A request over MQTT is answered.  A device publishes a request; another one reads it and answers with
  any number of replies, the last one marked as such.  The request arrives as published, the requester's callback is called with
  every reply, in order, numbered, with the correlation data and the reply topic of the request, and after the last one
  the requester has the subscriptions it had before.  No step fails or throws on the way.\<close>

theorem request_answered:
  assumes lib: "mosq_props_ok (ie_mq A)" "mosq_props_ok (ie_mq B)" and c: "length c < 65536"
    and asker: "impl_ok a" "\<not> subscriber_iterator_updated (im_mq a)" "im_idle a = []"
    and topic: "rt = reply_topic topic (reply_id a)" "CompareTopic (ie_mq A) rt rt"
      "filter (wants (ie_mq A) rt) (subscribers (im_mq a)) = []"
    and ask: "impl_PublishWithReply A topic data len AITT_TYPE_MQTT qos retain n ud c a = (Inr (), s)"
    and hear: "v5_published (mq_calls (im_mq s)) = v5_published (mq_calls (im_mq a)) @ [(topic', data', props)]"
      "read_msg (ie_mq B) topic' (Some props) = Inr m"
    and answer: "int (length ds) < INT32_MAX"
      "send_replies B (SetID j m) (map (\<lambda>d. (d, False)) ds @ [(d, True)]) b = (Inr ms, b')"
    and wire: "v5_published (mq_calls (im_mq b')) = v5_published (mq_calls (im_mq b)) @ replies"
  shows "topic' = topic \<and> data' = data \<and>
     (\<exists>u msgs i. handle_replies A replies s = (Inr (), u) \<and>
        im_events u = im_events a @ map2 (\<lambda>msg d. AppMessage n msg d ud) msgs (ds @ [d]) \<and>
        length msgs = length ds + 1 \<and>
        map GetSequence msgs = (if ds = [] then [0] else map int [1 ..< length ds + 2]) \<and>
        map msg_end_sequence msgs = replicate (length ds) False @ [True] \<and>
        (\<forall>x \<in> set msgs. msg_correlation x = c \<and> msg_topic x = rt \<and> msg_id x = i) \<and>
        impl_table u = impl_table a)"
proof -
  obtain h i where w: "awaits A rt h i n ud s" "(impl_table s)(i := None) = impl_table a" "im_events s = im_events a"
    "v5_published (mq_calls (im_mq s)) = v5_published (mq_calls (im_mq a)) @ [(topic, data, [ResponseTopic rt, correlation_prop c])]"
    using request_awaits [OF asker topic ask] by blast
  then have req: "topic' = topic" "data' = data" "props = [ResponseTopic rt, correlation_prop c]" using hear(1) by simp_all
  then have m: "m = SetCorrelation c (SetResponseTopic rt (SetTopic topic AittMsg_new))"
    using hear(2) read_request_props [OF lib(2) c, of topic rt] by simp
  have f: "msg_protocol (SetID j m) = AITT_TYPE_MQTT" "GetSequence (SetID j m) = 0"
    "msg_reply_topic (SetID j m) = rt" "msg_correlation (SetID j m) = c"
    by (simp_all add: m AittMsg_defs GetSequence_def)
  from answers_handled [OF lib(1) _ _ f(1,2) answer wire, of h i n ud s, unfolded f(3,4) w(2,3), OF c w(1)] req(1,2)
  show ?thesis by blast
qed

theorem request_answered_witness:
  "\<exists>s b' m ms props replies u msgs i. impl_PublishWithReply sample_impl_env ''t'' [1] 1 AITT_TYPE_MQTT 0 False 7 42 ''c'' sample_impl = (Inr (), s) \<and>
     v5_published (mq_calls (im_mq s)) = [(''t'', [1], props)] \<and>
     send_replies sample_impl_env m [([8], False), ([9], True)] sample_impl = (Inr ms, b') \<and>
     v5_published (mq_calls (im_mq b')) = replies \<and> handle_replies sample_impl_env replies s = (Inr (), u) \<and>
     im_events u = map2 (\<lambda>msg d. AppMessage 7 msg d 42) msgs [[8], [9]] \<and> map GetSequence msgs = [1, 2] \<and>
     map msg_end_sequence msgs = [False, True] \<and> (\<forall>x \<in> set msgs. msg_correlation x = ''c'' \<and> msg_id x = i) \<and>
     impl_table u = Map.empty"
proof -
  define E where "E = sample_impl_env"
  define rt where "rt = reply_topic ''t'' (reply_id sample_impl)"
  define m where "m = SetCorrelation ''c'' (SetResponseTopic rt (SetTopic ''t'' AittMsg_new))"
  note run = impl_Subscribe_def new_info_def SubscribeMQ_def add_closure_def push_info_def mq_Subscribe_def mdh_Subscribe_def
        mdh_UpdateDiscoveryMsg_def UpdateDiscoveryMsg_def PublishDiscoveryMsg_def mq_Publish_def act_simps Let_def sample_impl_defs
        impl_PublishWithReply_def mq_PublishWithReply_def next_reply_topic_def
  obtain s where s: "impl_PublishWithReply E ''t'' [1] 1 AITT_TYPE_MQTT 0 False 7 42 ''c'' sample_impl = (Inr (), s)"
    by (simp add: E_def run)
  obtain ms b' where b: "send_replies E (SetID 3 m) (map (\<lambda>d. (d, False)) [[8]] @ [([9], True)]) sample_impl = (Inr ms, b')"
    by (simp add: E_def m_def act_simps impl_SendReply_def mq_SendReply_def reply_props_def reply_msg_def AittMsg_defs sample_impl_defs Let_def)
  have lib: "mosq_props_ok (ie_mq E)" by (simp add: E_def sample_impl_defs mosq_props_ok_def)
  have z: "v5_published (mq_calls (im_mq sample_impl)) = []" "im_events sample_impl = []" "im_idle sample_impl = []"
    "\<not> subscriber_iterator_updated (im_mq sample_impl)" "filter (wants (ie_mq E) rt) (subscribers (im_mq sample_impl)) = []"
    "CompareTopic (ie_mq E) rt rt" "impl_table sample_impl = Map.empty"
    by (simp_all add: sample_impl_def MosquittoMQ_init_def E_def sample_impl_env_def plain_env_def CompareTopic_def impl_table_def fun_eq_iff)
  obtain h i where w: "awaits E rt h i 7 42 s" "(impl_table s)(i := None) = impl_table sample_impl"
    "v5_published (mq_calls (im_mq s)) = [(''t'', [1], [ResponseTopic rt, correlation_prop ''c''])]"
    using request_awaits [OF sample_impl_ok z(4,3) rt_def z(6,5) s] z(1) by auto
  have req: "v5_published (mq_calls (im_mq s)) = v5_published (mq_calls (im_mq sample_impl)) @ [(''t'', [1], [ResponseTopic rt, correlation_prop ''c''])]"
    "read_msg (ie_mq E) ''t'' (Some [ResponseTopic rt, correlation_prop ''c'']) = Inr m" "length ''c'' < 65536" "int (length [[8 :: byte]]) < INT32_MAX"
    using w(3) z(1) read_request_props [OF lib, of "''c''"] by (simp_all add: m_def)
  have wire: "v5_published (mq_calls (im_mq b')) = v5_published (mq_calls (im_mq sample_impl)) @ v5_published (mq_calls (im_mq b'))"
    by (simp add: z(1))
  obtain u msgs i' where u: "handle_replies E (v5_published (mq_calls (im_mq b'))) s = (Inr (), u)"
    "im_events u = im_events sample_impl @ map2 (\<lambda>msg d. AppMessage 7 msg d 42) msgs ([[8]] @ [[9]])"
    "map GetSequence msgs = (if [[8 :: byte]] = [] then [0] else map int [1 ..< length [[8 :: byte]] + 2])"
    "map msg_end_sequence msgs = replicate (length [[8 :: byte]]) False @ [True]"
    "\<forall>x \<in> set msgs. msg_correlation x = ''c'' \<and> msg_topic x = rt \<and> msg_id x = i'" "impl_table u = impl_table sample_impl"
    using request_answered [OF lib lib req(3) sample_impl_ok z(4,3) rt_def z(6,5) s req(1,2,4) b wire] by blast
  then have "im_events u = map2 (\<lambda>msg d. AppMessage 7 msg d 42) msgs [[8], [9]]" "map GetSequence msgs = [1, 2]"
    "map msg_end_sequence msgs = [False, True]" "\<forall>x \<in> set msgs. msg_correlation x = ''c'' \<and> msg_id x = i'"
    "impl_table u = Map.empty" using z(2,7) by (simp_all add: upt_rec)
  moreover have "send_replies E (SetID 3 m) [([8], False), ([9], True)] sample_impl = (Inr ms, b')" using b by simp
  ultimately show ?thesis using u(1) s w(3) unfolding E_def
    by - (rule exI [of _ s], rule exI [of _ b'], rule exI [of _ "SetID 3 m"], rule exI [of _ ms],
      rule exI [of _ "[ResponseTopic rt, correlation_prop ''c'']"], rule exI [of _ "v5_published (mq_calls (im_mq b'))"],
      rule exI [of _ u], rule exI [of _ msgs], rule exI [of _ i'], (rule conjI refl | assumption)+)
qed

end
